(* ===== verification/Errors.thy ===== *)
theory Errors
  imports CAS_Prelude
begin

text \<open>
  The error taxonomy \<^verbatim>\<open>AppError\<close> of the handlers and its rendering as an HTTP response
  (\<^verbatim>\<open>errors.rs\<close>), and the scope enumeration (\<^verbatim>\<open>scopes.rs\<close>).
\<close>

section \<open>JSON values\<close>

datatype json = JNull | JBool bool | JNum int | JStr string | JArr "json list" | JObj "(string \<times> json) list"

section \<open>Errors\<close>

text \<open>The sources of \<^verbatim>\<open>SiaUnavailable\<close>, \<^verbatim>\<open>Db\<close> and \<^verbatim>\<open>Other\<close> are kept as their printed text.\<close>

datatype AppError =
    Unauthenticated
  | Forbidden
  | NotFound
  | RangeNotSatisfiable
  | BadRequest string
  | HashMismatch hash hash
  | ShardMissingXorbs "hash list"
  | ShardVersionUnsupported
  | RateLimited nat
  | SiaUnavailable string
  | Db string
  | Other string

record response =
  r_status :: nat
  r_headers :: "(string \<times> string) list"
  r_body :: json

definition error_body :: "string \<Rightarrow> (string \<times> json) list \<Rightarrow> json" where
  "error_body e extra = JObj ((''error'', JStr e) # extra)"

text \<open>\<open>merkle_str\<close> is the \<^verbatim>\<open>Display\<close> of a Merkle hash.\<close>

definition into_response :: "(hash \<Rightarrow> string) \<Rightarrow> AppError \<Rightarrow> response" where
  "into_response merkle_str e =
     (let plain = (\<lambda>st b. \<lparr>r_status = st, r_headers = [], r_body = b\<rparr>) in
      case e of
        RateLimited retry_after \<Rightarrow>
          \<lparr>r_status = 429, r_headers = [(''Retry-After'', show_nat retry_after)],
           r_body = error_body ''rate_limited'' [(''retry_after'', JNum (int retry_after))]\<rparr>
      | Unauthenticated \<Rightarrow> plain 401 (error_body ''unauthenticated'' [])
      | Forbidden \<Rightarrow> plain 403 (error_body ''forbidden'' [])
      | NotFound \<Rightarrow> plain 404 (error_body ''not_found'' [])
      | RangeNotSatisfiable \<Rightarrow> plain 416 (error_body ''range_not_satisfiable'' [])
      | BadRequest msg \<Rightarrow> plain 400 (error_body msg [])
      | HashMismatch expected actual \<Rightarrow>
          plain 400 (error_body ''hash_mismatch''
            [(''expected'', JStr (merkle_str expected)), (''actual'', JStr (merkle_str actual))])
      | ShardMissingXorbs missing \<Rightarrow>
          plain 400 (error_body ''shard_missing_xorbs''
            [(''missing'', JArr (map (\<lambda>h. JStr (merkle_str h)) missing))])
      | ShardVersionUnsupported \<Rightarrow>
          plain 400 (error_body ''shard_version_unsupported''
            [(''supported'', JObj [(''header'', JNum 2), (''footer'', JNum 1)])])
      | SiaUnavailable source \<Rightarrow> plain 503 (error_body ''sia_unavailable'' [])
      | Db source \<Rightarrow> plain 500 (error_body ''internal'' [])
      | Other source \<Rightarrow> plain 500 (error_body ''internal'' []))"

text \<open>The inner text of an error whose source must not reach the client.\<close>

definition without_source :: "AppError \<Rightarrow> AppError" where
  "without_source e =
     (case e of SiaUnavailable _ \<Rightarrow> SiaUnavailable [] | Db _ \<Rightarrow> Db [] | Other _ \<Rightarrow> Db [] | _ \<Rightarrow> e)"

section \<open>Scopes\<close>

datatype ApiKeyScope = Upload | Download | Admin

definition SCOPE_UPLOAD :: byte where "SCOPE_UPLOAD = 0"
definition SCOPE_DOWNLOAD :: byte where "SCOPE_DOWNLOAD = 1"
definition SCOPE_ADMIN :: byte where "SCOPE_ADMIN = 2"
definition SCOPE_ANY :: byte where "SCOPE_ANY = 255"

definition from_u8 :: "byte \<Rightarrow> ApiKeyScope option" where
  "from_u8 v =
     (if v = SCOPE_UPLOAD then Some Upload
      else if v = SCOPE_DOWNLOAD then Some Download
      else if v = SCOPE_ADMIN then Some Admin
      else None)"

lemmas scope_consts = SCOPE_UPLOAD_def SCOPE_DOWNLOAD_def SCOPE_ADMIN_def SCOPE_ANY_def

lemma from_u8_simps [simp]:
  "from_u8 SCOPE_UPLOAD = Some Upload" "from_u8 SCOPE_DOWNLOAD = Some Download"
  "from_u8 SCOPE_ADMIN = Some Admin" "from_u8 SCOPE_ANY = None"
  by (simp_all add: from_u8_def scope_consts)

section \<open>Properties\<close>

text \<open>No response reveals the text of a database, Sia or internal error: the response is a
  function of the error with its source removed. Only a rate limit carries Retry-After and status
  429, and only an unavailable Sia gives 503.\<close>

lemma responses_hide_sources:
  "into_response M e = into_response M (without_source e)
   \<and> (r_status (into_response M e) = 429 \<longleftrightarrow> (\<exists>n. e = RateLimited n))
   \<and> (r_headers (into_response M e) \<noteq> [] \<longleftrightarrow> (\<exists>n. e = RateLimited n))
   \<and> (r_status (into_response M e) = 503 \<longleftrightarrow> (\<exists>s. e = SiaUnavailable s))
   \<and> r_status (into_response M e) \<in> {400, 401, 403, 404, 416, 429, 500, 503}"
  by (cases e) (simp_all add: into_response_def without_source_def Let_def)

end
