(* ===== verification/CAS_World.thy ===== *)
theory CAS_World
  imports Errors
begin

text \<open>
  The state the handlers and the reconciler act on: the Postgres tables (one list of keyed rows per
  table), the Redis keys, the clock, and the Sia adapter. Every database or Redis round trip may
  fail: \<open>faults\<close> lists, call by call, which ones do. The Sia network is external: \<open>sia_script\<close> lists
  its answers and \<open>sia_calls\<close> records what was asked. A handler is a function from the world to a
  result and a world; \<open>bindE\<close> is the question mark operator.
\<close>

section \<open>Rows\<close>

datatype XorbPinState = Uploading | Pinning | Pinned | Orphaned

record pin_row =
  sia_object_id :: "byte list option"
  size_bytes :: int
  owner_user_id :: int
  owner_api_key_id :: uuid
  uploaded_at :: int
  pin_state :: XorbPinState
  pin_attempts :: int
  last_pin_attempt_at :: "int option"

record xorb_row = pin_row +
  chunk_boundaries :: "int list option"

record rec_file =
  rf_shard_hash :: hash
  rf_total_size :: int
  rf_sha256 :: "hash option"

record ParsedFile =
  pf_file_id :: hash
  pf_total_size :: int
  pf_sha256 :: "hash option"

record ParsedTerm =
  pt_file_id :: hash
  pt_term_index :: int
  pt_xorb_hash :: hash
  pt_xorb_start :: int
  pt_xorb_end :: int
  pt_xorb_byte_start :: int
  pt_xorb_byte_end :: int
  pt_unpacked_start :: int
  pt_unpacked_end :: int

datatype UsageEvent = XorbUpload | ShardUpload | Reconstruction | XorbServe | DedupQuery

record usage_row =
  u_event :: UsageEvent
  u_api_key_id :: uuid
  u_user_id :: int
  u_xorb_hash :: "hash option"
  u_shard_hash :: "hash option"
  u_file_id :: "hash option"
  u_bytes :: "int option"
  u_occurred_at :: int

section \<open>Sia\<close>

datatype SiaAdapterError = Unavailable string | SiaOther string

text \<open>The outcome of an adapter call under \<^verbatim>\<open>tokio::time::timeout\<close>.\<close>

datatype sia_reply = SiaOk "byte list" | SiaErr SiaAdapterError | SiaTimeout

datatype sia_call = UploadAndPin "byte list" | PinOnly "byte list"

section \<open>The world\<close>

record world =
  xorbs :: "(hash \<times> xorb_row) list"
  shards :: "(hash \<times> pin_row) list"
  xorb_bodies :: "(hash \<times> byte list) list"
  reconstruction_files :: "(hash \<times> rec_file) list"
  reconstruction_terms :: "((hash \<times> int) \<times> ParsedTerm) list"
  usage_log :: "usage_row list"
  redis :: "string \<Rightarrow> (int \<times> int) option"
  clock :: int
  faults :: "bool list"
  sia_script :: "sia_reply list"
  sia_calls :: "sia_call list"
  m_sweeps :: nat
  m_failures :: nat
  m_orphaned_xorb :: nat
  m_orphaned_shard :: nat
  m_version_rejected :: "(string \<times> string) list"

definition empty_world :: world where
  "empty_world = \<lparr>xorbs = [], shards = [], xorb_bodies = [], reconstruction_files = [],
     reconstruction_terms = [], usage_log = [], redis = (\<lambda>_. None), clock = 0, faults = [],
     sia_script = [], sia_calls = [], m_sweeps = 0, m_failures = 0, m_orphaned_xorb = 0,
     m_orphaned_shard = 0, m_version_rejected = []\<rparr>"

type_synonym ('z, 'e, 'a) io = "'z world_scheme \<Rightarrow> ('e + 'a) \<times> 'z world_scheme"

definition ret :: "'a \<Rightarrow> ('z, 'e, 'a) io" where
  "ret a w = (Inr a, w)"

definition raise :: "'e \<Rightarrow> ('z, 'e, 'a) io" where
  "raise e w = (Inl e, w)"

definition bindE :: "('z, 'e, 'a) io \<Rightarrow> ('a \<Rightarrow> ('z, 'e, 'b) io) \<Rightarrow> ('z, 'e, 'b) io" where
  "bindE m f w = (case m w of (Inl e, w') \<Rightarrow> (Inl e, w') | (Inr a, w') \<Rightarrow> f a w')"

text \<open>\<open>attempt\<close> keeps the result as a value; \<open>discard\<close> is \<^verbatim>\<open>let _ = ...\<close> and the best-effort calls.\<close>

definition attempt :: "('z, 'e, 'a) io \<Rightarrow> ('z, 'e, 'e + 'a) io" where
  "attempt m w = (case m w of (r, w') \<Rightarrow> (Inr r, w'))"

definition discard :: "('z, 'e, 'a) io \<Rightarrow> ('z, 'e, unit) io" where
  "discard m w = (case m w of (r, w') \<Rightarrow> (Inr (), w'))"

definition lift_res :: "'e + 'a \<Rightarrow> ('z, 'e, 'a) io" where
  "lift_res r w = (r, w)"

definition gets :: "('z world_scheme \<Rightarrow> 'a) \<Rightarrow> ('z, 'e, 'a) io" where
  "gets f w = (Inr (f w), w)"

definition modify :: "('z world_scheme \<Rightarrow> 'z world_scheme) \<Rightarrow> ('z, 'e, unit) io" where
  "modify f w = (Inr (), f w)"

text \<open>One round trip to Postgres or Redis: the next entry of \<open>faults\<close> decides whether it fails.\<close>

definition io_step :: "'e \<Rightarrow> ('z world_scheme \<Rightarrow> 'a \<times> 'z world_scheme) \<Rightarrow> ('z, 'e, 'a) io" where
  "io_step err f w =
     (case faults w of
        [] \<Rightarrow> (case f w of (a, w') \<Rightarrow> (Inr a, w'))
      | b # bs \<Rightarrow>
          if b then (Inl err, w\<lparr>faults := bs\<rparr>)
          else (case f (w\<lparr>faults := bs\<rparr>) of (a, w') \<Rightarrow> (Inr a, w')))"

abbreviation db_error :: AppError where
  "db_error \<equiv> Db ''sqlx''"

definition db_query :: "('z world_scheme \<Rightarrow> 'a) \<Rightarrow> ('z, AppError, 'a) io" where
  "db_query f = io_step db_error (\<lambda>w. (f w, w))"

definition db_exec :: "('z world_scheme \<Rightarrow> 'a \<times> 'z world_scheme) \<Rightarrow> ('z, AppError, 'a) io" where
  "db_exec f = io_step db_error f"

definition db_update :: "('z world_scheme \<Rightarrow> 'z world_scheme) \<Rightarrow> ('z, AppError, unit) io" where
  "db_update f = io_step db_error (\<lambda>w. ((), f w))"

text \<open>A transaction: when its body or its commit fails, every table is as it was before it began.\<close>

definition rollback :: "'z world_scheme \<Rightarrow> 'z world_scheme \<Rightarrow> 'z world_scheme" where
  "rollback w w' = w\<lparr>faults := faults w'\<rparr>"

definition transaction :: "('z, AppError, 'a) io \<Rightarrow> ('z, AppError, 'a) io" where
  "transaction body w =
     (case db_query (\<lambda>_. ()) w of
        (Inl e, w0) \<Rightarrow> (Inl e, w0)
      | (Inr _, w0) \<Rightarrow>
     (case body w0 of
        (Inl e, w1) \<Rightarrow> (Inl e, rollback w0 w1)
      | (Inr a, w1) \<Rightarrow>
     (case db_query (\<lambda>_. ()) w1 of
        (Inl e, w2) \<Rightarrow> (Inl e, rollback w0 w2)
      | (Inr _, w2) \<Rightarrow> (Inr a, w2))))"

text \<open>One call of the Sia adapter; an exhausted script answers as an unreachable network does.\<close>

definition sia_op :: "sia_call \<Rightarrow> ('z, 'e, sia_reply) io" where
  "sia_op c w =
     (case sia_script w of
        [] \<Rightarrow> (Inr (SiaErr (Unavailable ''unreachable'')), w\<lparr>sia_calls := sia_calls w @ [c]\<rparr>)
      | r # rs \<Rightarrow> (Inr r, w\<lparr>sia_script := rs, sia_calls := sia_calls w @ [c]\<rparr>))"

section \<open>Tables\<close>

definition insert_row :: "'k \<Rightarrow> 'r \<Rightarrow> ('k \<times> 'r) list \<Rightarrow> ('k \<times> 'r) list" where
  "insert_row k r t = (if map_of t k = None then t @ [(k, r)] else t)"

definition update_row :: "'k \<Rightarrow> ('r \<Rightarrow> 'r) \<Rightarrow> ('k \<times> 'r) list \<Rightarrow> ('k \<times> 'r) list" where
  "update_row k f t = map (\<lambda>(k', r). if k' = k then (k', f r) else (k', r)) t"

definition update_rows :: "('k \<Rightarrow> 'r \<Rightarrow> bool) \<Rightarrow> ('r \<Rightarrow> 'r) \<Rightarrow> ('k \<times> 'r) list \<Rightarrow> ('k \<times> 'r) list" where
  "update_rows P f t = map (\<lambda>(k, r). if P k r then (k, f r) else (k, r)) t"

lemma map_of_insert_row:
  "map_of (insert_row k r t) k' = (if k' = k \<and> map_of t k = None then Some r else map_of t k')"
  by (auto simp: insert_row_def map_add_def split: option.splits)

lemma map_of_update_row: "map_of (update_row k f t) k' = (if k' = k then map_option f (map_of t k) else map_of t k')"
  by (induction t) (auto simp: update_row_def)

lemma map_of_update_rows:
  "map_of (update_rows P f t) k = map_option (\<lambda>r. if P k r then f r else r) (map_of t k)"
  by (induction t) (auto simp: update_rows_def)

lemma keys_insert_row: "fst ` set (insert_row k r t) = insert k (fst ` set t)"
  by (auto simp: insert_row_def map_of_eq_None_iff)

lemma keys_update_row [simp]: "map fst (update_row k f t) = map fst t"
  by (simp add: update_row_def comp_def split_beta if_distrib)

lemma keys_update_rows [simp]: "map fst (update_rows P f t) = map fst t"
  by (simp add: update_rows_def comp_def split_beta if_distrib)

lemma distinct_insert_row [simp]: "distinct (map fst (insert_row k r t)) = distinct (map fst t)"
  by (auto simp: insert_row_def map_of_eq_None_iff)

section \<open>Reasoning about handlers\<close>

named_theorems io_defs \<open>unfolding the combinators\<close>

lemmas [io_defs] = ret_def raise_def bindE_def attempt_def discard_def lift_res_def gets_def modify_def

text \<open>\<open>keeps P m\<close>: whatever \<open>m\<close> returns, it keeps \<open>P\<close>.\<close>

definition keeps :: "('z world_scheme \<Rightarrow> bool) \<Rightarrow> ('z, 'e, 'a) io \<Rightarrow> bool" where
  "keeps P m \<longleftrightarrow> (\<forall>w. P w \<longrightarrow> P (snd (m w)))"

named_theorems keeps_intro \<open>invariants of handlers\<close>

lemma keepsD: "keeps P m \<Longrightarrow> P w \<Longrightarrow> P (snd (m w))"
  by (simp add: keeps_def)

lemma keeps_ret [keeps_intro]: "keeps P (ret a)" "keeps P (raise e)" "keeps P (lift_res r)" "keeps P (gets f)"
  by (simp_all add: keeps_def io_defs)

lemma keeps_bind [keeps_intro]: "keeps P m \<Longrightarrow> (\<And>a. keeps P (f a)) \<Longrightarrow> keeps P (bindE m f)"
  unfolding keeps_def bindE_def by (metis (no_types, lifting) case_prod_beta snd_conv sum.case_eq_if)

lemma keeps_attempt [keeps_intro]: "keeps P m \<Longrightarrow> keeps P (attempt m)" "keeps P m \<Longrightarrow> keeps P (discard m)"
  by (simp_all add: keeps_def io_defs case_prod_beta)

lemma keeps_modify: "(\<And>w. P w \<Longrightarrow> P (f w)) \<Longrightarrow> keeps P (modify f)"
  by (simp add: keeps_def io_defs)

text \<open>A predicate of the tables does not look at the faults, the Sia script or the record of calls.\<close>

definition frame :: "('z world_scheme \<Rightarrow> bool) \<Rightarrow> bool" where
  "frame P \<longleftrightarrow> (\<forall>w f s c. P (w\<lparr>faults := f\<rparr>) = P w \<and> P (w\<lparr>sia_script := s\<rparr>) = P w
     \<and> P (w\<lparr>sia_calls := c\<rparr>) = P w)"

lemma frameD: "frame P \<Longrightarrow> P (w\<lparr>faults := f\<rparr>) = P w"
  "frame P \<Longrightarrow> P (w\<lparr>sia_script := s\<rparr>) = P w" "frame P \<Longrightarrow> P (w\<lparr>sia_calls := c\<rparr>) = P w"
  by (simp_all add: frame_def)

lemma keeps_io_step:
  assumes "frame P" and "\<And>w. P w \<Longrightarrow> P (snd (f w))"
  shows "keeps P (io_step e f)"
  using assms by (auto simp: keeps_def io_step_def frameD case_prod_beta split: list.splits)

lemma keeps_db_query [keeps_intro]: "frame P \<Longrightarrow> keeps P (db_query f)"
  unfolding db_query_def by (rule keeps_io_step) simp_all

lemma keeps_db_update: "frame P \<Longrightarrow> (\<And>w. P w \<Longrightarrow> P (f w)) \<Longrightarrow> keeps P (db_update f)"
  unfolding db_update_def by (rule keeps_io_step) simp_all

lemma keeps_db_exec: "frame P \<Longrightarrow> (\<And>w. P w \<Longrightarrow> P (snd (f w))) \<Longrightarrow> keeps P (db_exec f)"
  unfolding db_exec_def by (rule keeps_io_step)

lemma keeps_sia_op [keeps_intro]: "frame P \<Longrightarrow> keeps P (sia_op c)"
  by (auto simp: keeps_def sia_op_def frameD split: list.splits)

lemma keeps_transaction [keeps_intro]:
  assumes "frame P" and "keeps P body"
  shows "keeps P (transaction body)"
proof -
  have q: "P (snd (db_query (\<lambda>_. ()) w))" if "P w" for w
    using keeps_db_query [OF assms(1)] that by (rule keepsD)
  have b: "P (snd (body w))" if "P w" for w
    using assms(2) that by (rule keepsD)
  show ?thesis
    unfolding keeps_def
  proof (intro allI impI)
    fix w :: "'a world_scheme" assume "P w"
    with q have w0: "P (snd (db_query (\<lambda>_. ()) w))" by blast
    then have w1: "P (snd (body (snd (db_query (\<lambda>_. ()) w))))" by (rule b)
    then have "P (snd (db_query (\<lambda>_. ()) (snd (body (snd (db_query (\<lambda>_. ()) w))))))" by (rule q)
    with w0 w1 show "P (snd (transaction body w))"
      unfolding transaction_def rollback_def
      by (auto simp: frameD [OF assms(1)] split: prod.split sum.split)
  qed
qed

lemma bind_snd:
  assumes "\<And>e w'. m w = (Inl e, w') \<Longrightarrow> P w'" and "\<And>a w'. m w = (Inr a, w') \<Longrightarrow> P (snd (f a w'))"
  shows "P (snd (bindE m f w))"
  using assms by (auto simp: bindE_def split: prod.split sum.split)

lemma world_faults_self: "faults w = fs \<Longrightarrow> w\<lparr>faults := fs\<rparr> = (w :: 'z world_scheme)"
  by (cases w) simp

lemma io_step_cases:
  obtains (fault) fs where "io_step e f w = (Inl e, w\<lparr>faults := fs\<rparr>)"
  | (ran) fs where "io_step e f w = (Inr (fst (f (w\<lparr>faults := fs\<rparr>))), snd (f (w\<lparr>faults := fs\<rparr>)))"
proof (cases "faults w")
  case Nil
  then have "w\<lparr>faults := []\<rparr> = w" by (rule world_faults_self)
  then have "io_step e f w = (Inr (fst (f (w\<lparr>faults := []\<rparr>))), snd (f (w\<lparr>faults := []\<rparr>)))"
    using Nil by (simp only: io_step_def case_prod_beta list.case)
  then show ?thesis by (rule ran)
next
  case (Cons b bs)
  then show ?thesis
    by (cases b) (auto simp: io_step_def case_prod_beta intro: that)
qed

lemma io_step_no_fault: "faults w = [] \<Longrightarrow> io_step e f w = (Inr (fst (f w)), snd (f w))"
  by (simp add: io_step_def case_prod_beta)

lemma bind_keeps_snd: "P (snd (m w)) \<Longrightarrow> (\<And>a. keeps P (f a)) \<Longrightarrow> P (snd (bindE m f w))"
  by (rule bind_snd) (auto simp: keeps_def)

lemma bind_run: "m w = (Inr a, w') \<Longrightarrow> bindE m f w = f a w'" "m w = (Inl e, w') \<Longrightarrow> bindE m f w = (Inl e, w')"
  by (simp_all add: bindE_def)

end
