(* ===== verification/Ordered_Map.thy ===== *)
theory Ordered_Map
  imports CAS_Prelude
begin

text \<open>
  The \<^verbatim>\<open>BTreeMap\<close> of the Rust standard library as the sources use it: a map iterated in key
  order, filled through \<^verbatim>\<open>entry(k).or_default().push(v)\<close> and \<^verbatim>\<open>insert(k, v)\<close>. The interface is a
  locale; grouping a list by a key is proved once from it and used by the coalescing and the
  reconstruction components.
\<close>

section \<open>The interface\<close>

locale entry_map =
  fixes empty :: "'m"
    and upsert :: "'k \<Rightarrow> ('v option \<Rightarrow> 'v) \<Rightarrow> 'm \<Rightarrow> 'm"
    and lookup :: "'m \<Rightarrow> 'k \<Rightarrow> 'v option"
    and invar :: "'m \<Rightarrow> bool"
  assumes invar_empty: "invar empty"
    and lookup_empty: "lookup empty k = None"
    and invar_upsert: "invar m \<Longrightarrow> invar (upsert k f m)"
    and lookup_upsert: "invar m \<Longrightarrow>
      lookup (upsert k f m) k' = (if k' = k then Some (f (lookup m k)) else lookup m k')"
begin

lemma invar_fold: "invar m \<Longrightarrow> invar (fold (\<lambda>x. upsert (key x) (g x)) xs m)"
  by (induction xs arbitrary: m) (auto intro: invar_upsert)

lemma lookup_fold_notin:
  "invar m \<Longrightarrow> (\<forall>x\<in>set xs. key x \<noteq> k) \<Longrightarrow>
     lookup (fold (\<lambda>x. upsert (key x) (g x)) xs m) k = lookup m k"
  by (induction xs arbitrary: m) (auto simp: lookup_upsert invar_upsert)

lemma lookup_fold_insert:
  "invar m \<Longrightarrow> distinct (map key xs) \<Longrightarrow>
     lookup (fold (\<lambda>x. upsert (key x) (\<lambda>_. val x)) xs m) k =
       (case map_of (map (\<lambda>x. (key x, val x)) xs) k of None \<Rightarrow> lookup m k | Some v \<Rightarrow> Some v)"
proof (induction xs arbitrary: m)
  case (Cons x xs)
  from Cons.prems have "map_of (map (\<lambda>x. (key x, val x)) xs) (key x) = None"
    by (auto simp: map_of_eq_None_iff)
  with Cons show ?case
    by (auto simp: lookup_upsert invar_upsert split: option.splits)
qed simp

end

text \<open>Filling a map of vectors by \<^verbatim>\<open>entry(key).or_default().push(value)\<close>.\<close>

definition push_entry :: "'v \<Rightarrow> 'v list option \<Rightarrow> 'v list" where
  "push_entry v old = (case old of None \<Rightarrow> [v] | Some vs \<Rightarrow> vs @ [v])"

locale vec_map = entry_map empty upsert lookup invar
  for empty :: "'m" and upsert :: "'k \<Rightarrow> ('v list option \<Rightarrow> 'v list) \<Rightarrow> 'm \<Rightarrow> 'm"
    and lookup :: "'m \<Rightarrow> 'k \<Rightarrow> 'v list option" and invar :: "'m \<Rightarrow> bool"
begin

lemma lookup_push_fold:
  "invar m \<Longrightarrow>
     lookup (fold (\<lambda>x. upsert (key x) (push_entry (val x))) xs m) k =
       (let vs = map val (filter (\<lambda>x. key x = k) xs)
        in case lookup m k of None \<Rightarrow> if vs = [] then None else Some vs | Some us \<Rightarrow> Some (us @ vs))"
proof (induction xs arbitrary: m)
  case (Cons x xs)
  then show ?case
    by (auto simp: lookup_upsert invar_upsert push_entry_def Let_def split: option.splits)
qed (auto split: option.splits)

lemma lookup_group:
  "lookup (fold (\<lambda>x. upsert (key x) (push_entry (val x))) xs empty) k =
     (let vs = map val (filter (\<lambda>x. key x = k) xs) in if vs = [] then None else Some vs)"
  by (simp add: lookup_push_fold invar_empty lookup_empty Let_def)

end

section \<open>The ordered association list\<close>

fun bt_upsert :: "'k::linorder \<Rightarrow> ('v option \<Rightarrow> 'v) \<Rightarrow> ('k \<times> 'v) list \<Rightarrow> ('k \<times> 'v) list" where
  "bt_upsert k f [] = [(k, f None)]"
| "bt_upsert k f ((k', v) # m) =
     (if k < k' then (k, f None) # (k', v) # m
      else if k = k' then (k, f (Some v)) # m
      else (k', v) # bt_upsert k f m)"

abbreviation bt_insert :: "'k::linorder \<Rightarrow> 'v \<Rightarrow> ('k \<times> 'v) list \<Rightarrow> ('k \<times> 'v) list" where
  "bt_insert k v \<equiv> bt_upsert k (\<lambda>_. v)"

definition bt_invar :: "('k::linorder \<times> 'v) list \<Rightarrow> bool" where
  "bt_invar m \<longleftrightarrow> sorted_wrt (<) (map fst m)"

lemma keys_bt_upsert: "fst ` set (bt_upsert k f m) = insert k (fst ` set m)"
  by (induction k f m rule: bt_upsert.induct) auto

lemma bt_invar_upsert: "bt_invar m \<Longrightarrow> bt_invar (bt_upsert k f m)"
  unfolding bt_invar_def
proof (induction k f m rule: bt_upsert.induct)
  case (2 k f k' v m)
  then show ?case
    using keys_bt_upsert [of k f m] by (auto simp: image_iff)
qed simp

lemma map_of_bt_upsert:
  "bt_invar m \<Longrightarrow> map_of (bt_upsert k f m) k' = (if k' = k then Some (f (map_of m k)) else map_of m k')"
  unfolding bt_invar_def
proof (induction k f m rule: bt_upsert.induct)
  case (2 k f k'' v m)
  have "k < k'' \<Longrightarrow> map_of m k = None"
    using 2(2) by (force simp: map_of_eq_None_iff)
  with 2 show ?case by auto
qed simp

lemma bt_invar_distinct: "bt_invar m \<Longrightarrow> distinct (map fst m)"
  by (simp add: bt_invar_def strict_sorted_iff)

interpretation bt: entry_map "[]" bt_upsert map_of bt_invar
  by unfold_locales (simp_all add: bt_invar_upsert map_of_bt_upsert, simp add: bt_invar_def)

interpretation btv: vec_map "[]" bt_upsert map_of bt_invar
  by unfold_locales

lemma map_of_Some_iff_in: "bt_invar m \<Longrightarrow> map_of m k = Some v \<longleftrightarrow> (k, v) \<in> set m"
  by (simp add: bt_invar_distinct)

lemma map_of_map_snd: "map_of (map (\<lambda>(k, v). (k, f v)) m) k = map_option f (map_of m k)"
  by (induction m) auto

lemma bt_invar_map_snd: "bt_invar (map (\<lambda>(k, v). (k, f v)) m) = bt_invar m"
  by (simp add: bt_invar_def comp_def split_beta)

end
