(* ===== verification/Coalesce.thy ===== *)
theory Coalesce
  imports Ordered_Map
begin

text \<open>
  \<^verbatim>\<open>cas/crates/openweights-cas-core/src/coalesce.rs\<close>: the end-exclusive byte spans of the terms of
  a file are grouped by xorb, sorted, merged and turned into end-inclusive HTTP ranges. Offsets
  are 64 bit words, so the one \<^verbatim>\<open>e - 1\<close> of the code base is the wrapping subtraction of a release
  build; the \<^verbatim>\<open>debug_assert\<close>s are the predicate \<open>span_ok\<close>.
\<close>

section \<open>Data and operations\<close>

record Term =
  t_xorb_hash :: hash
  t_xorb_start :: int
  t_xorb_end :: int
  t_xorb_byte_start :: int
  t_xorb_byte_end :: int
  t_unpacked_start :: int
  t_unpacked_end :: int

record ByteRange =
  br_start :: u64
  br_end_inclusive :: u64

type_synonym span = "u64 \<times> u64"

definition term_span :: "Term \<Rightarrow> span" where
  "term_span t = (as_u64 (t_xorb_byte_start t), as_u64 (t_xorb_byte_end t))"

definition group_spans :: "Term list \<Rightarrow> (hash \<times> span list) list" where
  "group_spans terms = fold (\<lambda>t. bt_upsert (t_xorb_hash t) (push_entry (term_span t))) terms []"

definition merge_span :: "('a::linorder \<times> 'a) list \<Rightarrow> 'a \<times> 'a \<Rightarrow> ('a \<times> 'a) list" where
  "merge_span merged se =
     (case se of (s, e) \<Rightarrow>
        if merged \<noteq> [] \<and> s \<le> snd (last merged)
        then butlast merged @ [(fst (last merged), max (snd (last merged)) e)]
        else merged @ [(s, e)])"

definition merge_spans :: "('a::linorder \<times> 'a) list \<Rightarrow> ('a \<times> 'a) list" where
  "merge_spans spans = foldl merge_span [] (sort_key fst spans)"

definition to_byte_range :: "span \<Rightarrow> ByteRange" where
  "to_byte_range se = (case se of (s, e) \<Rightarrow> \<lparr>br_start = s, br_end_inclusive = e - 1\<rparr>)"

definition coalesce_terms_by_xorb :: "Term list \<Rightarrow> (hash \<times> ByteRange list) list" where
  "coalesce_terms_by_xorb terms =
     map (\<lambda>(xorb, spans). (xorb, map to_byte_range (merge_spans spans))) (group_spans terms)"

text \<open>What the code asserts of a stored span: non-negative offsets, non-empty, and within \<^verbatim>\<open>i64\<close>.\<close>

definition span_ok :: "Term \<Rightarrow> bool" where
  "span_ok t \<longleftrightarrow> 0 \<le> t_xorb_byte_start t \<and> t_xorb_byte_start t < t_xorb_byte_end t
     \<and> t_xorb_byte_end t < 2 ^ 63"

text \<open>The bytes a list of half-open spans and a list of HTTP ranges stand for.\<close>

definition span_bytes :: "('a::linorder \<times> 'a) list \<Rightarrow> 'a set" where
  "span_bytes xs = (\<Union>(s, e)\<in>set xs. {s..<e})"

definition range_bytes :: "ByteRange list \<Rightarrow> u64 set" where
  "range_bytes rs = (\<Union>r\<in>set rs. {br_start r..br_end_inclusive r})"

definition term_bytes :: "hash \<Rightarrow> Term list \<Rightarrow> u64 set" where
  "term_bytes x terms = span_bytes (map term_span (filter (\<lambda>t. t_xorb_hash t = x) terms))"

section \<open>The merging pass\<close>

text \<open>The loop with its last element carried separately; the induction runs over this form.\<close>

fun merge_from :: "'a::linorder \<times> 'a \<Rightarrow> ('a \<times> 'a) list \<Rightarrow> ('a \<times> 'a) list" where
  "merge_from c [] = [c]"
| "merge_from (a, b) ((s, e) # xs) =
     (if s \<le> b then merge_from (a, max b e) xs else (a, b) # merge_from (s, e) xs)"

lemma foldl_merge_span: "foldl merge_span (pre @ [c]) xs = pre @ merge_from c xs"
proof (induction xs arbitrary: pre c)
  case (Cons x xs)
  obtain s e a b where [simp]: "x = (s, e)" "c = (a, b)" by fastforce
  show ?case
    using Cons.IH [of pre "(a, max b e)"] Cons.IH [of "pre @ [c]" "(s, e)"]
    by (simp add: merge_span_def)
qed simp

lemma merge_spans_Cons:
  "sort_key fst spans = c # xs \<Longrightarrow> merge_spans spans = merge_from c xs"
  using foldl_merge_span [of "[]" c xs] by (simp add: merge_spans_def merge_span_def split_beta)

lemma merge_spans_Nil_iff: "merge_spans spans = [] \<longleftrightarrow> spans = []"
proof (cases "sort_key fst spans")
  case Nil
  then show ?thesis by (metis foldl_Nil length_0_conv length_sort merge_spans_def)
next
  case (Cons c xs)
  have "merge_from c ys \<noteq> []" for c :: "'a \<times> 'a" and ys
    by (induction c ys rule: merge_from.induct) auto
  with Cons show ?thesis by (metis length_0_conv length_sort list.distinct(1) merge_spans_Cons)
qed

lemma merge_from_bytes:
  "sorted (map fst ((a, b) # xs)) \<Longrightarrow> a < b \<Longrightarrow> (\<forall>(s, e)\<in>set xs. s < e) \<Longrightarrow>
     span_bytes (merge_from (a, b) xs) = span_bytes ((a, b) # xs)"
proof (induction "(a, b)" xs arbitrary: a b rule: merge_from.induct)
  case (2 a b s e xs)
  show ?case
  proof (cases "s \<le> b")
    case True
    have "span_bytes (merge_from (a, max b e) xs) = span_bytes ((a, max b e) # xs)"
      using 2 True by (intro "2.hyps"(1)) (auto simp: less_max_iff_disj)
    moreover have "{a..<max b e} = {a..<b} \<union> {s..<e}"
      using 2 True by (auto simp: less_max_iff_disj)
    ultimately show ?thesis using True by (auto simp: span_bytes_def)
  next
    case False
    have "span_bytes (merge_from (s, e) xs) = span_bytes ((s, e) # xs)"
      using 2 False by (intro "2.hyps"(2)) auto
    with False show ?thesis by (auto simp: span_bytes_def)
  qed
qed (auto simp: span_bytes_def)

text \<open>The result is separated: between two neighbours there is a byte in neither.\<close>

definition separated :: "('a::linorder \<times> 'a) list \<Rightarrow> bool" where
  "separated xs \<longleftrightarrow> sorted_wrt (\<lambda>x y. snd x < fst y) xs \<and> (\<forall>(s, e)\<in>set xs. s < e)"

lemma merge_from_starts: "y \<in> set (merge_from c xs) \<Longrightarrow> fst y \<in> insert (fst c) (fst ` set xs)"
  by (induction c xs arbitrary: y rule: merge_from.induct) (fastforce split: if_splits)+

lemma merge_from_separated:
  "sorted (map fst ((a, b) # xs)) \<Longrightarrow> a < b \<Longrightarrow> (\<forall>(s, e)\<in>set xs. s < e) \<Longrightarrow>
     separated (merge_from (a, b) xs)"
proof (induction "(a, b)" xs arbitrary: a b rule: merge_from.induct)
  case (2 a b s e xs)
  show ?case
  proof (cases "s \<le> b")
    case True
    then show ?thesis
      using 2 by (auto simp: less_max_iff_disj intro!: "2.hyps"(1))
  next
    case False
    have sep: "separated (merge_from (s, e) xs)"
      using 2 False by (intro "2.hyps"(2)) auto
    have "b < fst y" if "y \<in> set (merge_from (s, e) xs)" for y
      using merge_from_starts [OF that] False 2 by force
    with False sep 2 show ?thesis by (simp add: separated_def)
  qed
qed (auto simp: separated_def)

lemma sort_key_fst_props:
  "sorted (map fst (sort_key fst xs))" "set (sort_key fst xs) = set xs"
  by simp_all

lemma span_bytes_set: "set xs = set ys \<Longrightarrow> span_bytes xs = span_bytes ys"
  by (simp add: span_bytes_def)

lemma merge_spans_bytes:
  assumes "\<forall>(s, e)\<in>set spans. s < e"
  shows "span_bytes (merge_spans spans) = span_bytes spans" and "separated (merge_spans spans)"
proof -
  have "span_bytes (merge_spans spans) = span_bytes spans \<and> separated (merge_spans spans)"
  proof (cases "sort_key fst spans")
    case Nil
    then have "spans = []" by (metis length_0_conv length_sort)
    then show ?thesis by (simp add: merge_spans_def separated_def)
  next
    case (Cons c xs)
    obtain a b where c: "c = (a, b)" by fastforce
    have s: "sorted (map fst ((a, b) # xs))"
      using sort_key_fst_props(1) [of spans] Cons c by (metis)
    have set_eq: "set (c # xs) = set spans"
      using sort_key_fst_props(2) [of spans] Cons by metis
    have "a < b" and "\<forall>(s, e)\<in>set xs. s < e"
      using assms c unfolding set_eq [symmetric] by auto
    then show ?thesis
      using merge_from_bytes [OF s] merge_from_separated [OF s] span_bytes_set [OF set_eq]
      by (simp add: merge_spans_Cons [OF Cons] c)
  qed
  then show "span_bytes (merge_spans spans) = span_bytes spans" "separated (merge_spans spans)"
    by simp_all
qed


text \<open>No input span is split: each lies inside one span of the result.\<close>

lemma merge_from_contains:
  "sorted (map fst ((a, b) # xs)) \<Longrightarrow> y \<in> set ((a, b) # xs) \<Longrightarrow>
     \<exists>z\<in>set (merge_from (a, b) xs). fst z \<le> fst y \<and> snd y \<le> snd z"
proof (induction "(a, b)" xs arbitrary: a b y rule: merge_from.induct)
  case (2 a b s e xs)
  show ?case
  proof (cases "s \<le> b")
    case True
    have IH: "\<exists>z\<in>set (merge_from (a, max b e) xs). fst z \<le> fst y' \<and> snd y' \<le> snd z"
      if "y' \<in> set ((a, max b e) # xs)" for y'
      using 2 True that by (intro "2.hyps"(1)) auto
    have "a \<le> s" using 2 by simp
    consider "y \<in> set xs" | "y = (a, b)" | "y = (s, e)" using 2 by auto
    then show ?thesis
    proof cases
      case 1
      then show ?thesis using IH [of y] True by simp
    qed (use IH [of "(a, max b e)"] True \<open>a \<le> s\<close> in \<open>force simp: le_max_iff_disj\<close>)+
  next
    case False
    then show ?thesis using 2 by force
  qed
qed auto

lemma merge_spans_contains:
  assumes "y \<in> set spans"
  shows "\<exists>z\<in>set (merge_spans spans). fst z \<le> fst y \<and> snd y \<le> snd z"
proof -
  have "set (sort_key fst spans) = set spans" by simp
  with assms obtain c xs where c: "sort_key fst spans = c # xs" by (cases "sort_key fst spans") auto
  obtain a b where ab: "c = (a, b)" by fastforce
  have "sorted (map fst ((a, b) # xs))" "y \<in> set ((a, b) # xs)"
    using sort_key_fst_props [of spans] assms by (simp_all add: c ab [symmetric] del: set_sort)
  from merge_from_contains [OF this] show ?thesis by (simp add: merge_spans_Cons [OF c] ab)
qed

text \<open>A separated list is the shortest list of ranges for its bytes.\<close>

lemma separated_pairwise:
  "separated xs \<Longrightarrow> x \<in> set xs \<Longrightarrow> y \<in> set xs \<Longrightarrow> x = y \<or> snd x < fst y \<or> snd y < fst x"
proof -
  have "sorted_wrt (\<lambda>x y. snd x < fst y) xs \<Longrightarrow> x \<in> set xs \<Longrightarrow> y \<in> set xs \<Longrightarrow>
      x = y \<or> snd x < fst y \<or> snd y < fst x"
    by (induction xs) auto
  then show "separated xs \<Longrightarrow> x \<in> set xs \<Longrightarrow> y \<in> set xs \<Longrightarrow> x = y \<or> snd x < fst y \<or> snd y < fst x"
    by (simp add: separated_def)
qed

lemma separated_distinct: "separated xs \<Longrightarrow> distinct xs"
proof -
  have "sorted_wrt (\<lambda>x y. snd x < fst y) xs \<Longrightarrow> \<forall>(s, e)\<in>set xs. s < e \<Longrightarrow> distinct xs"
    by (induction xs) force+
  then show "separated xs \<Longrightarrow> distinct xs" by (simp add: separated_def)
qed

lemma separated_gap:
  assumes "separated xs" and "x \<in> set xs"
  shows "snd x \<notin> span_bytes xs"
proof
  assume "snd x \<in> span_bytes xs"
  then obtain z where z: "z \<in> set xs" "fst z \<le> snd x" "snd x < snd z"
    by (auto simp: span_bytes_def)
  moreover have "fst x < snd x" using assms by (auto simp: separated_def split_beta)
  ultimately show False
    using separated_pairwise [OF assms(1) \<open>z \<in> set xs\<close> assms(2)] by auto
qed

lemma separated_minimal:
  fixes xs :: "('a::linorder \<times> 'a) list" and rs :: "('a \<times> 'a) list"
  assumes sep: "separated xs" and eq: "(\<Union>(l, u)\<in>set rs. {l..u}) = span_bytes xs"
  shows "length xs \<le> length rs"
proof -
  have "\<exists>r. r \<in> set rs \<and> fst x \<in> {fst r..snd r}" if "x \<in> set xs" for x
  proof -
    have "fst x \<in> span_bytes xs"
      using that sep by (force simp: span_bytes_def separated_def)
    then show ?thesis unfolding eq [symmetric] by force
  qed
  then obtain f where f: "\<And>x. x \<in> set xs \<Longrightarrow> f x \<in> set rs \<and> fst x \<in> {fst (f x)..snd (f x)}"
    by metis
  have lt: False if "x \<in> set xs" "y \<in> set xs" "f x = f y" "snd x < fst y" for x y
  proof -
    have "fst x < snd x" using sep that(1) by (auto simp: separated_def split_beta)
    then have "snd x \<in> {fst (f x)..snd (f x)}"
      using f [OF that(1)] f [OF that(2)] that(3,4) by auto
    then have "snd x \<in> span_bytes xs"
      using f [OF that(1)] unfolding eq [symmetric] by (auto simp: split_beta intro!: bexI [of _ "f x"])
    with separated_gap [OF sep that(1)] show False by blast
  qed
  have "inj_on f (set xs)"
    by (rule inj_onI) (metis lt separated_pairwise [OF sep])
  then have "card (set xs) \<le> card (set rs)"
    using f by (intro card_inj_on_le [where f = f]) auto
  then show ?thesis
    using distinct_card [OF separated_distinct [OF sep]] card_length [of rs] by linarith
qed

text \<open>Rust's \<^verbatim>\<open>sort_unstable_by_key\<close> fixes no order among equal starts; the merge does not depend
  on it.\<close>

lemma separated_char:
  assumes sep: "separated xs"
  shows "x \<in> set xs \<longleftrightarrow> fst x < snd x \<and> {fst x..<snd x} \<subseteq> span_bytes xs \<and> snd x \<notin> span_bytes xs
    \<and> (\<forall>p<fst x. \<exists>q. p \<le> q \<and> q < fst x \<and> q \<notin> span_bytes xs)" (is "_ \<longleftrightarrow> ?R x")
proof
  assume x: "x \<in> set xs"
  have "\<exists>q. p \<le> q \<and> q < fst x \<and> q \<notin> span_bytes xs" if "p < fst x" for p
  proof (cases "p \<in> span_bytes xs")
    case True
    then obtain z where z: "z \<in> set xs" "fst z \<le> p" "p < snd z" by (auto simp: span_bytes_def)
    then have "snd z < fst x"
      using separated_pairwise [OF sep z(1) x] that x sep by (force simp: separated_def)
    with z show ?thesis using separated_gap [OF sep z(1)] by (intro exI [of _ "snd z"]) auto
  qed (use that in auto)
  moreover have "fst x < snd x" "{fst x..<snd x} \<subseteq> span_bytes xs"
    using x sep by (force simp: separated_def span_bytes_def)+
  ultimately show "?R x" using separated_gap [OF sep x] by blast
next
  assume R: "?R x"
  then have "fst x \<in> span_bytes xs" by auto
  then obtain z where z: "z \<in> set xs" "fst z \<le> fst x" "fst x < snd z" by (auto simp: span_bytes_def)
  have in_z: "q \<in> span_bytes xs" if "fst z \<le> q" "q < snd z" for q
    using that z(1) by (force simp: span_bytes_def)
  have "fst z = fst x"
    using R z in_z by (metis dual_order.strict_trans order.not_eq_order_implies_strict)
  moreover have "snd z = snd x"
  proof (rule linorder_cases [of "snd z" "snd x"])
    assume "snd z < snd x"
    with z R have "snd z \<in> span_bytes xs" by auto
    with separated_gap [OF sep z(1)] show ?thesis by blast
  next
    assume *: "snd x < snd z"
    have "fst z \<le> snd x" using z R by auto
    from in_z [OF this *] R show ?thesis by blast
  qed
  ultimately show "x \<in> set xs" using z(1) by (metis prod.collapse)
qed

lemma separated_eqI:
  "separated xs \<Longrightarrow> separated ys \<Longrightarrow> set xs = set ys \<Longrightarrow> xs = ys"
proof (induction xs arbitrary: ys)
  case (Cons x xs)
  then obtain y ys' where ys: "ys = y # ys'" by (cases ys) auto
  have "x = y"
  proof (rule ccontr)
    assume "x \<noteq> y"
    then have "x \<in> set ys'" "y \<in> set xs" using Cons.prems ys by auto
    then have "snd x < fst y" "snd y < fst x" "fst x < snd x" "fst y < snd y"
      using Cons.prems ys by (auto simp: separated_def)
    then show False by auto
  qed
  moreover have "set xs = set ys'"
    using Cons.prems separated_distinct [OF Cons.prems(1)] separated_distinct [OF Cons.prems(2)] ys
      \<open>x = y\<close> by auto
  ultimately show ?case
    using Cons.IH [of ys'] Cons.prems ys by (simp add: separated_def)
qed simp

lemma separated_canonical:
  "separated xs \<Longrightarrow> separated ys \<Longrightarrow> span_bytes xs = span_bytes ys \<Longrightarrow> xs = ys"
  by (rule separated_eqI) (auto simp: separated_char)

lemma foldl_merge_span_props:
  assumes "sorted (map fst ys)" and "\<forall>(s, e)\<in>set ys. s < e"
  shows "span_bytes (foldl merge_span [] ys) = span_bytes ys \<and> separated (foldl merge_span [] ys)"
proof -
  have "sort_key fst ys = ys"
    using assms(1) by (rule sort_key_id_if_sorted)
  then show ?thesis using merge_spans_bytes [OF assms(2)] by (simp add: merge_spans_def)
qed

section \<open>The groups\<close>

lemma group_spans_lookup:
  "map_of (group_spans terms) x =
     (let vs = map term_span (filter (\<lambda>t. t_xorb_hash t = x) terms) in if vs = [] then None else Some vs)"
  unfolding group_spans_def by (rule btv.lookup_group)

lemma bt_invar_group_spans: "bt_invar (group_spans terms)"
  unfolding group_spans_def by (rule bt.invar_fold) (rule bt.invar_empty)

lemma coalesce_lookup:
  "map_of (coalesce_terms_by_xorb terms) x =
     (let vs = map term_span (filter (\<lambda>t. t_xorb_hash t = x) terms)
      in if vs = [] then None else Some (map to_byte_range (merge_spans vs)))"
  by (simp add: coalesce_terms_by_xorb_def map_of_map_snd group_spans_lookup Let_def)

lemma bt_invar_coalesce: "bt_invar (coalesce_terms_by_xorb terms)"
  by (simp add: coalesce_terms_by_xorb_def bt_invar_map_snd bt_invar_group_spans)

lemma coalesce_memberD:
  assumes "(x, rs) \<in> set (coalesce_terms_by_xorb terms)"
  shows "rs = map to_byte_range (merge_spans (map term_span (filter (\<lambda>t. t_xorb_hash t = x) terms)))"
    and "\<exists>t\<in>set terms. t_xorb_hash t = x"
proof -
  have "map_of (coalesce_terms_by_xorb terms) x = Some rs"
    using assms bt_invar_coalesce by (simp add: map_of_Some_iff_in)
  then show "rs = map to_byte_range (merge_spans (map term_span (filter (\<lambda>t. t_xorb_hash t = x) terms)))"
    and "\<exists>t\<in>set terms. t_xorb_hash t = x"
    by (auto simp: coalesce_lookup Let_def filter_empty_conv split: if_splits)
qed

lemma span_ok_term_span: "span_ok t \<Longrightarrow> fst (term_span t) < snd (term_span t)"
  by (simp add: span_ok_def term_span_def word_less_def uint_as_u64)

lemma inclusive_atLeastLessThan: "(s::u64) < e \<Longrightarrow> {s..e - 1} = {s..<e}"
proof -
  assume "s < e"
  then have e: "e \<noteq> 0" by auto
  have "x \<le> e - 1 \<longleftrightarrow> x < e" for x
    unfolding word_le_nat_alt word_less_nat_alt unat_minus_one [OF e]
    using e unat_gt_0 [of e] by linarith
  then show ?thesis
    by (simp only: atLeastAtMost_def atLeastLessThan_def atMost_def lessThan_def)
qed

lemma inclusive_end: "(s::u64) < e \<Longrightarrow> s \<le> e - 1 \<and> e - 1 \<noteq> - 1"
proof -
  assume l: "s < e"
  then have "s \<in> {s..e - 1}" unfolding inclusive_atLeastLessThan [OF l] by simp
  moreover have "e \<noteq> 0" using l by auto
  ultimately show ?thesis by simp
qed

lemma range_bytes_of_spans:
  "\<forall>(s, e)\<in>set xs. s < e \<Longrightarrow> range_bytes (map to_byte_range xs) = span_bytes xs"
  by (force simp: range_bytes_def span_bytes_def to_byte_range_def inclusive_atLeastLessThan)

lemma term_spans_ok:
  "\<forall>t\<in>set terms. span_ok t \<Longrightarrow>
     \<forall>(s, e)\<in>set (map term_span (filter (\<lambda>t. t_xorb_hash t = x) terms)). s < e"
  by (auto dest!: span_ok_term_span)

lemma coalesced_bytes:
  assumes "\<forall>t\<in>set terms. span_ok t" and "(x, rs) \<in> set (coalesce_terms_by_xorb terms)"
  shows "range_bytes rs = term_bytes x terms"
  using merge_spans_bytes [OF term_spans_ok [OF assms(1), of x]] coalesce_memberD(1) [OF assms(2)]
  by (simp add: range_bytes_of_spans separated_def term_bytes_def)

section \<open>Properties\<close>

text \<open>C23: for terms whose stored spans are non-empty, the HTTP ranges of every xorb in the coalesced
  map are, read end-inclusively, exactly the bytes of the end-exclusive spans of the terms of that
  xorb: nothing a term needs is missing and nothing else is granted.\<close>

theorem coalesce_exact_bytes:
  assumes "\<forall>t\<in>set terms. span_ok t" and "(x, rs) \<in> set (coalesce_terms_by_xorb terms)"
  shows "range_bytes rs = term_bytes x terms"
  using assms by (rule coalesced_bytes)

text \<open>No shorter list of HTTP ranges grants exactly these bytes: the coalesced list of a xorb is
  minimal.\<close>

lemma coalesce_minimal:
  assumes "\<forall>t\<in>set terms. span_ok t" and "(x, rs) \<in> set (coalesce_terms_by_xorb terms)"
    and "range_bytes rs' = term_bytes x terms"
  shows "length rs \<le> length rs'"
proof -
  let ?spans = "map term_span (filter (\<lambda>t. t_xorb_hash t = x) terms)"
  note ok = term_spans_ok [OF assms(1), of x]
  have "(\<Union>(l, u)\<in>set (map (\<lambda>r. (br_start r, br_end_inclusive r)) rs'). {l..u}) = span_bytes (merge_spans ?spans)"
    using assms(3) by (simp add: merge_spans_bytes(1) [OF ok] term_bytes_def range_bytes_def)
  from separated_minimal [OF merge_spans_bytes(2) [OF ok] this] show ?thesis
    by (simp add: coalesce_memberD(1) [OF assms(2)])
qed

text \<open>The coalesced map has one entry per referenced xorb, in strictly ascending key order, and
  no entry is empty.\<close>

lemma coalesce_keys:
  "sorted_wrt (<) (map fst (coalesce_terms_by_xorb terms))
   \<and> set (map fst (coalesce_terms_by_xorb terms)) = t_xorb_hash ` set terms
   \<and> (\<forall>(x, rs) \<in> set (coalesce_terms_by_xorb terms). rs \<noteq> [])"
proof -
  have dom: "x \<in> set (map fst (coalesce_terms_by_xorb terms)) \<longleftrightarrow> map_of (coalesce_terms_by_xorb terms) x \<noteq> None"
    for x by (simp add: map_of_eq_None_iff)
  have "rs \<noteq> []" if "(x, rs) \<in> set (coalesce_terms_by_xorb terms)" for x rs
    using coalesce_memberD [OF that] by (auto simp: merge_spans_Nil_iff filter_empty_conv)
  moreover have "set (map fst (coalesce_terms_by_xorb terms)) = t_xorb_hash ` set terms"
    by (auto simp: dom coalesce_lookup Let_def filter_empty_conv split: if_splits
        simp del: set_map)
  ultimately show ?thesis using bt_invar_coalesce [of terms] by (auto simp: bt_invar_def)
qed

text \<open>\<^verbatim>\<open>sort_unstable_by_key\<close> leaves the order of spans with equal starts open. Whatever order it
  picks, the merge loop computes the same list, so the reply does not depend on it.\<close>

lemma merge_independent_of_unstable_sort:
  assumes "\<forall>(s, e)\<in>set spans. s < e" and "set sorted_spans = set spans"
    and "sorted (map fst sorted_spans)"
  shows "foldl merge_span [] sorted_spans = merge_spans spans"
proof (rule separated_canonical)
  have "\<forall>(s, e)\<in>set sorted_spans. s < e" using assms(1,2) by simp
  note p = foldl_merge_span_props [OF assms(3) this]
  show "separated (foldl merge_span [] sorted_spans)" using p by blast
  show "separated (merge_spans spans)" by (rule merge_spans_bytes(2) [OF assms(1)])
  show "span_bytes (foldl merge_span [] sorted_spans) = span_bytes (merge_spans spans)"
    using p span_bytes_set [OF assms(2)] merge_spans_bytes(1) [OF assms(1)] by simp
qed

text \<open>A term whose byte columns are \<open>0, 0\<close>, which the shard parser writes for a xorb the shard
  does not list, is outside the assertion. Alone in its xorb it wraps around: the reply grants the
  range from 0 to the largest 64 bit offset.\<close>

lemma coalesce_empty_span_wraps:
  assumes "t_xorb_byte_start t = 0" and "t_xorb_byte_end t = 0"
  shows "coalesce_terms_by_xorb [t] =
    [(t_xorb_hash t, [\<lparr>br_start = 0, br_end_inclusive = - 1\<rparr>])]"
  using assms
  by (simp add: coalesce_terms_by_xorb_def group_spans_def term_span_def merge_spans_def
      merge_span_def to_byte_range_def push_entry_def as_u64_def)

section \<open>Witnesses\<close>

definition example_term :: "hash \<Rightarrow> int \<Rightarrow> int \<Rightarrow> Term" where
  "example_term x bs be = \<lparr>t_xorb_hash = x, t_xorb_start = 0, t_xorb_end = 1, t_xorb_byte_start = bs,
     t_xorb_byte_end = be, t_unpacked_start = 0, t_unpacked_end = be - bs\<rparr>"

definition example_terms :: "Term list" where
  "example_terms = [example_term [7] 40 80, example_term [9] 5 6, example_term [7] 10 50]"

lemma example_terms_ok: "\<forall>t\<in>set example_terms. span_ok t"
  by (simp add: example_terms_def example_term_def span_ok_def)

lemma example_coalesced:
  "coalesce_terms_by_xorb example_terms =
     [([7], [\<lparr>br_start = 10, br_end_inclusive = 79\<rparr>]), ([9], [\<lparr>br_start = 5, br_end_inclusive = 5\<rparr>])]"
  by (simp add: example_terms_def example_term_def coalesce_terms_by_xorb_def group_spans_def
      term_span_def merge_spans_def merge_span_def to_byte_range_def push_entry_def as_u64_def)

lemma example_member: "([7], [\<lparr>br_start = 10, br_end_inclusive = 79\<rparr>]) \<in> set (coalesce_terms_by_xorb example_terms)"
  by (simp add: example_coalesced)

theorem coalesce_exact_bytes_witness:
  "range_bytes [\<lparr>br_start = 10, br_end_inclusive = 79\<rparr>] = term_bytes [7] example_terms"
  by (rule coalesce_exact_bytes [OF example_terms_ok example_member])

lemma example_split_ranges:
  "range_bytes [\<lparr>br_start = 10, br_end_inclusive = 30\<rparr>, \<lparr>br_start = 31, br_end_inclusive = 79\<rparr>]
     = term_bytes [7] example_terms"
proof -
  have "{10..30::u64} \<union> {31..79} = {10..79}"
    by (auto simp: word_le_nat_alt)
  then have "range_bytes [\<lparr>br_start = 10, br_end_inclusive = 30\<rparr>, \<lparr>br_start = 31, br_end_inclusive = 79\<rparr>]
      = range_bytes [\<lparr>br_start = 10, br_end_inclusive = 79\<rparr>]"
    by (simp add: range_bytes_def)
  also have "\<dots> = span_bytes (merge_spans (map term_span (filter (\<lambda>t. t_xorb_hash t = [7]) example_terms)))"
    by (simp add: coalesce_memberD(1) [OF example_member] range_bytes_of_spans
        merge_spans_bytes(2) [OF term_spans_ok [OF example_terms_ok], unfolded separated_def])
  also have "\<dots> = term_bytes [7] example_terms"
    by (simp add: term_bytes_def merge_spans_bytes(1) [OF term_spans_ok [OF example_terms_ok]])
  finally show ?thesis .
qed

lemma coalesce_minimal_witness:
  "length [\<lparr>br_start = (10::u64), br_end_inclusive = 79\<rparr>]
     \<le> length [\<lparr>br_start = (10::u64), br_end_inclusive = 30\<rparr>, \<lparr>br_start = 31, br_end_inclusive = 79\<rparr>]"
  by (rule coalesce_minimal [OF example_terms_ok example_member example_split_ranges])

lemma coalesce_empty_span_wraps_witness:
  "coalesce_terms_by_xorb [example_term [7] 0 0] = [([7], [\<lparr>br_start = 0, br_end_inclusive = - 1\<rparr>])]"
  using coalesce_empty_span_wraps [of "example_term [7] 0 0"] by (simp add: example_term_def)


end
