(* ===== verification/Queries.thy ===== *)
theory Queries
  imports CAS_World Coalesce "HOL-Library.Multiset"
begin

text \<open>
  The SQL of \<^verbatim>\<open>openweights-cas-db\<close>: the queries on \<^verbatim>\<open>xorbs\<close>, \<^verbatim>\<open>shards\<close>, \<^verbatim>\<open>usage_log\<close> and the
  reconstruction tables. Each statement is one round trip that may fail. \<^verbatim>\<open>NOW()\<close> is the clock.
\<close>

section \<open>xorbs\<close>

definition fresh_pin_row :: "int \<Rightarrow> int \<Rightarrow> uuid \<Rightarrow> int \<Rightarrow> pin_row" where
  "fresh_pin_row sz owner key now =
     \<lparr>sia_object_id = None, size_bytes = sz, owner_user_id = owner, owner_api_key_id = key,
      uploaded_at = now, pin_state = Pinning, pin_attempts = 0, last_pin_attempt_at = None\<rparr>"

definition fresh_xorb_row :: "int \<Rightarrow> int \<Rightarrow> uuid \<Rightarrow> int \<Rightarrow> int list \<Rightarrow> xorb_row" where
  "fresh_xorb_row sz owner key now bounds =
     pin_row.extend (fresh_pin_row sz owner key now)
       \<lparr>chunk_boundaries = (if bounds = [] then None else Some bounds)\<rparr>"

definition insert_pending :: "hash \<Rightarrow> int \<Rightarrow> int \<Rightarrow> uuid \<Rightarrow> int list \<Rightarrow> ('z, AppError, bool) io" where
  "insert_pending h sz owner key bounds =
     db_exec (\<lambda>w. (map_of (xorbs w) h = None,
       w\<lparr>xorbs := insert_row h (fresh_xorb_row sz owner key (clock w) bounds) (xorbs w)\<rparr>))"

definition get_chunk_boundaries :: "hash list \<Rightarrow> ('z, AppError, hash \<Rightarrow> int list option) io" where
  "get_chunk_boundaries hashes =
     (if hashes = [] then ret (\<lambda>_. None)
      else db_query (\<lambda>w h.
        if h \<in> set hashes \<and> length h = 32
        then case map_of (xorbs w) h of
               None \<Rightarrow> None
             | Some r \<Rightarrow> (case chunk_boundaries r of
                            None \<Rightarrow> None
                          | Some b \<Rightarrow> if b = [] then None else Some b)
        else None))"

definition coalesce_id :: "byte list option \<Rightarrow> byte list option \<Rightarrow> byte list option" where
  "coalesce_id a b = (case a of Some x \<Rightarrow> Some x | None \<Rightarrow> b)"

definition set_state_row ::
  "XorbPinState \<Rightarrow> byte list option \<Rightarrow> int \<Rightarrow> 'r pin_row_scheme \<Rightarrow> 'r pin_row_scheme" where
  "set_state_row st sid now r = r\<lparr>pin_state := st, sia_object_id := coalesce_id sid (sia_object_id r),
     pin_attempts := pin_attempts r + 1, last_pin_attempt_at := Some now\<rparr>"

definition xorbs_set_pin_state :: "hash \<Rightarrow> XorbPinState \<Rightarrow> byte list option \<Rightarrow> ('z, AppError, unit) io" where
  "xorbs_set_pin_state h st sid =
     db_update (\<lambda>w. w\<lparr>xorbs := update_row h (set_state_row st sid (clock w)) (xorbs w)\<rparr>)"

definition get_sia_object_id :: "hash \<Rightarrow> ('z, AppError, byte list option) io" where
  "get_sia_object_id h =
     db_query (\<lambda>w. case map_of (xorbs w) h of
        Some r \<Rightarrow> if pin_state r = Pinned then sia_object_id r else None
      | None \<Rightarrow> None)"

definition xorbs_exists_pinned :: "hash \<Rightarrow> ('z, AppError, bool) io" where
  "xorbs_exists_pinned h =
     db_query (\<lambda>w. case map_of (xorbs w) h of Some r \<Rightarrow> pin_state r = Pinned | None \<Rightarrow> False)"

section \<open>shards\<close>

text \<open>A constraint the statement itself can violate: the statement fails and changes nothing.\<close>

definition db_checked :: "('z world_scheme \<Rightarrow> bool) \<Rightarrow> ('z world_scheme \<Rightarrow> 'z world_scheme) \<Rightarrow> ('z, AppError, unit) io" where
  "db_checked ok f =
     bindE (db_exec (\<lambda>w. if ok w then (True, f w) else (False, w)))
       (\<lambda>b. if b then ret () else raise db_error)"

definition put_file :: "hash \<Rightarrow> ParsedFile \<Rightarrow> (hash \<times> rec_file) list \<Rightarrow> (hash \<times> rec_file) list" where
  "put_file shard_hash f t =
     (if map_of t (pf_file_id f) = None
      then t @ [(pf_file_id f, \<lparr>rf_shard_hash = shard_hash, rf_total_size = pf_total_size f, rf_sha256 = pf_sha256 f\<rparr>)]
      else update_row (pf_file_id f)
             (\<lambda>r. r\<lparr>rf_sha256 := (case pf_sha256 f of Some s \<Rightarrow> Some s | None \<Rightarrow> rf_sha256 r)\<rparr>) t)"

definition term_key :: "ParsedTerm \<Rightarrow> hash \<times> int" where
  "term_key t = (pt_file_id t, pt_term_index t)"

text \<open>Postgres refuses an upsert that would touch one row twice; a term must name a known file and a
  known xorb (foreign keys).\<close>

definition insert_files :: "hash \<Rightarrow> ParsedFile list \<Rightarrow> ('z, AppError, unit) io" where
  "insert_files shard_hash files =
     (if files = [] then ret ()
      else db_checked (\<lambda>_. distinct (map pf_file_id files))
        (\<lambda>w. w\<lparr>reconstruction_files := fold (put_file shard_hash) files (reconstruction_files w)\<rparr>))"

definition insert_terms :: "ParsedTerm list \<Rightarrow> ('z, AppError, unit) io" where
  "insert_terms terms =
     (if terms = [] then ret ()
      else db_checked
        (\<lambda>w. list_all (\<lambda>t. map_of (reconstruction_files w) (pt_file_id t) \<noteq> None
                 \<and> map_of (xorbs w) (pt_xorb_hash t) \<noteq> None) terms)
        (\<lambda>w. w\<lparr>reconstruction_terms := fold (\<lambda>t. insert_row (term_key t) t) terms (reconstruction_terms w)\<rparr>))"

definition insert_shard_with_reconstruction ::
  "hash \<Rightarrow> int \<Rightarrow> int \<Rightarrow> uuid \<Rightarrow> ParsedFile list \<Rightarrow> ParsedTerm list \<Rightarrow> ('z, AppError, bool) io" where
  "insert_shard_with_reconstruction h sz owner key files terms =
     bindE (db_exec (\<lambda>w. (map_of (shards w) h = None,
         w\<lparr>shards := insert_row h (fresh_pin_row sz owner key (clock w)) (shards w)\<rparr>)))
       (\<lambda>inserted. if \<not> inserted then ret False
         else bindE (insert_files h files) (\<lambda>_. bindE (insert_terms terms) (\<lambda>_. ret True)))"

definition shards_set_pin_state :: "hash \<Rightarrow> XorbPinState \<Rightarrow> byte list option \<Rightarrow> ('z, AppError, unit) io" where
  "shards_set_pin_state h st sid =
     db_update (\<lambda>w. w\<lparr>shards := update_row h (set_state_row st sid (clock w)) (shards w)\<rparr>)"

definition revive_row :: "'r pin_row_scheme \<Rightarrow> 'r pin_row_scheme" where
  "revive_row r = r\<lparr>pin_state := Pinning, pin_attempts := 0, last_pin_attempt_at := None\<rparr>"

definition revive_orphaned_xorbs :: "hash list \<Rightarrow> ('z, AppError, nat) io" where
  "revive_orphaned_xorbs hashes =
     (if hashes = [] then ret 0
      else db_exec (\<lambda>w.
        let hit = (\<lambda>h r. h \<in> set hashes \<and> pin_state r = Orphaned) in
        (length (filter (\<lambda>(h, r). hit h r) (xorbs w)), w\<lparr>xorbs := update_rows hit revive_row (xorbs w)\<rparr>)))"

definition shards_exists_pinned :: "hash \<Rightarrow> ('z, AppError, bool) io" where
  "shards_exists_pinned h =
     db_query (\<lambda>w. case map_of (shards w) h of Some r \<Rightarrow> pin_state r = Pinned | None \<Rightarrow> False)"

definition which_xorbs_are_pinned :: "hash list \<Rightarrow> ('z, AppError, hash list) io" where
  "which_xorbs_are_pinned hashes =
     (if hashes = [] then ret []
      else db_query (\<lambda>w. map fst (filter (\<lambda>(h, r). h \<in> set hashes
              \<and> map_of (xorb_bodies w) h \<noteq> None
              \<and> pin_state r \<in> {Pinning, Pinned, Orphaned} \<and> length h = 32) (xorbs w))))"

section \<open>Usage log and metering\<close>

definition usage_insert :: "(int \<Rightarrow> usage_row) \<Rightarrow> ('z, AppError, unit) io" where
  "usage_insert u = db_update (\<lambda>w. w\<lparr>usage_log := usage_log w @ [u (clock w)]\<rparr>)"

record AuthContext =
  ctx_api_key_id :: uuid
  ctx_user_id :: int
  ctx_scopes :: "ApiKeyScope list"

definition record_xorb_upload :: "AuthContext \<Rightarrow> hash \<Rightarrow> int \<Rightarrow> ('z, AppError, unit) io" where
  "record_xorb_upload ctx h bytes = usage_insert (\<lambda>now.
     \<lparr>u_event = XorbUpload, u_api_key_id = ctx_api_key_id ctx, u_user_id = ctx_user_id ctx,
      u_xorb_hash = Some h, u_shard_hash = None, u_file_id = None, u_bytes = Some bytes, u_occurred_at = now\<rparr>)"

definition record_shard_upload :: "AuthContext \<Rightarrow> hash \<Rightarrow> int \<Rightarrow> ('z, AppError, unit) io" where
  "record_shard_upload ctx h bytes = usage_insert (\<lambda>now.
     \<lparr>u_event = ShardUpload, u_api_key_id = ctx_api_key_id ctx, u_user_id = ctx_user_id ctx,
      u_xorb_hash = None, u_shard_hash = Some h, u_file_id = None, u_bytes = Some bytes, u_occurred_at = now\<rparr>)"

definition record_reconstruction :: "AuthContext \<Rightarrow> hash \<Rightarrow> ('z, AppError, unit) io" where
  "record_reconstruction ctx fid = usage_insert (\<lambda>now.
     \<lparr>u_event = Reconstruction, u_api_key_id = ctx_api_key_id ctx, u_user_id = ctx_user_id ctx,
      u_xorb_hash = None, u_shard_hash = None, u_file_id = Some fid, u_bytes = None, u_occurred_at = now\<rparr>)"

text \<open>\<^verbatim>\<open>log_on_err\<close>: the failure of a metering call is logged and dropped.\<close>

definition log_on_err :: "('z, AppError, unit) io \<Rightarrow> ('z, AppError, unit) io" where
  "log_on_err m = discard m"

section \<open>Reconstruction rows\<close>

record ReconstructionRow =
  row_file_id :: hash
  row_total_size :: int
  row_terms :: "Term list"

definition into_32 :: "byte list \<Rightarrow> hash" where
  "into_32 src = (let n = min (length src) 32 in take n src @ replicate (32 - n) 0)"

definition term_of_row :: "ParsedTerm \<Rightarrow> Term" where
  "term_of_row t =
     \<lparr>t_xorb_hash = into_32 (pt_xorb_hash t), t_xorb_start = pt_xorb_start t, t_xorb_end = pt_xorb_end t,
      t_xorb_byte_start = pt_xorb_byte_start t, t_xorb_byte_end = pt_xorb_byte_end t,
      t_unpacked_start = pt_unpacked_start t, t_unpacked_end = pt_unpacked_end t\<rparr>"

definition xorb_pinned :: "'z world_scheme \<Rightarrow> hash \<Rightarrow> bool" where
  "xorb_pinned w h = (case map_of (xorbs w) h of Some r \<Rightarrow> pin_state r = Pinned | None \<Rightarrow> False)"

text \<open>The rows of the join for one file, in term order; empty when the file is unknown.\<close>

definition joined_terms :: "'z world_scheme \<Rightarrow> hash \<Rightarrow> ParsedTerm list" where
  "joined_terms w fid =
     (if map_of (reconstruction_files w) fid = None then []
      else sort_key pt_term_index (filter (\<lambda>t. pt_file_id t = fid \<and> xorb_pinned w (pt_xorb_hash t))
             (map snd (reconstruction_terms w))))"

definition file_size :: "'z world_scheme \<Rightarrow> hash \<Rightarrow> int" where
  "file_size w fid = (case map_of (reconstruction_files w) fid of Some f \<Rightarrow> rf_total_size f | None \<Rightarrow> 0)"

definition get_reconstruction :: "hash \<Rightarrow> ('z, AppError, ReconstructionRow option) io" where
  "get_reconstruction fid =
     db_query (\<lambda>w. let rows = joined_terms w fid in
       if rows = [] then None
       else Some \<lparr>row_file_id = fid, row_total_size = file_size w fid, row_terms = map term_of_row rows\<rparr>)"

text \<open>The batch: one query ordered by file and term, bucketed through a map.\<close>

definition batch_rows :: "'z world_scheme \<Rightarrow> hash list \<Rightarrow> (hash \<times> int \<times> ParsedTerm) list" where
  "batch_rows w ids =
     concat (map (\<lambda>fid. map (\<lambda>t. (fid, file_size w fid, t)) (joined_terms w fid))
       (sorted_list_of_set (set ids)))"

definition bucket_row ::
  "hash \<times> int \<times> ParsedTerm \<Rightarrow> ReconstructionRow option \<Rightarrow> ReconstructionRow" where
  "bucket_row x old = (case x of (fid, sz, t) \<Rightarrow>
     let entry = (case old of
           None \<Rightarrow> \<lparr>row_file_id = into_32 fid, row_total_size = sz, row_terms = []\<rparr> | Some e \<Rightarrow> e)
     in entry\<lparr>row_terms := row_terms entry @ [term_of_row t]\<rparr>)"

definition get_reconstructions_batch :: "hash list \<Rightarrow> ('z, AppError, (hash \<times> ReconstructionRow) list) io" where
  "get_reconstructions_batch ids =
     (if ids = [] then ret []
      else db_query (\<lambda>w. fold (\<lambda>x. bt_upsert (into_32 (fst x)) (bucket_row x)) (batch_rows w ids) []))"

section \<open>Facts about the reconstruction queries\<close>

lemma sort_key_Nil_iff: "sort_key f xs = [] \<longleftrightarrow> xs = []"
  by (metis length_0_conv length_sort)

lemma into_32_id: "hash32 h \<Longrightarrow> into_32 h = h"
  by (simp add: into_32_def hash32_def)

lemma length_into_32: "length (into_32 h) = 32"
  by (simp add: into_32_def Let_def)

lemma db_query_Inr: "fst (db_query f w) = Inr a \<Longrightarrow> \<exists>fs. a = f (w\<lparr>faults := fs\<rparr>) \<and> snd (db_query f w) = w\<lparr>faults := fs\<rparr>"
  by (auto simp: db_query_def io_step_def split: list.splits if_splits) (metis world.unfold_congs(9) world.surjective world.update_convs(9))

lemma joined_terms_faults [simp]: "joined_terms (w\<lparr>faults := fs\<rparr>) fid = joined_terms w fid"
  by (simp add: joined_terms_def xorb_pinned_def)

lemma file_size_faults [simp]: "file_size (w\<lparr>faults := fs\<rparr>) fid = file_size w fid"
  by (simp add: file_size_def)

definition reconstruction_of :: "'z world_scheme \<Rightarrow> hash \<Rightarrow> ReconstructionRow option" where
  "reconstruction_of w fid =
     (let rows = joined_terms w fid in
      if rows = [] then None
      else Some \<lparr>row_file_id = fid, row_total_size = file_size w fid, row_terms = map term_of_row rows\<rparr>)"

lemma get_reconstruction_result: "fst (get_reconstruction fid w) = Inr r \<Longrightarrow> r = reconstruction_of w fid"
  unfolding get_reconstruction_def by (drule db_query_Inr) (auto simp: reconstruction_of_def Let_def)

lemma fold_bucket_same:
  assumes "hash32 fid" and "bt_invar m"
  shows "bt_invar (fold (\<lambda>x. bt_upsert (into_32 (fst x)) (bucket_row x)) (map (\<lambda>t. (fid, s, t)) ts) m)
    \<and> map_of (fold (\<lambda>x. bt_upsert (into_32 (fst x)) (bucket_row x)) (map (\<lambda>t. (fid, s, t)) ts) m) =
      (if ts = [] then map_of m
       else (map_of m)(fid \<mapsto>
         (let e = (case map_of m fid of None \<Rightarrow> \<lparr>row_file_id = fid, row_total_size = s, row_terms = []\<rparr> | Some e \<Rightarrow> e)
          in e\<lparr>row_terms := row_terms e @ map term_of_row ts\<rparr>)))"
  using assms(2)
proof (induction ts arbitrary: m)
  case (Cons t ts)
  have inv: "bt_invar (bt_upsert fid (bucket_row (fid, s, t)) m)"
    using Cons.prems by (rule bt_invar_upsert)
  have m': "map_of (bt_upsert fid (bucket_row (fid, s, t)) m) = (map_of m)(fid \<mapsto> bucket_row (fid, s, t) (map_of m fid))"
    using map_of_bt_upsert [OF Cons.prems] by auto
  have v: "bucket_row (fid, s, t) (map_of m fid) =
    (let e = (case map_of m fid of None \<Rightarrow> \<lparr>row_file_id = fid, row_total_size = s, row_terms = []\<rparr> | Some e \<Rightarrow> e)
     in e\<lparr>row_terms := row_terms e @ [term_of_row t]\<rparr>)"
    by (cases "map_of m fid") (simp_all add: bucket_row_def into_32_id [OF assms(1)])
  have step: "fold (\<lambda>x. bt_upsert (into_32 (fst x)) (bucket_row x)) (map (\<lambda>t. (fid, s, t)) (t # ts)) m
      = fold (\<lambda>x. bt_upsert (into_32 (fst x)) (bucket_row x)) (map (\<lambda>t. (fid, s, t)) ts)
          (bt_upsert fid (bucket_row (fid, s, t)) m)"
    by (simp add: into_32_id [OF assms(1)])
  show ?case
    unfolding step using Cons.IH [OF inv] unfolding m' v
    by (cases "map_of m fid") (auto simp: Let_def fun_eq_iff)
qed simp

lemma fold_buckets:
  assumes "distinct fids" and "\<forall>f\<in>set fids. hash32 f" and "bt_invar m" and "\<forall>f\<in>set fids. map_of m f = None"
  shows "bt_invar (fold (\<lambda>x. bt_upsert (into_32 (fst x)) (bucket_row x))
      (concat (map (\<lambda>fid. map (\<lambda>t. (fid, s fid, t)) (ts fid)) fids)) m)
    \<and> map_of (fold (\<lambda>x. bt_upsert (into_32 (fst x)) (bucket_row x))
      (concat (map (\<lambda>fid. map (\<lambda>t. (fid, s fid, t)) (ts fid)) fids)) m) =
      (\<lambda>f. if f \<in> set fids \<and> ts f \<noteq> []
           then Some \<lparr>row_file_id = f, row_total_size = s f, row_terms = map term_of_row (ts f)\<rparr> else map_of m f)"
  using assms
proof (induction fids arbitrary: m)
  case (Cons f fids)
  let ?m = "fold (\<lambda>x. bt_upsert (into_32 (fst x)) (bucket_row x)) (map (\<lambda>t. (f, s f, t)) (ts f)) m"
  note S = fold_bucket_same [of f m "s f" "ts f"]
  have "bt_invar ?m" "\<forall>g\<in>set fids. map_of ?m g = None"
    using S Cons.prems by auto
  from Cons.IH [OF _ _ this] S Cons.prems show ?case
    by (auto simp: fun_eq_iff)
qed simp

lemma batch_lookup:
  assumes "\<forall>f\<in>set ids. hash32 f"
  shows "map_of (fold (\<lambda>x. bt_upsert (into_32 (fst x)) (bucket_row x)) (batch_rows w ids) []) f =
    (if f \<in> set ids then reconstruction_of w f else None)"
  using fold_buckets [of "sorted_list_of_set (set ids)" "[]" "file_size w" "joined_terms w"] assms
  by (simp add: batch_rows_def reconstruction_of_def Let_def bt_invar_def)

section \<open>The invariant of the tables\<close>

definition row_ok :: "'r pin_row_scheme \<Rightarrow> bool" where
  "row_ok r \<longleftrightarrow> (pin_state r = Pinned \<longrightarrow> sia_object_id r \<noteq> None) \<and> 0 \<le> pin_attempts r"

definition rows_ok :: "('z world_scheme \<Rightarrow> hash \<Rightarrow> 'r pin_row_scheme option) \<Rightarrow> 'z world_scheme \<Rightarrow> bool" where
  "rows_ok tbl w \<longleftrightarrow> (\<forall>h r. tbl w h = Some r \<longrightarrow> row_ok r)"

text \<open>A pinned row names its Sia object; every term names a known file and a known xorb, every file a
  known shard, every body a known xorb; no key occurs twice.\<close>

definition cas_inv :: "'z world_scheme \<Rightarrow> bool" where
  "cas_inv w \<longleftrightarrow>
     rows_ok (\<lambda>w. map_of (xorbs w)) w \<and> rows_ok (\<lambda>w. map_of (shards w)) w
   \<and> distinct (map fst (xorbs w)) \<and> distinct (map fst (shards w))
   \<and> distinct (map fst (reconstruction_files w)) \<and> distinct (map fst (reconstruction_terms w))
   \<and> (\<forall>(k, t)\<in>set (reconstruction_terms w). k = term_key t
        \<and> pt_file_id t \<in> fst ` set (reconstruction_files w) \<and> pt_xorb_hash t \<in> fst ` set (xorbs w))
   \<and> (\<forall>(f, r)\<in>set (reconstruction_files w). rf_shard_hash r \<in> fst ` set (shards w))
   \<and> (\<forall>(h, b)\<in>set (xorb_bodies w). h \<in> fst ` set (xorbs w))"

lemma cas_inv_empty: "cas_inv empty_world"
  by (simp add: cas_inv_def rows_ok_def empty_world_def)

lemma frame_cas_inv: "frame cas_inv"
  by (simp add: frame_def cas_inv_def rows_ok_def)

lemma map_of_insert_row_key: "map_of t k \<noteq> None \<longleftrightarrow> k \<in> fst ` set t"
  by (metis map_of_eq_None_iff)

lemma row_ok_fresh: "row_ok (fresh_pin_row sz owner key now)" "row_ok (fresh_xorb_row sz owner key now b)"
  by (simp_all add: row_ok_def fresh_xorb_row_def fresh_pin_row_def pin_row.extend_def)

lemma fresh_xorb_sel [simp]:
  "pin_state (fresh_xorb_row sz owner key now b) = Pinning" "sia_object_id (fresh_xorb_row sz owner key now b) = None"
  "pin_attempts (fresh_xorb_row sz owner key now b) = 0"
  "chunk_boundaries (fresh_xorb_row sz owner key now b) = (if b = [] then None else Some b)"
  by (simp_all add: fresh_xorb_row_def fresh_pin_row_def pin_row.extend_def)

lemma keys_image: "fst ` set (update_row k f t) = fst ` set t" "fst ` set (update_rows P g t) = fst ` set t"
  by (simp_all flip: set_map)

lemma cas_inv_update_xorb:
  "cas_inv w \<Longrightarrow> (\<And>r. row_ok r \<Longrightarrow> row_ok (f r)) \<Longrightarrow> cas_inv (w\<lparr>xorbs := update_row h f (xorbs w)\<rparr>)"
  by (auto simp: cas_inv_def rows_ok_def map_of_update_row keys_image split: if_splits)

lemma cas_inv_update_shard:
  "cas_inv w \<Longrightarrow> (\<And>r. row_ok r \<Longrightarrow> row_ok (f r)) \<Longrightarrow> cas_inv (w\<lparr>shards := update_row h f (shards w)\<rparr>)"
  by (auto simp: cas_inv_def rows_ok_def map_of_update_row keys_image split: if_splits)

lemma cas_inv_update_xorbs:
  "cas_inv w \<Longrightarrow> (\<And>r. row_ok r \<Longrightarrow> row_ok (f r)) \<Longrightarrow> cas_inv (w\<lparr>xorbs := update_rows P f (xorbs w)\<rparr>)"
  by (auto simp: cas_inv_def rows_ok_def map_of_update_rows keys_image split: if_splits)

lemma cas_inv_insert_xorb:
  "cas_inv w \<Longrightarrow> row_ok r \<Longrightarrow> cas_inv (w\<lparr>xorbs := insert_row h r (xorbs w)\<rparr>)"
  by (auto simp: cas_inv_def rows_ok_def map_of_insert_row keys_insert_row split: if_splits)

lemma cas_inv_insert_shard:
  "cas_inv w \<Longrightarrow> row_ok r \<Longrightarrow> cas_inv (w\<lparr>shards := insert_row h r (shards w)\<rparr>)"
  by (auto simp: cas_inv_def rows_ok_def map_of_insert_row keys_insert_row split: if_splits)

lemma cas_inv_other:
  "cas_inv (w\<lparr>usage_log := u\<rparr>) = cas_inv w" "cas_inv (w\<lparr>redis := rd\<rparr>) = cas_inv w"
  "cas_inv (w\<lparr>clock := t\<rparr>) = cas_inv w" "cas_inv (w\<lparr>m_sweeps := a\<rparr>) = cas_inv w"
  "cas_inv (w\<lparr>m_failures := a\<rparr>) = cas_inv w" "cas_inv (w\<lparr>m_orphaned_xorb := a\<rparr>) = cas_inv w"
  "cas_inv (w\<lparr>m_orphaned_shard := a\<rparr>) = cas_inv w" "cas_inv (w\<lparr>m_version_rejected := v\<rparr>) = cas_inv w"
  by (simp_all add: cas_inv_def rows_ok_def)

lemma row_ok_set_state:
  "row_ok r \<Longrightarrow> (st = Pinned \<Longrightarrow> sid \<noteq> None) \<Longrightarrow> row_ok (set_state_row st sid now r)"
  by (auto simp: row_ok_def set_state_row_def coalesce_id_def split: option.splits)

lemma row_ok_revive: "row_ok r \<Longrightarrow> row_ok (revive_row r)"
  by (simp add: row_ok_def revive_row_def)

subsection \<open>Every query keeps it\<close>

lemma keeps_insert_pending [keeps_intro]: "keeps cas_inv (insert_pending h sz owner key b)"
  unfolding insert_pending_def
  by (rule keeps_db_exec [OF frame_cas_inv]) (simp add: cas_inv_insert_xorb row_ok_fresh)

lemma keeps_xorbs_set_pin_state:
  "(st = Pinned \<Longrightarrow> sid \<noteq> None) \<Longrightarrow> keeps cas_inv (xorbs_set_pin_state h st sid)"
  unfolding xorbs_set_pin_state_def
  by (rule keeps_db_update [OF frame_cas_inv]) (auto intro: cas_inv_update_xorb row_ok_set_state)

lemma keeps_shards_set_pin_state:
  "(st = Pinned \<Longrightarrow> sid \<noteq> None) \<Longrightarrow> keeps cas_inv (shards_set_pin_state h st sid)"
  unfolding shards_set_pin_state_def
  by (rule keeps_db_update [OF frame_cas_inv]) (auto intro: cas_inv_update_shard row_ok_set_state)

lemma keeps_revive [keeps_intro]: "keeps cas_inv (revive_orphaned_xorbs hs)"
  unfolding revive_orphaned_xorbs_def
  by (auto intro!: keeps_ret keeps_db_exec [OF frame_cas_inv] cas_inv_update_xorbs row_ok_revive simp: Let_def)

lemma keeps_usage_insert [keeps_intro]: "keeps cas_inv (usage_insert u)"
  unfolding usage_insert_def by (rule keeps_db_update [OF frame_cas_inv]) (simp add: cas_inv_other)

lemma keeps_records [keeps_intro]:
  "keeps cas_inv (record_xorb_upload ctx h b)" "keeps cas_inv (record_shard_upload ctx h b)"
  "keeps cas_inv (record_reconstruction ctx f)"
  "keeps cas_inv m \<Longrightarrow> keeps cas_inv (log_on_err m)"
  unfolding record_xorb_upload_def record_shard_upload_def record_reconstruction_def log_on_err_def
  by (intro keeps_intro; assumption)+

lemma keeps_queries [keeps_intro]:
  "keeps cas_inv (get_chunk_boundaries hs)" "keeps cas_inv (which_xorbs_are_pinned hs)"
  "keeps cas_inv (get_reconstruction fid)" "keeps cas_inv (get_reconstructions_batch ids)"
  unfolding get_chunk_boundaries_def which_xorbs_are_pinned_def get_reconstruction_def get_reconstructions_batch_def
  by (auto intro: keeps_intro frame_cas_inv)

lemma keeps_db_checked:
  assumes "frame P" and "\<And>w. P w \<Longrightarrow> ok w \<Longrightarrow> P (f w)"
  shows "keeps P (db_checked ok f)"
  unfolding db_checked_def using assms
  by (auto intro!: keeps_bind keeps_db_exec keeps_ret split: if_splits)

lemma put_file_keys: "fst ` set (put_file sh f t) = insert (pf_file_id f) (fst ` set t)"
  by (auto simp: put_file_def keys_image map_of_eq_None_iff intro: rev_image_eqI)

lemma put_file_distinct: "distinct (map fst t) \<Longrightarrow> distinct (map fst (put_file sh f t))"
  by (auto simp: put_file_def map_of_eq_None_iff)

lemma put_file_shards:
  "\<forall>(f, r)\<in>set t. rf_shard_hash r \<in> S \<Longrightarrow> sh \<in> S \<Longrightarrow> \<forall>(f, r)\<in>set (put_file sh x t). rf_shard_hash r \<in> S"
  by (fastforce simp: put_file_def update_row_def split: if_splits)

lemma fold_put_file:
  assumes "distinct (map fst t)" and "\<forall>(f, r)\<in>set t. rf_shard_hash r \<in> S" and "sh \<in> S"
  shows "distinct (map fst (fold (put_file sh) fs t))"
    and "\<forall>(f, r)\<in>set (fold (put_file sh) fs t). rf_shard_hash r \<in> S"
    and "fst ` set t \<subseteq> fst ` set (fold (put_file sh) fs t)"
proof -
  have "distinct (map fst (fold (put_file sh) fs t))
    \<and> (\<forall>(f, r)\<in>set (fold (put_file sh) fs t). rf_shard_hash r \<in> S)
    \<and> fst ` set t \<subseteq> fst ` set (fold (put_file sh) fs t)"
    using assms(1,2)
  proof (induction fs arbitrary: t)
    case (Cons x fs)
    from Cons.IH [OF put_file_distinct put_file_shards, OF Cons.prems assms(3), of x]
    show ?case unfolding fold_simps put_file_keys by blast
  qed simp
  then show "distinct (map fst (fold (put_file sh) fs t))"
    "\<forall>(f, r)\<in>set (fold (put_file sh) fs t). rf_shard_hash r \<in> S"
    "fst ` set t \<subseteq> fst ` set (fold (put_file sh) fs t)"
    by blast+
qed

lemma fold_insert_terms:
  assumes "distinct (map fst t)" and "\<forall>(k, x)\<in>set t. k = term_key x \<and> P x" and "list_all P ts"
  shows "distinct (map fst (fold (\<lambda>x. insert_row (term_key x) x) ts t))
    \<and> (\<forall>(k, x)\<in>set (fold (\<lambda>x. insert_row (term_key x) x) ts t). k = term_key x \<and> P x)"
  using assms
proof (induction ts arbitrary: t)
  case (Cons x ts)
  have "\<forall>(k, y)\<in>set (insert_row (term_key x) x t). k = term_key y \<and> P y"
    using Cons.prems by (auto simp: insert_row_def)
  from Cons.IH [OF _ this] Cons.prems show ?case by simp
qed simp

lemma keeps_insert_terms [keeps_intro]: "keeps cas_inv (insert_terms ts)"
proof -
  have "cas_inv (w\<lparr>reconstruction_terms := fold (\<lambda>t. insert_row (term_key t) t) ts (reconstruction_terms w)\<rparr>)"
    if "cas_inv w" "list_all (\<lambda>t. map_of (reconstruction_files w) (pt_file_id t) \<noteq> None
        \<and> map_of (xorbs w) (pt_xorb_hash t) \<noteq> None) ts" for w :: "'a world_scheme"
  proof -
    let ?P = "\<lambda>t. pt_file_id t \<in> fst ` set (reconstruction_files w) \<and> pt_xorb_hash t \<in> fst ` set (xorbs w)"
    have "list_all ?P ts" using that(2) unfolding map_of_insert_row_key .
    moreover have "\<forall>(k, x)\<in>set (reconstruction_terms w). k = term_key x \<and> ?P x" "distinct (map fst (reconstruction_terms w))"
      using that(1) by (simp_all add: cas_inv_def)
    ultimately show ?thesis
      using that(1) fold_insert_terms [of "reconstruction_terms w" ?P ts] by (simp add: cas_inv_def rows_ok_def)
  qed
  then show ?thesis
    unfolding insert_terms_def by (auto intro: keeps_ret keeps_db_checked [OF frame_cas_inv])
qed

text \<open>Inserting the files needs the shard row the same transaction has just written.\<close>

definition inv_with_shard :: "hash \<Rightarrow> 'z world_scheme \<Rightarrow> bool" where
  "inv_with_shard h w \<longleftrightarrow> cas_inv w \<and> h \<in> fst ` set (shards w)"

lemma frame_inv_with_shard: "frame (inv_with_shard h)"
  by (simp add: frame_def inv_with_shard_def frameD [OF frame_cas_inv])

lemma keeps_insert_files: "keeps (inv_with_shard h) (insert_files h fs)"
proof -
  have "inv_with_shard h (w\<lparr>reconstruction_files := fold (put_file h) fs (reconstruction_files w)\<rparr>)"
    if "inv_with_shard h w" for w :: "'a world_scheme"
  proof -
    let ?fs = "fold (put_file h) fs (reconstruction_files w)"
    have inv: "cas_inv w" and h: "h \<in> fst ` set (shards w)" using that by (simp_all add: inv_with_shard_def)
    have "distinct (map fst (reconstruction_files w))"
      "\<forall>(f, r)\<in>set (reconstruction_files w). rf_shard_hash r \<in> fst ` set (shards w)"
      using inv by (simp_all add: cas_inv_def)
    note F = fold_put_file [OF this h, of fs]
    have "\<forall>(k, t)\<in>set (reconstruction_terms w). k = term_key t
        \<and> pt_file_id t \<in> fst ` set ?fs \<and> pt_xorb_hash t \<in> fst ` set (xorbs w)"
      using inv F(3) unfolding cas_inv_def by blast
    with inv h F(1,2) show ?thesis by (simp add: inv_with_shard_def cas_inv_def rows_ok_def)
  qed
  then show ?thesis
    unfolding insert_files_def by (auto intro: keeps_ret keeps_db_checked [OF frame_inv_with_shard])
qed

lemma keeps_insert_shard [keeps_intro]:
  "keeps cas_inv (insert_shard_with_reconstruction h sz owner key files terms)"
proof -
  let ?ins = "\<lambda>w :: 'a world_scheme. (map_of (shards w) h = None,
         w\<lparr>shards := insert_row h (fresh_pin_row sz owner key (clock w)) (shards w)\<rparr>)"
  have ins: "inv_with_shard h (snd (?ins w))" if "cas_inv w" for w
    using that by (simp add: inv_with_shard_def cas_inv_insert_shard row_ok_fresh keys_insert_row)
  have rest: "cas_inv (snd (bindE (insert_files h files) (\<lambda>_. bindE (insert_terms terms) (\<lambda>_. ret True)) w))"
    if "inv_with_shard h w" for w :: "'a world_scheme"
  proof -
    have f: "cas_inv (snd (insert_files h files w))"
      using keepsD [OF keeps_insert_files that] by (simp add: inv_with_shard_def)
    have "keeps cas_inv (bindE (insert_terms terms) (\<lambda>_. ret True))"
      by (intro keeps_intro)
    from keepsD [OF this f] f show ?thesis
      by (auto simp: bindE_def [of "insert_files h files"] split: prod.split sum.split)
  qed
  show ?thesis
    unfolding keeps_def insert_shard_with_reconstruction_def
  proof (intro allI impI)
    fix w :: "'a world_scheme" assume "cas_inv w"
    then have w: "cas_inv (w\<lparr>faults := fs\<rparr>)" for fs by (simp add: frameD [OF frame_cas_inv])
    show "cas_inv (snd (bindE (db_exec ?ins) (\<lambda>inserted. if \<not> inserted then ret False
         else bindE (insert_files h files) (\<lambda>_. bindE (insert_terms terms) (\<lambda>_. ret True))) w))"
    proof (rule bind_snd)
      fix e w' assume "db_exec ?ins w = (Inl e, w')"
      then show "cas_inv w'"
        unfolding db_exec_def by (cases rule: io_step_cases [of db_error ?ins w]) (use w in auto)
    next
      fix a w' assume "db_exec ?ins w = (Inr a, w')"
      then have "inv_with_shard h w'"
        unfolding db_exec_def
      proof (cases rule: io_step_cases [of db_error ?ins w])
        case (ran fs)
        have "inv_with_shard h (snd (?ins (w\<lparr>faults := fs\<rparr>)))" by (rule ins [OF w])
        moreover assume "io_step db_error ?ins w = (Inr a, w')"
        ultimately show ?thesis using ran by simp
      qed simp
      then show "cas_inv (snd ((if \<not> a then ret False
         else bindE (insert_files h files) (\<lambda>_. bindE (insert_terms terms) (\<lambda>_. ret True))) w'))"
        using rest by (auto simp: ret_def inv_with_shard_def)
    qed
  qed
qed

section \<open>Properties\<close>

text \<open>C31: a reconstruction is exactly the terms of the file whose xorb is pinned, in term order, never an empty list,
  and it is absent exactly when the file is unknown or has no such term. The size reported is that of the whole file even when terms were
  left out, so a file with one pending xorb is answered with a shorter term list, not with an error.\<close>

theorem get_reconstruction_exact:
  assumes "fst (get_reconstruction fid w) = Inr r"
  shows "(r = None \<longleftrightarrow> fid \<notin> fst ` set (reconstruction_files w)
        \<or> (\<forall>(k, t)\<in>set (reconstruction_terms w). pt_file_id t = fid \<longrightarrow> \<not> xorb_pinned w (pt_xorb_hash t)))
    \<and> (\<forall>row. r = Some row \<longrightarrow>
        row_file_id row = fid \<and> map_option rf_total_size (map_of (reconstruction_files w) fid) = Some (row_total_size row)
        \<and> (\<exists>ts. ts \<noteq> [] \<and> row_terms row = map term_of_row ts \<and> sorted (map pt_term_index ts)
            \<and> mset ts = mset (filter (\<lambda>t. pt_file_id t = fid \<and> xorb_pinned w (pt_xorb_hash t))
                  (map snd (reconstruction_terms w)))))"
proof -
  let ?hits = "filter (\<lambda>t. pt_file_id t = fid \<and> xorb_pinned w (pt_xorb_hash t)) (map snd (reconstruction_terms w))"
  have r: "r = (if joined_terms w fid = [] then None
      else Some \<lparr>row_file_id = fid, row_total_size = file_size w fid, row_terms = map term_of_row (joined_terms w fid)\<rparr>)"
    using get_reconstruction_result [OF assms] by (simp add: reconstruction_of_def)
  have "joined_terms w fid = [] \<longleftrightarrow> map_of (reconstruction_files w) fid = None \<or> ?hits = []"
    by (cases "map_of (reconstruction_files w) fid") (simp_all add: joined_terms_def sort_key_Nil_iff)
  moreover have "?hits = [] \<longleftrightarrow> (\<forall>(k, t)\<in>set (reconstruction_terms w). pt_file_id t = fid \<longrightarrow> \<not> xorb_pinned w (pt_xorb_hash t))"
    by (auto simp: filter_empty_conv)
  ultimately have "joined_terms w fid = [] \<longleftrightarrow> fid \<notin> fst ` set (reconstruction_files w)
      \<or> (\<forall>(k, t)\<in>set (reconstruction_terms w). pt_file_id t = fid \<longrightarrow> \<not> xorb_pinned w (pt_xorb_hash t))"
    by (simp add: map_of_eq_None_iff)
  moreover have "map_option rf_total_size (map_of (reconstruction_files w) fid) = Some (file_size w fid)
      \<and> sorted (map pt_term_index (joined_terms w fid)) \<and> mset (joined_terms w fid) = mset ?hits" if "joined_terms w fid \<noteq> []"
    using that by (auto simp: file_size_def joined_terms_def split: if_splits)
  ultimately show ?thesis
    unfolding r by (cases "joined_terms w fid = []") auto
qed

text \<open>The batch query answers, file by file, what the single query answers, and has no entry for
  an id that was not asked for.\<close>

lemma batch_equals_single:
  assumes "\<forall>f\<in>set ids. hash32 f"
    and "fst (get_reconstructions_batch ids w) = Inr rows" and "fst (get_reconstruction f w) = Inr r"
  shows "map_of rows f = (if f \<in> set ids then r else None)"
proof (cases "ids = []")
  case True
  then show ?thesis using assms(2) by (simp add: get_reconstructions_batch_def ret_def)
next
  case False
  have "batch_rows (w\<lparr>faults := fs\<rparr>) ids = batch_rows w ids" for fs
    by (simp add: batch_rows_def)
  with False db_query_Inr [of "\<lambda>w. fold (\<lambda>x. bt_upsert (into_32 (fst x)) (bucket_row x)) (batch_rows w ids) []" w rows]
  have "rows = fold (\<lambda>x. bt_upsert (into_32 (fst x)) (bucket_row x)) (batch_rows w ids) []"
    using assms(2) by (auto simp: get_reconstructions_batch_def)
  then show ?thesis
    using batch_lookup [OF assms(1), of w f] get_reconstruction_result [OF assms(3)] by simp
qed

section \<open>Witnesses\<close>

definition ex_xorb :: "XorbPinState \<Rightarrow> xorb_row" where
  "ex_xorb st = (fresh_xorb_row 100 1 1 0 [])\<lparr>pin_state := st, sia_object_id := Some [1]\<rparr>"

definition ex_term :: "hash \<Rightarrow> int \<Rightarrow> hash \<Rightarrow> int \<Rightarrow> int \<Rightarrow> ParsedTerm" where
  "ex_term fid i xh a b = \<lparr>pt_file_id = fid, pt_term_index = i, pt_xorb_hash = xh, pt_xorb_start = 0,
     pt_xorb_end = 1, pt_xorb_byte_start = a, pt_xorb_byte_end = b, pt_unpacked_start = a, pt_unpacked_end = b\<rparr>"

text \<open>A file of two terms; the xorb of the second one is still being pinned.\<close>

definition ex_world :: world where
  "ex_world = empty_world\<lparr>
     xorbs := [(replicate 32 1, ex_xorb Pinned), (replicate 32 2, ex_xorb Pinning)],
     shards := [(replicate 32 9, fresh_pin_row 10 1 1 0)],
     reconstruction_files := [(replicate 32 7, \<lparr>rf_shard_hash = replicate 32 9, rf_total_size = 200, rf_sha256 = None\<rparr>)],
     reconstruction_terms :=
       [((replicate 32 7, 0), ex_term (replicate 32 7) 0 (replicate 32 1) 0 100),
        ((replicate 32 7, 1), ex_term (replicate 32 7) 1 (replicate 32 2) 0 100)]\<rparr>"

lemma ex_world_files: "map_of (reconstruction_files ex_world) (replicate 32 7)
    = Some \<lparr>rf_shard_hash = replicate 32 9, rf_total_size = 200, rf_sha256 = None\<rparr>"
  by (simp add: ex_world_def)

lemma ex_world_joined: "joined_terms ex_world (replicate 32 7) = [ex_term (replicate 32 7) 0 (replicate 32 1) 0 100]"
  by (simp add: joined_terms_def ex_world_def xorb_pinned_def ex_xorb_def ex_term_def empty_world_def)

lemma ex_world_no_faults: "faults ex_world = []"
  by (simp add: ex_world_def empty_world_def)

definition ex_row :: ReconstructionRow where
  "ex_row = \<lparr>row_file_id = replicate 32 7, row_total_size = 200,
     row_terms = [term_of_row (ex_term (replicate 32 7) 0 (replicate 32 1) 0 100)]\<rparr>"

lemma ex_world_single: "fst (get_reconstruction (replicate 32 7) ex_world) = Inr (Some ex_row)"
  by (simp add: get_reconstruction_def db_query_def io_step_no_fault ex_world_no_faults ex_world_joined
      file_size_def ex_world_files ex_row_def)

theorem get_reconstruction_exact_witness:
  "fst (get_reconstruction (replicate 32 7) ex_world) = Inr (Some ex_row)
   \<and> map_option rf_total_size (map_of (reconstruction_files ex_world) (replicate 32 7)) = Some (row_total_size ex_row)
   \<and> row_total_size ex_row = 200 \<and> length (row_terms ex_row) = 1"
  using get_reconstruction_exact [OF ex_world_single] ex_world_single
  by (simp add: ex_row_def)

end
