(* ===== verification/Reconciler.thy ===== *)
theory Reconciler
  imports Queries
begin

text \<open>
  The pin-state reconciler of \<^verbatim>\<open>openweights-cas-storage/src/reconciler.rs\<close>: one sweep over the stuck
  rows of \<^verbatim>\<open>xorbs\<close> and of \<^verbatim>\<open>shards\<close>, with the Sia calls it makes and the state transitions it writes.
  The two tables have the same life cycle; what the sweep needs of a table is the locale
  \<open>pin_table\<close>, interpreted on both.
\<close>

section \<open>Constants and rows\<close>

definition RECONCILER_BATCH :: nat where "RECONCILER_BATCH = 20"
definition MAX_PIN_ATTEMPTS :: int where "MAX_PIN_ATTEMPTS = 5"
definition STUCK_THRESHOLD_MS :: int where "STUCK_THRESHOLD_MS = 5 * 60 * 1000"

definition is_transient :: "SiaAdapterError \<Rightarrow> bool" where
  "is_transient e = (case e of Unavailable _ \<Rightarrow> True | SiaOther _ \<Rightarrow> False)"

record StuckRow =
  s_hash :: hash
  s_sia_object_id :: "byte list option"
  s_pin_state :: XorbPinState
  s_pin_attempts :: int

definition is_stuck :: "int \<Rightarrow> 'r pin_row_scheme \<Rightarrow> bool" where
  "is_stuck now r \<longleftrightarrow> pin_state r \<in> {Uploading, Pinning}
     \<and> (case last_pin_attempt_at r of None \<Rightarrow> True | Some t \<Rightarrow> t < now - STUCK_THRESHOLD_MS)
     \<and> pin_attempts r < MAX_PIN_ATTEMPTS"

definition stuck_row :: "hash \<times> 'r pin_row_scheme \<Rightarrow> StuckRow" where
  "stuck_row hr = \<lparr>s_hash = (if length (fst hr) = 32 then fst hr else replicate 32 0),
     s_sia_object_id = sia_object_id (snd hr), s_pin_state = pin_state (snd hr),
     s_pin_attempts = pin_attempts (snd hr)\<rparr>"

text \<open>\<^verbatim>\<open>ORDER BY last_pin_attempt_at ASC NULLS FIRST LIMIT 20\<close>\<close>

definition stuck_of :: "int \<Rightarrow> (hash \<times> 'r pin_row_scheme) list \<Rightarrow> StuckRow list" where
  "stuck_of now t =
     (let hits = filter (\<lambda>hr. is_stuck now (snd hr)) t;
          never = filter (\<lambda>hr. last_pin_attempt_at (snd hr) = None) hits;
          tried = filter (\<lambda>hr. last_pin_attempt_at (snd hr) \<noteq> None) hits
      in map stuck_row (take RECONCILER_BATCH
           (never @ sort_key (\<lambda>hr. the (last_pin_attempt_at (snd hr))) tried)))"

definition fetch_stuck_xorbs :: "('z, AppError, StuckRow list) io" where
  "fetch_stuck_xorbs = db_query (\<lambda>w. stuck_of (clock w) (xorbs w))"

definition fetch_stuck_shards :: "('z, AppError, StuckRow list) io" where
  "fetch_stuck_shards = db_query (\<lambda>w. stuck_of (clock w) (shards w))"

section \<open>The updates\<close>

definition pinned_row :: "byte list \<Rightarrow> int \<Rightarrow> 'r pin_row_scheme \<Rightarrow> 'r pin_row_scheme" where
  "pinned_row sid now r =
     (if pin_state r = Pinned then r
      else r\<lparr>pin_state := Pinned, sia_object_id := coalesce_id (sia_object_id r) (Some sid),
             last_pin_attempt_at := Some now\<rparr>)"

definition touched_row :: "int \<Rightarrow> 'r pin_row_scheme \<Rightarrow> 'r pin_row_scheme" where
  "touched_row now r = r\<lparr>last_pin_attempt_at := Some now\<rparr>"

definition bumped_row :: "int \<Rightarrow> 'r pin_row_scheme \<Rightarrow> 'r pin_row_scheme" where
  "bumped_row now r = r\<lparr>pin_attempts := pin_attempts r + 1, last_pin_attempt_at := Some now\<rparr>"

definition orphaned_row :: "int \<Rightarrow> 'r pin_row_scheme \<Rightarrow> 'r pin_row_scheme" where
  "orphaned_row now r =
     r\<lparr>pin_state := Orphaned, pin_attempts := pin_attempts r + 1, last_pin_attempt_at := Some now\<rparr>"

definition upd_xorb :: "hash \<Rightarrow> (xorb_row \<Rightarrow> xorb_row) \<Rightarrow> 'z world_scheme \<Rightarrow> 'z world_scheme" where
  "upd_xorb h f w = w\<lparr>xorbs := update_row h f (xorbs w)\<rparr>"

definition upd_shard :: "hash \<Rightarrow> (pin_row \<Rightarrow> pin_row) \<Rightarrow> 'z world_scheme \<Rightarrow> 'z world_scheme" where
  "upd_shard h f w = w\<lparr>shards := update_row h f (shards w)\<rparr>"

definition set_pinned_xorb :: "hash \<Rightarrow> byte list \<Rightarrow> ('z, AppError, unit) io" where
  "set_pinned_xorb h sid = db_update (\<lambda>w. upd_xorb h (pinned_row sid (clock w)) w)"

definition set_pinned_shard :: "hash \<Rightarrow> byte list \<Rightarrow> ('z, AppError, unit) io" where
  "set_pinned_shard h sid = db_update (\<lambda>w. upd_shard h (pinned_row sid (clock w)) w)"

definition orphan_xorb :: "hash \<Rightarrow> ('z, AppError, unit) io" where
  "orphan_xorb h = db_update (\<lambda>w. upd_xorb h (orphaned_row (clock w)) w)"

definition orphan_shard :: "hash \<Rightarrow> ('z, AppError, unit) io" where
  "orphan_shard h = db_update (\<lambda>w. upd_shard h (orphaned_row (clock w)) w)"

definition inc_orphaned_xorb :: "('z, AppError, unit) io" where
  "inc_orphaned_xorb = modify (\<lambda>w. w\<lparr>m_orphaned_xorb := m_orphaned_xorb w + 1\<rparr>)"

definition inc_orphaned_shard :: "('z, AppError, unit) io" where
  "inc_orphaned_shard = modify (\<lambda>w. w\<lparr>m_orphaned_shard := m_orphaned_shard w + 1\<rparr>)"

definition bump_xorb_attempt :: "hash \<Rightarrow> int \<Rightarrow> SiaAdapterError \<Rightarrow> ('z, AppError, bool) io" where
  "bump_xorb_attempt h prior_attempts err =
     (if is_transient err then
        bindE (db_update (\<lambda>w. upd_xorb h (touched_row (clock w)) w)) (\<lambda>_. ret True)
      else if prior_attempts + 1 \<ge> MAX_PIN_ATTEMPTS then
        bindE (orphan_xorb h) (\<lambda>_. bindE inc_orphaned_xorb (\<lambda>_. ret True))
      else bindE (db_update (\<lambda>w. upd_xorb h (bumped_row (clock w)) w)) (\<lambda>_. ret True))"

definition bump_shard_attempt :: "hash \<Rightarrow> int \<Rightarrow> SiaAdapterError \<Rightarrow> ('z, AppError, bool) io" where
  "bump_shard_attempt h prior_attempts err =
     (if is_transient err then
        bindE (db_update (\<lambda>w. upd_shard h (touched_row (clock w)) w)) (\<lambda>_. ret True)
      else if prior_attempts + 1 \<ge> MAX_PIN_ATTEMPTS then
        bindE (orphan_shard h) (\<lambda>_. bindE inc_orphaned_shard (\<lambda>_. ret True))
      else bindE (db_update (\<lambda>w. upd_shard h (bumped_row (clock w)) w)) (\<lambda>_. ret True))"

section \<open>The sweep\<close>

definition load_xorb_body :: "hash \<Rightarrow> ('z, AppError, byte list option) io" where
  "load_xorb_body h = db_query (\<lambda>w. map_of (xorb_bodies w) h)"

definition reconcile_xorb_row :: "StuckRow \<Rightarrow> ('z, AppError, bool) io" where
  "reconcile_xorb_row row =
     (if s_pin_state row = Uploading then
        bindE (orphan_xorb (s_hash row)) (\<lambda>_. bindE inc_orphaned_xorb (\<lambda>_. ret True))
      else case s_sia_object_id row of
        Some oid \<Rightarrow>
          bindE (sia_op (PinOnly oid)) (\<lambda>reply. case reply of
            SiaOk _ \<Rightarrow> bindE (set_pinned_xorb (s_hash row) oid) (\<lambda>_. ret True)
          | SiaErr e \<Rightarrow> bump_xorb_attempt (s_hash row) (s_pin_attempts row) e
          | SiaTimeout \<Rightarrow> bump_xorb_attempt (s_hash row) (s_pin_attempts row)
                            (SiaOther ''sia pin_only exceeded budget''))
      | None \<Rightarrow>
          bindE (load_xorb_body (s_hash row)) (\<lambda>body. case body of
            Some bytes \<Rightarrow>
              bindE (sia_op (UploadAndPin bytes)) (\<lambda>reply. case reply of
                SiaOk sia_id \<Rightarrow> bindE (set_pinned_xorb (s_hash row) sia_id) (\<lambda>_. ret True)
              | SiaErr e \<Rightarrow> bump_xorb_attempt (s_hash row) (s_pin_attempts row) e
              | SiaTimeout \<Rightarrow> bump_xorb_attempt (s_hash row) (s_pin_attempts row)
                                (SiaOther ''sia upload_and_pin exceeded budget''))
          | None \<Rightarrow> bump_xorb_attempt (s_hash row) (s_pin_attempts row)
                      (SiaOther ''xorb_bodies row is missing'')))"

definition reconcile_shard_row :: "StuckRow \<Rightarrow> ('z, AppError, bool) io" where
  "reconcile_shard_row row =
     (if s_pin_state row = Uploading then
        bindE (orphan_shard (s_hash row)) (\<lambda>_. bindE inc_orphaned_shard (\<lambda>_. ret True))
      else case s_sia_object_id row of
        Some oid \<Rightarrow>
          bindE (sia_op (PinOnly oid)) (\<lambda>reply. case reply of
            SiaOk _ \<Rightarrow> bindE (set_pinned_shard (s_hash row) oid) (\<lambda>_. ret True)
          | SiaErr e \<Rightarrow> bump_shard_attempt (s_hash row) (s_pin_attempts row) e
          | SiaTimeout \<Rightarrow> bump_shard_attempt (s_hash row) (s_pin_attempts row)
                            (Unavailable ''sia pin_only exceeded budget''))
      | None \<Rightarrow> bump_shard_attempt (s_hash row) (s_pin_attempts row)
                  (SiaOther ''sia_object_id is NULL''))"

fun reconcile_rows :: "(StuckRow \<Rightarrow> ('z, AppError, bool) io) \<Rightarrow> StuckRow list \<Rightarrow> nat \<Rightarrow> ('z, AppError, nat) io" where
  "reconcile_rows f [] handled = ret handled"
| "reconcile_rows f (row # rows) handled =
     bindE (attempt (f row)) (\<lambda>r. case r of
       Inr True \<Rightarrow> reconcile_rows f rows (handled + 1)
     | _ \<Rightarrow> reconcile_rows f rows handled)"

definition reconcile_once :: "('z, AppError, nat) io" where
  "reconcile_once =
     bindE fetch_stuck_xorbs (\<lambda>xorb_rows.
     bindE (reconcile_rows reconcile_xorb_row xorb_rows 0) (\<lambda>handled.
     bindE fetch_stuck_shards (\<lambda>shard_rows.
     bindE (reconcile_rows reconcile_shard_row shard_rows handled) (\<lambda>handled.
     bindE (if handled > 0 then modify (\<lambda>w. w\<lparr>m_sweeps := m_sweeps w + 1\<rparr>) else ret ()) (\<lambda>_.
     ret handled)))))"

text \<open>One turn of the loop of \<^verbatim>\<open>run_reconciler\<close> after its ticker fires.\<close>

definition run_reconciler_tick :: "'z world_scheme \<Rightarrow> 'z world_scheme" where
  "run_reconciler_tick w =
     (case reconcile_once w of
        (Inr _, w') \<Rightarrow> w'
      | (Inl _, w') \<Rightarrow> w'\<lparr>m_failures := m_failures w' + 1\<rparr>)"

section \<open>The life cycle of a row\<close>

text \<open>What one sweep may do to a row. This is the state machine the module documents.\<close>

inductive pin_step :: "'r pin_row_scheme \<Rightarrow> 'r pin_row_scheme \<Rightarrow> bool" where
  stay: "pin_step r r"
| touch: "pin_state r = Pinning \<Longrightarrow> pin_step r (touched_row now r)"
| bump: "pin_state r = Pinning \<Longrightarrow> pin_attempts r + 1 < MAX_PIN_ATTEMPTS \<Longrightarrow> pin_step r (bumped_row now r)"
| pin: "pin_state r = Pinning \<Longrightarrow> pin_step r (pinned_row sid now r)"
| give_up: "pin_state r = Uploading \<or> pin_state r = Pinning \<and> MAX_PIN_ATTEMPTS \<le> pin_attempts r + 1 \<Longrightarrow>
    pin_step r (orphaned_row now r)"

lemmas row_updates = touched_row_def bumped_row_def pinned_row_def orphaned_row_def

inductive_cases pin_stepE: "pin_step r r'"

lemma pin_step_final:
  "pin_step r r' \<Longrightarrow> pin_state r \<in> {Pinned, Orphaned} \<Longrightarrow> r' = r"
  by (auto elim!: pin_stepE)

lemma pin_step_id: "pin_step r r' \<Longrightarrow> sia_object_id r = Some i \<Longrightarrow> sia_object_id r' = Some i"
  by (auto elim!: pin_stepE simp: row_updates coalesce_id_def)

lemma pin_step_row_ok: "pin_step r r' \<Longrightarrow> row_ok r \<Longrightarrow> row_ok r'"
  by (auto elim!: pin_stepE simp: row_updates coalesce_id_def row_ok_def split: option.splits)

section \<open>What the sweep needs of a table\<close>

locale pin_table =
  fixes tbl :: "'z world_scheme \<Rightarrow> hash \<Rightarrow> 'r pin_row_scheme option"
    and upd :: "hash \<Rightarrow> ('r pin_row_scheme \<Rightarrow> 'r pin_row_scheme) \<Rightarrow> 'z world_scheme \<Rightarrow> 'z world_scheme"
  assumes tbl_upd: "tbl (upd h f w) h' = (if h' = h then map_option f (tbl w h) else tbl w h')"
    and tbl_faults: "tbl (w\<lparr>faults := fs\<rparr>) = tbl w"
    and tbl_script: "tbl (w\<lparr>sia_script := s\<rparr>) = tbl w"
    and tbl_calls: "tbl (w\<lparr>sia_calls := c\<rparr>) = tbl w"
    and tbl_counters: "tbl (w\<lparr>m_orphaned_xorb := n\<rparr>) = tbl w" "tbl (w\<lparr>m_orphaned_shard := n\<rparr>) = tbl w"
begin

text \<open>\<open>acts row m\<close>: the handler \<open>m\<close> touches only the row it was given, and that row, when it is as it
  was read, makes one step of its life cycle.\<close>

definition acts :: "StuckRow \<Rightarrow> ('z, AppError, 'a) io \<Rightarrow> bool" where
  "acts row m \<longleftrightarrow> (\<forall>w h r. tbl w h = Some r \<longrightarrow>
     (h = s_hash row \<longrightarrow> s_sia_object_id row = sia_object_id r \<and> s_pin_state row = pin_state r
        \<and> s_pin_attempts row = pin_attempts r \<and> pin_state r \<in> {Uploading, Pinning}) \<longrightarrow>
     (\<exists>r'. tbl (snd (m w)) h = Some r' \<and> (if h = s_hash row then pin_step r r' else r' = r)))"

lemma update_acts:
  assumes "\<And>now r. s_pin_state row = pin_state r \<Longrightarrow> s_pin_attempts row = pin_attempts r \<Longrightarrow>
      pin_state r \<in> {Uploading, Pinning} \<Longrightarrow> pin_step r (g now r)"
  shows "acts row (db_update (\<lambda>w. upd (s_hash row) (g (clock w)) w))"
  unfolding acts_def
proof (intro allI impI)
  fix w h r
  assume t: "tbl w h = Some r" and m: "h = s_hash row \<longrightarrow> s_sia_object_id row = sia_object_id r \<and>
      s_pin_state row = pin_state r \<and> s_pin_attempts row = pin_attempts r \<and> pin_state r \<in> {Uploading, Pinning}"
  let ?f = "\<lambda>w. ((), upd (s_hash row) (g (clock w)) w)"
  have "(\<exists>fs. snd (db_update (\<lambda>w. upd (s_hash row) (g (clock w)) w) w) = w\<lparr>faults := fs\<rparr>)
    \<or> (\<exists>fs. snd (db_update (\<lambda>w. upd (s_hash row) (g (clock w)) w) w) = upd (s_hash row) (g (clock (w\<lparr>faults := fs\<rparr>))) (w\<lparr>faults := fs\<rparr>))"
    unfolding db_update_def by (cases rule: io_step_cases [of db_error ?f w]) auto
  then show "\<exists>r'. tbl (snd (db_update (\<lambda>w. upd (s_hash row) (g (clock w)) w) w)) h = Some r'
      \<and> (if h = s_hash row then pin_step r r' else r' = r)"
    using t m assms by (cases "h = s_hash row") (auto simp: tbl_upd tbl_faults intro: stay)
qed

lemma acts_then_ret: "acts row m \<Longrightarrow> acts row (bindE m (\<lambda>_. ret b))"
proof -
  have "snd (bindE m (\<lambda>_. ret b) w) = snd (m w)" for w
    by (auto simp: bindE_def ret_def split: prod.split sum.split)
  then show "acts row m \<Longrightarrow> acts row (bindE m (\<lambda>_. ret b))" by (simp add: acts_def)
qed

lemma acts_then_count:
  assumes "acts row m" and "\<And>w. tbl (snd (c w)) = tbl w" and "\<And>w. \<exists>x. fst (c w) = Inr x"
  shows "acts row (bindE m (\<lambda>_. bindE c (\<lambda>_. ret b)))"
proof -
  have "tbl (snd (bindE m (\<lambda>_. bindE c (\<lambda>_. ret b)) w)) = tbl (snd (m w))" for w
    using assms(2) by (auto simp: bindE_def ret_def split: prod.split sum.split) (metis snd_conv)+
  with assms(1) show ?thesis by (simp add: acts_def)
qed

lemma acts_after:
  assumes "\<And>w e w'. m w = (Inl e, w') \<Longrightarrow> tbl w' = tbl w"
    and "\<And>w a w'. m w = (Inr a, w') \<Longrightarrow> tbl w' = tbl w" and "\<And>a. acts row (k a)"
  shows "acts row (bindE m k)"
  unfolding acts_def
proof (intro allI impI)
  fix w h r
  assume t: "tbl w h = Some r" and m: "h = s_hash row \<longrightarrow> s_sia_object_id row = sia_object_id r \<and>
      s_pin_state row = pin_state r \<and> s_pin_attempts row = pin_attempts r \<and> pin_state r \<in> {Uploading, Pinning}"
  show "\<exists>r'. tbl (snd (bindE m k w)) h = Some r' \<and> (if h = s_hash row then pin_step r r' else r' = r)"
  proof (cases "m w")
    case (Pair x w')
    show ?thesis
    proof (cases x)
      case (Inl e)
      with Pair assms(1) t show ?thesis by (auto simp: bindE_def intro: stay)
    next
      case (Inr a)
      with Pair assms(2) t have "tbl w' h = Some r" by metis
      with assms(3) [of a] m have "\<exists>r'. tbl (snd (k a w')) h = Some r' \<and> (if h = s_hash row then pin_step r r' else r' = r)"
        unfolding acts_def by blast
      with Pair Inr show ?thesis by (simp add: bindE_def)
    qed
  qed
qed

lemma acts_after_sia: "(\<And>a. acts row (k a)) \<Longrightarrow> acts row (bindE (sia_op c) k)"
  by (rule acts_after) (auto simp: sia_op_def tbl_script tbl_calls split: list.splits)

lemma acts_after_query: "(\<And>a. acts row (k a)) \<Longrightarrow> acts row (bindE (db_query q) k)"
  by (rule acts_after) (auto simp: db_query_def io_step_def tbl_faults split: list.splits if_splits)

lemma sweep_rows:
  assumes "\<And>row. row \<in> set rows \<Longrightarrow> acts row (f row)" and "distinct (map s_hash rows)"
    and "\<And>row. row \<in> set rows \<Longrightarrow> \<exists>r. tbl w (s_hash row) = Some r \<and> s_sia_object_id row = sia_object_id r
        \<and> s_pin_state row = pin_state r \<and> s_pin_attempts row = pin_attempts r \<and> pin_state r \<in> {Uploading, Pinning}"
    and "tbl w h = Some r"
  shows "\<exists>r'. tbl (snd (reconcile_rows f rows n w)) h = Some r' \<and> pin_step r r'
    \<and> (h \<notin> s_hash ` set rows \<longrightarrow> r' = r)"
  using assms
proof (induction rows arbitrary: n w r)
  case Nil
  then show ?case by (auto simp: ret_def intro: stay)
next
  case (Cons row rows)
  let ?w = "snd (f row w)"
  have step: "snd (reconcile_rows f (row # rows) n w) = snd (reconcile_rows f rows (if fst (f row w) = Inr True then n + 1 else n) ?w)"
    by (auto simp: bindE_def attempt_def split: prod.split sum.split bool.split)
  have acts: "acts row (f row)" using Cons.prems(1) by simp
  obtain s where s: "tbl w (s_hash row) = Some s" "s_sia_object_id row = sia_object_id s"
    "s_pin_state row = pin_state s" "s_pin_attempts row = pin_attempts s" "pin_state s \<in> {Uploading, Pinning}"
    using Cons.prems(3) [of row] by auto
  have same: "tbl ?w g = tbl w g" if "g \<noteq> s_hash row" "tbl w g = Some x" for g x
    using acts that unfolding acts_def by (metis (no_types, lifting))
  have rest: "\<exists>r. tbl ?w (s_hash q) = Some r \<and> s_sia_object_id q = sia_object_id r
        \<and> s_pin_state q = pin_state r \<and> s_pin_attempts q = pin_attempts r \<and> pin_state r \<in> {Uploading, Pinning}"
    if "q \<in> set rows" for q
  proof -
    have "s_hash q \<noteq> s_hash row" using that Cons.prems(2) by (auto simp: image_iff)
    with Cons.prems(3) [of q] that same [of "s_hash q"] show ?thesis by auto
  qed
  note IH = Cons.IH [OF _ _ rest]
  show ?case
  proof (cases "h = s_hash row")
    case True
    with s Cons.prems(4) acts obtain r1 where r1: "tbl ?w h = Some r1" "pin_step r r1"
      unfolding acts_def by (metis (no_types, lifting) option.inject)
    have "h \<notin> s_hash ` set rows" using True Cons.prems(2) by auto
    with IH [of r1 "if fst (f row w) = Inr True then n + 1 else n"] r1 Cons.prems True show ?thesis
      unfolding step by auto
  next
    case False
    with same Cons.prems(4) have "tbl ?w h = Some r" by metis
    with IH [of r "if fst (f row w) = Inr True then n + 1 else n"] Cons.prems show ?thesis
      unfolding step by auto
  qed
qed

end

interpretation xorb_table: pin_table "\<lambda>w. map_of (xorbs w)" upd_xorb
  by unfold_locales (simp_all add: upd_xorb_def map_of_update_row)

interpretation shard_table: pin_table "\<lambda>w. map_of (shards w)" upd_shard
  by unfold_locales (simp_all add: upd_shard_def map_of_update_row)

section \<open>Invariants of a sweep\<close>

lemma row_ok_updates:
  "row_ok r \<Longrightarrow> row_ok (touched_row now r)" "row_ok r \<Longrightarrow> row_ok (bumped_row now r)"
  "row_ok r \<Longrightarrow> row_ok (pinned_row sid now r)" "row_ok r \<Longrightarrow> row_ok (orphaned_row now r)"
  by (simp_all add: row_updates row_ok_def coalesce_id_def split: option.split)

lemma owner_updates:
  "owner_api_key_id (touched_row now r) = owner_api_key_id r" "owner_api_key_id (bumped_row now r) = owner_api_key_id r"
  "owner_api_key_id (pinned_row sid now r) = owner_api_key_id r" "owner_api_key_id (orphaned_row now r) = owner_api_key_id r"
  by (simp_all add: row_updates)

text \<open>A predicate kept by the row updates of one table is kept by the sweep over that table.\<close>

locale shard_sweep =
  fixes P :: "'z world_scheme \<Rightarrow> bool"
  assumes framed: "frame P"
    and counters: "P w \<Longrightarrow> P (w\<lparr>m_orphaned_shard := n\<rparr>)"
    and shard_step: "P w \<Longrightarrow> (\<And>r. row_ok r \<Longrightarrow> row_ok (f r)) \<Longrightarrow> (\<And>r. owner_api_key_id (f r) = owner_api_key_id r) \<Longrightarrow>
      P (upd_shard h f w)"
begin

lemma keeps_shard_update: "(\<And>now r. row_ok r \<Longrightarrow> row_ok (g now r)) \<Longrightarrow> (\<And>now r. owner_api_key_id (g now r) = owner_api_key_id r) \<Longrightarrow>
    keeps P (db_update (\<lambda>w. upd_shard h (g (clock w)) w))"
  by (rule keeps_db_update [OF framed]) (auto intro: shard_step)

lemmas keeps_shard_updates = keeps_shard_update [OF row_ok_updates(1) owner_updates(1)] keeps_shard_update [OF row_ok_updates(2) owner_updates(2)]
  keeps_shard_update [OF row_ok_updates(3) owner_updates(3)] keeps_shard_update [OF row_ok_updates(4) owner_updates(4)]

lemma keeps_shard_row: "keeps P (reconcile_shard_row row)"
  unfolding reconcile_shard_row_def bump_shard_attempt_def orphan_shard_def set_pinned_shard_def inc_orphaned_shard_def
  by (auto intro!: keeps_intro keeps_shard_updates keeps_modify framed counters split: option.split sia_reply.split)

end

locale xorb_sweep =
  fixes P :: "'z world_scheme \<Rightarrow> bool"
  assumes framed: "frame P"
    and counters: "P w \<Longrightarrow> P (w\<lparr>m_orphaned_xorb := n\<rparr>)"
    and xorb_step: "P w \<Longrightarrow> (\<And>r. row_ok r \<Longrightarrow> row_ok (f r)) \<Longrightarrow> (\<And>r. owner_api_key_id (f r) = owner_api_key_id r) \<Longrightarrow>
      P (upd_xorb h f w)"
begin

lemma keeps_xorb_update: "(\<And>now r. row_ok r \<Longrightarrow> row_ok (g now r)) \<Longrightarrow> (\<And>now r. owner_api_key_id (g now r) = owner_api_key_id r) \<Longrightarrow>
    keeps P (db_update (\<lambda>w. upd_xorb h (g (clock w)) w))"
  by (rule keeps_db_update [OF framed]) (auto intro: xorb_step)

lemmas keeps_xorb_updates = keeps_xorb_update [OF row_ok_updates(1) owner_updates(1)] keeps_xorb_update [OF row_ok_updates(2) owner_updates(2)]
  keeps_xorb_update [OF row_ok_updates(3) owner_updates(3)] keeps_xorb_update [OF row_ok_updates(4) owner_updates(4)]

lemma keeps_xorb_row: "keeps P (reconcile_xorb_row row)"
  unfolding reconcile_xorb_row_def bump_xorb_attempt_def orphan_xorb_def set_pinned_xorb_def inc_orphaned_xorb_def load_xorb_body_def
  by (auto intro!: keeps_intro keeps_xorb_updates keeps_modify framed counters split: option.split sia_reply.split)

end

lemma keeps_reconcile_rows: "(\<And>row. keeps P (f row)) \<Longrightarrow> keeps P (reconcile_rows f rows n)"
proof (induction rows arbitrary: n)
  case (Cons row rows)
  then show ?case
    by (auto intro!: keeps_bind keeps_attempt split: sum.split bool.split)
qed (simp add: keeps_ret)

interpretation shards_keep_xorbs: shard_sweep "\<lambda>w. xorbs w = X"
  by unfold_locales (simp_all add: frame_def upd_shard_def)

interpretation xorbs_keep_shards: xorb_sweep "\<lambda>w. shards w = S"
  by unfold_locales (simp_all add: frame_def upd_xorb_def)

interpretation shards_keep_inv: shard_sweep cas_inv
  by unfold_locales (auto simp: frame_cas_inv cas_inv_other upd_shard_def intro: cas_inv_update_shard)

interpretation xorbs_keep_inv: xorb_sweep cas_inv
  by unfold_locales (auto simp: frame_cas_inv cas_inv_other upd_xorb_def intro: cas_inv_update_xorb)

lemma keeps_reconcile_once: "keeps cas_inv reconcile_once"
  unfolding reconcile_once_def fetch_stuck_xorbs_def fetch_stuck_shards_def
  by (auto intro!: keeps_intro keeps_modify keeps_reconcile_rows frame_cas_inv xorbs_keep_inv.keeps_xorb_row
      shards_keep_inv.keeps_shard_row simp: cas_inv_other)

section \<open>One sweep\<close>

lemma bump_xorb_acts:
  assumes "s_pin_state row \<noteq> Uploading"
  shows "xorb_table.acts row (bump_xorb_attempt (s_hash row) (s_pin_attempts row) e)"
proof -
  have "xorb_table.acts row (orphan_xorb (s_hash row))" if "MAX_PIN_ATTEMPTS \<le> s_pin_attempts row + 1"
    unfolding orphan_xorb_def
    by (rule xorb_table.update_acts [where g = orphaned_row]) (use that assms in \<open>auto intro: give_up\<close>)
  moreover have "xorb_table.acts row (db_update (\<lambda>w. upd_xorb (s_hash row) (touched_row (clock w)) w))"
    by (rule xorb_table.update_acts [where g = touched_row]) (use assms in \<open>auto intro: touch\<close>)
  moreover have "xorb_table.acts row (db_update (\<lambda>w. upd_xorb (s_hash row) (bumped_row (clock w)) w))"
    if "\<not> MAX_PIN_ATTEMPTS \<le> s_pin_attempts row + 1"
    by (rule xorb_table.update_acts [where g = bumped_row]) (use that assms in \<open>auto intro: bump\<close>)
  ultimately show ?thesis
    unfolding bump_xorb_attempt_def
    by (auto intro!: xorb_table.acts_then_ret xorb_table.acts_then_count simp: inc_orphaned_xorb_def modify_def)
qed

lemma bump_shard_acts:
  assumes "s_pin_state row \<noteq> Uploading"
  shows "shard_table.acts row (bump_shard_attempt (s_hash row) (s_pin_attempts row) e)"
proof -
  have "shard_table.acts row (orphan_shard (s_hash row))" if "MAX_PIN_ATTEMPTS \<le> s_pin_attempts row + 1"
    unfolding orphan_shard_def
    by (rule shard_table.update_acts [where g = orphaned_row]) (use that assms in \<open>auto intro: give_up\<close>)
  moreover have "shard_table.acts row (db_update (\<lambda>w. upd_shard (s_hash row) (touched_row (clock w)) w))"
    by (rule shard_table.update_acts [where g = touched_row]) (use assms in \<open>auto intro: touch\<close>)
  moreover have "shard_table.acts row (db_update (\<lambda>w. upd_shard (s_hash row) (bumped_row (clock w)) w))"
    if "\<not> MAX_PIN_ATTEMPTS \<le> s_pin_attempts row + 1"
    by (rule shard_table.update_acts [where g = bumped_row]) (use that assms in \<open>auto intro: bump\<close>)
  ultimately show ?thesis
    unfolding bump_shard_attempt_def
    by (auto intro!: shard_table.acts_then_ret shard_table.acts_then_count simp: inc_orphaned_shard_def modify_def)
qed

lemma reconcile_xorb_acts: "xorb_table.acts row (reconcile_xorb_row row)"
proof (cases "s_pin_state row = Uploading")
  case True
  have "xorb_table.acts row (orphan_xorb (s_hash row))"
    unfolding orphan_xorb_def
    by (rule xorb_table.update_acts [where g = orphaned_row]) (use True in \<open>auto intro: give_up\<close>)
  with True show ?thesis
    unfolding reconcile_xorb_row_def
    by (auto intro!: xorb_table.acts_then_count simp: inc_orphaned_xorb_def modify_def)
next
  case False
  have "xorb_table.acts row (set_pinned_xorb (s_hash row) sid)" for sid
    unfolding set_pinned_xorb_def
    by (rule xorb_table.update_acts [where g = "pinned_row sid"]) (use False in \<open>auto intro: pin\<close>)
  with False bump_xorb_acts [OF False] show ?thesis
    unfolding reconcile_xorb_row_def load_xorb_body_def
    by (auto intro!: xorb_table.acts_after_sia xorb_table.acts_after_query xorb_table.acts_then_ret
        split: option.split sia_reply.split)
qed

lemma reconcile_shard_acts: "shard_table.acts row (reconcile_shard_row row)"
proof (cases "s_pin_state row = Uploading")
  case True
  have "shard_table.acts row (orphan_shard (s_hash row))"
    unfolding orphan_shard_def
    by (rule shard_table.update_acts [where g = orphaned_row]) (use True in \<open>auto intro: give_up\<close>)
  with True show ?thesis
    unfolding reconcile_shard_row_def
    by (auto intro!: shard_table.acts_then_count simp: inc_orphaned_shard_def modify_def)
next
  case False
  have "shard_table.acts row (set_pinned_shard (s_hash row) sid)" for sid
    unfolding set_pinned_shard_def
    by (rule shard_table.update_acts [where g = "pinned_row sid"]) (use False in \<open>auto intro: pin\<close>)
  with False bump_shard_acts [OF False] show ?thesis
    unfolding reconcile_shard_row_def
    by (auto intro!: shard_table.acts_after_sia shard_table.acts_then_ret split: option.split sia_reply.split)
qed

lemma stuck_of_distinct:
  assumes "distinct (map fst t)" and "\<forall>h\<in>fst ` set t. hash32 h"
  shows "distinct (map s_hash (stuck_of now t))"
proof -
  let ?hits = "filter (\<lambda>hr. is_stuck now (snd hr)) t"
  let ?l = "filter (\<lambda>hr. last_pin_attempt_at (snd hr) = None) ?hits @
     sort_key (\<lambda>hr. the (last_pin_attempt_at (snd hr))) (filter (\<lambda>hr. last_pin_attempt_at (snd hr) \<noteq> None) ?hits)"
  have sub: "set (take n ?l) \<subseteq> set t" for n using set_take_subset [of n ?l] by auto
  have inj: "inj_on fst (set t)" and dt: "distinct t" using assms(1) by (auto simp: distinct_map)
  have "distinct ?l" using dt by auto
  then have "distinct (take RECONCILER_BATCH ?l)" by (rule distinct_take)
  moreover have "inj_on (\<lambda>hr. s_hash (stuck_row hr)) (set (take RECONCILER_BATCH ?l))"
    using inj_on_subset [OF inj sub] assms(2) sub
    by (auto simp: inj_on_def stuck_row_def hash32_def subset_iff image_iff split: if_splits)
  ultimately show ?thesis unfolding stuck_of_def Let_def map_map distinct_map comp_def by blast
qed

lemma stuck_of_rows:
  assumes "distinct (map fst t)" and "\<forall>h\<in>fst ` set t. hash32 h" and "row \<in> set (stuck_of now t)"
  shows "\<exists>r. map_of t (s_hash row) = Some r \<and> s_sia_object_id row = sia_object_id r
        \<and> s_pin_state row = pin_state r \<and> s_pin_attempts row = pin_attempts r \<and> pin_state r \<in> {Uploading, Pinning}"
proof -
  obtain h r where "(h, r) \<in> set t" "is_stuck now r" "row = stuck_row (h, r)"
    using assms(3) by (auto simp: stuck_of_def Let_def dest!: in_set_takeD)
  with assms(1,2) show ?thesis by (auto simp: stuck_row_def hash32_def is_stuck_def image_iff)
qed

definition shard_phase :: "nat \<Rightarrow> ('z, AppError, nat) io" where
  "shard_phase handled =
     bindE fetch_stuck_shards (\<lambda>shard_rows.
     bindE (reconcile_rows reconcile_shard_row shard_rows handled) (\<lambda>handled.
     bindE (if handled > 0 then modify (\<lambda>w. w\<lparr>m_sweeps := m_sweeps w + 1\<rparr>) else ret ()) (\<lambda>_.
     ret handled)))"

lemma reconcile_once_phases:
  "reconcile_once = bindE fetch_stuck_xorbs (\<lambda>rows. bindE (reconcile_rows reconcile_xorb_row rows 0) shard_phase)"
  unfolding reconcile_once_def shard_phase_def ..

lemma shard_phase_xorbs:
  fixes w :: "'z world_scheme"
  shows "xorbs (snd (shard_phase n w)) = xorbs w"
proof -
  have "keeps (\<lambda>w :: 'z world_scheme. xorbs w = X) (shard_phase n)" for X
    unfolding shard_phase_def fetch_stuck_shards_def
    by (auto intro!: keeps_intro keeps_modify keeps_reconcile_rows shards_keep_xorbs.framed
        shards_keep_xorbs.keeps_shard_row)
  then show ?thesis by (simp add: keeps_def)
qed

lemma xorb_rows_shards: "shards (snd (reconcile_rows reconcile_xorb_row rows n w)) = shards w"
proof -
  have "keeps (\<lambda>w'. shards w' = shards w) (reconcile_rows reconcile_xorb_row rows n)"
    by (intro keeps_reconcile_rows xorbs_keep_shards.keeps_xorb_row)
  from keepsD [OF this refl] show ?thesis .
qed

text \<open>Both phases read their rows and work through them; a failing query leaves the table alone.\<close>

definition stays_or_steps :: "(hash \<Rightarrow> 'r pin_row_scheme option) \<Rightarrow> (hash \<Rightarrow> 'r pin_row_scheme option) \<Rightarrow> bool" where
  "stays_or_steps t t' \<longleftrightarrow> (\<forall>h r. t h = Some r \<longrightarrow> (\<exists>r'. t' h = Some r' \<and> pin_step r r'))"

lemma stays_refl: "stays_or_steps t t"
  by (auto simp: stays_or_steps_def intro: stay)

lemma xorb_rows_steps:
  assumes "distinct (map fst (xorbs w))" and "\<forall>h\<in>fst ` set (xorbs w). hash32 h"
  shows "stays_or_steps (map_of (xorbs w))
    (map_of (xorbs (snd (reconcile_rows reconcile_xorb_row (stuck_of now (xorbs w)) n w))))"
  unfolding stays_or_steps_def
proof (intro allI impI)
  fix h r assume "map_of (xorbs w) h = Some r"
  from xorb_table.sweep_rows [OF reconcile_xorb_acts stuck_of_distinct [OF assms, of now] stuck_of_rows [OF assms, where now = now] this]
  show "\<exists>r'. map_of (xorbs (snd (reconcile_rows reconcile_xorb_row (stuck_of now (xorbs w)) n w))) h = Some r'
      \<and> pin_step r r'" by blast
qed

lemma shard_rows_steps:
  assumes "distinct (map fst (shards w))" and "\<forall>h\<in>fst ` set (shards w). hash32 h"
  shows "stays_or_steps (map_of (shards w))
    (map_of (shards (snd (reconcile_rows reconcile_shard_row (stuck_of now (shards w)) n w))))"
  unfolding stays_or_steps_def
proof (intro allI impI)
  fix h r assume "map_of (shards w) h = Some r"
  from shard_table.sweep_rows [OF reconcile_shard_acts stuck_of_distinct [OF assms, of now] stuck_of_rows [OF assms, where now = now] this]
  show "\<exists>r'. map_of (shards (snd (reconcile_rows reconcile_shard_row (stuck_of now (shards w)) n w))) h = Some r'
      \<and> pin_step r r'" by blast
qed

lemma shard_phase_steps:
  assumes "distinct (map fst (shards w))" and "\<forall>h\<in>fst ` set (shards w). hash32 h"
  shows "stays_or_steps (map_of (shards w)) (map_of (shards (snd (shard_phase n w))))"
  unfolding shard_phase_def
proof (rule bind_snd)
  fix e w' assume "fetch_stuck_shards w = (Inl e, w')"
  then show "stays_or_steps (map_of (shards w)) (map_of (shards w'))"
    by (auto simp: fetch_stuck_shards_def db_query_def io_step_def stays_refl split: list.splits if_splits)
next
  fix rows w' assume "fetch_stuck_shards w = (Inr rows, w')"
  then have w': "rows = stuck_of (clock w') (shards w')" "shards w' = shards w"
    by (auto simp: fetch_stuck_shards_def db_query_def io_step_def split: list.splits if_splits)
  have "stays_or_steps (map_of (shards w)) (map_of (shards (snd (reconcile_rows reconcile_shard_row rows n w'))))"
    using shard_rows_steps [of w' "clock w'" n] assms w' by simp
  then show "stays_or_steps (map_of (shards w)) (map_of (shards (snd (bindE (reconcile_rows reconcile_shard_row rows n)
      (\<lambda>handled. bindE (if handled > 0 then modify (\<lambda>w. w\<lparr>m_sweeps := m_sweeps w + 1\<rparr>) else ret ()) (\<lambda>_. ret handled)) w'))))"
    by (auto simp: bindE_def ret_def modify_def split: prod.splits sum.splits)
qed

lemma reconcile_once_steps:
  assumes "distinct (map fst (xorbs w))" "\<forall>h\<in>fst ` set (xorbs w). hash32 h"
    and "distinct (map fst (shards w))" "\<forall>h\<in>fst ` set (shards w). hash32 h"
  shows "stays_or_steps (map_of (xorbs w)) (map_of (xorbs (snd (reconcile_once w))))
    \<and> stays_or_steps (map_of (shards w)) (map_of (shards (snd (reconcile_once w))))"
  unfolding reconcile_once_phases
proof (rule bind_snd)
  fix e w' assume "fetch_stuck_xorbs w = (Inl e, w')"
  then show "stays_or_steps (map_of (xorbs w)) (map_of (xorbs w')) \<and> stays_or_steps (map_of (shards w)) (map_of (shards w'))"
    by (auto simp: fetch_stuck_xorbs_def db_query_def io_step_def stays_refl split: list.splits if_splits)
next
  fix rows w' assume "fetch_stuck_xorbs w = (Inr rows, w')"
  then have w': "rows = stuck_of (clock w') (xorbs w')" "xorbs w' = xorbs w" "shards w' = shards w"
    by (auto simp: fetch_stuck_xorbs_def db_query_def io_step_def split: list.splits if_splits)
  let ?w2 = "snd (reconcile_rows reconcile_xorb_row rows 0 w')"
  have x: "stays_or_steps (map_of (xorbs w)) (map_of (xorbs ?w2))"
    using xorb_rows_steps [of w' "clock w'" 0] assms w' by simp
  have s: "shards ?w2 = shards w" using xorb_rows_shards w' by metis
  show "stays_or_steps (map_of (xorbs w)) (map_of (xorbs (snd (bindE (reconcile_rows reconcile_xorb_row rows 0) shard_phase w'))))
    \<and> stays_or_steps (map_of (shards w)) (map_of (shards (snd (bindE (reconcile_rows reconcile_xorb_row rows 0) shard_phase w'))))"
  proof (rule bind_snd)
    fix e w3 assume "reconcile_rows reconcile_xorb_row rows 0 w' = (Inl e, w3)"
    then show "stays_or_steps (map_of (xorbs w)) (map_of (xorbs w3)) \<and> stays_or_steps (map_of (shards w)) (map_of (shards w3))"
      using x s stays_refl by (metis snd_conv)
  next
    fix a w3 assume "reconcile_rows reconcile_xorb_row rows 0 w' = (Inr a, w3)"
    then have "w3 = ?w2" by simp
    then show "stays_or_steps (map_of (xorbs w)) (map_of (xorbs (snd (shard_phase a w3))))
        \<and> stays_or_steps (map_of (shards w)) (map_of (shards (snd (shard_phase a w3))))"
      using x s shard_phase_steps [of ?w2 a] assms(3,4) by (simp add: shard_phase_xorbs)
  qed
qed

section \<open>Properties\<close>

text \<open>C6: whatever Sia and the database answer, a sweep moves every xorb row and every shard row along
  the documented life cycle and no other way: a row is left alone, marked as tried, counted, pinned,
  or given up, the last only from the uploading state or at the fifth counted failure. Pinned and
  orphaned rows are final for the sweep, and no row disappears.\<close>

theorem sweep_follows_life_cycle:
  assumes "cas_inv w" and "\<forall>h\<in>fst ` set (xorbs w). hash32 h" and "\<forall>h\<in>fst ` set (shards w). hash32 h"
  shows "(\<forall>h r. map_of (xorbs w) h = Some r \<longrightarrow>
      (\<exists>r'. map_of (xorbs (snd (reconcile_once w))) h = Some r' \<and> pin_step r r'))
    \<and> (\<forall>h r. map_of (shards w) h = Some r \<longrightarrow>
      (\<exists>r'. map_of (shards (snd (reconcile_once w))) h = Some r' \<and> pin_step r r'))"
  using reconcile_once_steps [of w] assms by (simp add: cas_inv_def stays_or_steps_def)

definition sia_unavailable :: "'z world_scheme \<Rightarrow> bool" where
  "sia_unavailable w \<longleftrightarrow> (case sia_script w of SiaErr (Unavailable _) # _ \<Rightarrow> True | [] \<Rightarrow> True | _ \<Rightarrow> False)"

lemma sia_op_unavailable:
  "sia_unavailable w \<Longrightarrow> \<exists>m w'. sia_op c w = (Inr (SiaErr (Unavailable m)), w') \<and> xorbs w' = xorbs w \<and> shards w' = shards w"
  by (auto simp: sia_unavailable_def sia_op_def split: list.splits sia_reply.splits SiaAdapterError.splits)

lemma touch_keeps:
  assumes "map_of (xorbs w) h = Some r"
  shows "\<exists>r'. map_of (xorbs (snd (bump_xorb_attempt h n (Unavailable m) w))) h = Some r'
    \<and> pin_state r' = pin_state r \<and> pin_attempts r' = pin_attempts r \<and> sia_object_id r' = sia_object_id r"
  using assms
  by (auto simp: bump_xorb_attempt_def is_transient_def bindE_def ret_def db_update_def io_step_def upd_xorb_def
      map_of_update_row touched_row_def split: list.splits)

lemma touch_keeps_shard:
  assumes "map_of (shards w) h = Some r"
  shows "\<exists>r'. map_of (shards (snd (bump_shard_attempt h n (Unavailable m) w))) h = Some r'
    \<and> pin_state r' = pin_state r \<and> pin_attempts r' = pin_attempts r \<and> sia_object_id r' = sia_object_id r"
  using assms
  by (auto simp: bump_shard_attempt_def is_transient_def bindE_def ret_def db_update_def io_step_def upd_shard_def
      map_of_update_row touched_row_def split: list.splits)

lemma bind_sia_unavailable:
  fixes f :: "sia_reply \<Rightarrow> ('z, 'e, 'a) io"
  assumes "sia_unavailable w" and "\<And>m w'. xorbs w' = xorbs w \<Longrightarrow> shards w' = shards w \<Longrightarrow> P (snd (f (SiaErr (Unavailable m)) w'))"
  shows "P (snd (bindE (sia_op c) f w))"
proof -
  obtain m w' where "sia_op c w = (Inr (SiaErr (Unavailable m)) :: 'e + sia_reply, w')" "xorbs w' = xorbs w" "shards w' = shards w"
    using sia_op_unavailable [OF assms(1)] by blast
  then show ?thesis using assms(2) by (simp add: bindE_def)
qed

lemma unavailable_keeps_xorb:
  assumes "s_pin_state row = Pinning" and "sia_unavailable w" and "map_of (xorbs w) (s_hash row) = Some r"
    and "s_sia_object_id row \<noteq> None \<or> map_of (xorb_bodies w) (s_hash row) \<noteq> None"
  shows "\<exists>r'. map_of (xorbs (snd (reconcile_xorb_row row w))) (s_hash row) = Some r'
    \<and> pin_state r' = pin_state r \<and> pin_attempts r' = pin_attempts r \<and> sia_object_id r' = sia_object_id r"
proof -
  let ?P = "\<lambda>w'. \<exists>r'. map_of (xorbs w') (s_hash row) = Some r'
        \<and> pin_state r' = pin_state r \<and> pin_attempts r' = pin_attempts r \<and> sia_object_id r' = sia_object_id r"
  have ns: "s_pin_state row \<noteq> Uploading" using assms(1) by simp
  show "?P (snd (reconcile_xorb_row row w))"
  proof (cases "s_sia_object_id row")
    case (Some oid)
    have "?P (snd (bindE (sia_op (PinOnly oid)) (\<lambda>reply. case reply of
            SiaOk _ \<Rightarrow> bindE (set_pinned_xorb (s_hash row) oid) (\<lambda>_. ret True)
          | SiaErr e \<Rightarrow> bump_xorb_attempt (s_hash row) (s_pin_attempts row) e
          | SiaTimeout \<Rightarrow> bump_xorb_attempt (s_hash row) (s_pin_attempts row)
                            (SiaOther ''sia pin_only exceeded budget'')) w))"
      by (rule bind_sia_unavailable [OF assms(2)]) (auto intro!: touch_keeps simp: assms(3))
    then show ?thesis using Some ns unfolding reconcile_xorb_row_def by simp
  next
    case None
    with assms(4) obtain bytes where b: "map_of (xorb_bodies w) (s_hash row) = Some bytes" by auto
    show ?thesis
      unfolding reconcile_xorb_row_def if_not_P [OF ns] None option.case
    proof (rule bind_snd)
      fix e w' assume "load_xorb_body (s_hash row) w = (Inl e, w')"
      then show "?P w'" using assms(3)
        by (auto simp: load_xorb_body_def db_query_def io_step_def split: list.splits if_splits)
    next
      fix a w' assume "load_xorb_body (s_hash row) w = (Inr a, w')"
      then have a: "a = Some bytes" "sia_unavailable w'" "xorbs w' = xorbs w"
        using b assms(2)
        by (auto simp: load_xorb_body_def db_query_def io_step_def sia_unavailable_def split: list.splits if_splits)
      show "?P (snd ((case a of Some bytes \<Rightarrow>
              bindE (sia_op (UploadAndPin bytes)) (\<lambda>reply. case reply of
                SiaOk sia_id \<Rightarrow> bindE (set_pinned_xorb (s_hash row) sia_id) (\<lambda>_. ret True)
              | SiaErr e \<Rightarrow> bump_xorb_attempt (s_hash row) (s_pin_attempts row) e
              | SiaTimeout \<Rightarrow> bump_xorb_attempt (s_hash row) (s_pin_attempts row)
                                (SiaOther ''sia upload_and_pin exceeded budget''))
          | None \<Rightarrow> bump_xorb_attempt (s_hash row) (s_pin_attempts row)
                      (SiaOther ''xorb_bodies row is missing'')) w'))"
        unfolding a(1) option.case
        by (rule bind_sia_unavailable [OF a(2)]) (auto intro!: touch_keeps simp: assms(3) a(3))
    qed
  qed
qed

text \<open>An unavailable Sia never costs a row an attempt: whichever of the two tables, the row keeps
  its state, its count and its object id, and can be retried for ever.\<close>

lemma unavailable_sia_costs_no_attempt:
  assumes "s_pin_state row = Pinning" and "sia_unavailable w"
    and "map_of (xorbs w) (s_hash row) = Some r"
    and "s_sia_object_id row \<noteq> None \<or> map_of (xorb_bodies w) (s_hash row) \<noteq> None"
    and "map_of (shards w) (s_hash srow) = Some q" and "s_pin_state srow = Pinning" and "s_sia_object_id srow \<noteq> None"
  shows "(\<exists>r'. map_of (xorbs (snd (reconcile_xorb_row row w))) (s_hash row) = Some r'
        \<and> pin_state r' = pin_state r \<and> pin_attempts r' = pin_attempts r \<and> sia_object_id r' = sia_object_id r)
    \<and> (\<exists>q'. map_of (shards (snd (reconcile_shard_row srow w))) (s_hash srow) = Some q'
        \<and> pin_state q' = pin_state q \<and> pin_attempts q' = pin_attempts q \<and> sia_object_id q' = sia_object_id q)"
proof
  show "\<exists>r'. map_of (xorbs (snd (reconcile_xorb_row row w))) (s_hash row) = Some r'
        \<and> pin_state r' = pin_state r \<and> pin_attempts r' = pin_attempts r \<and> sia_object_id r' = sia_object_id r"
    by (rule unavailable_keeps_xorb [OF assms(1-4)])
  have ns: "s_pin_state srow \<noteq> Uploading" using assms(6) by simp
  obtain oid where oid: "s_sia_object_id srow = Some oid" using assms(7) by auto
  let ?Q = "\<lambda>w'. \<exists>q'. map_of (shards w') (s_hash srow) = Some q'
        \<and> pin_state q' = pin_state q \<and> pin_attempts q' = pin_attempts q \<and> sia_object_id q' = sia_object_id q"
  have "?Q (snd (bindE (sia_op (PinOnly oid)) (\<lambda>reply. case reply of
            SiaOk _ \<Rightarrow> bindE (set_pinned_shard (s_hash srow) oid) (\<lambda>_. ret True)
          | SiaErr e \<Rightarrow> bump_shard_attempt (s_hash srow) (s_pin_attempts srow) e
          | SiaTimeout \<Rightarrow> bump_shard_attempt (s_hash srow) (s_pin_attempts srow)
                            (Unavailable ''sia pin_only exceeded budget'')) w))"
    by (rule bind_sia_unavailable [OF assms(2)]) (auto intro!: touch_keeps_shard simp: assms(5))
  then show "?Q (snd (reconcile_shard_row srow w))"
    using oid ns unfolding reconcile_shard_row_def by simp
qed

text \<open>With a database that answers, a row costs at most one answer of Sia, and calls are only added.\<close>

definition row_effect :: "'z world_scheme \<Rightarrow> 'z world_scheme \<Rightarrow> bool" where
  "row_effect w w' \<longleftrightarrow> faults w' = [] \<and> xorb_bodies w' = xorb_bodies w
     \<and> (\<exists>k\<le>1. sia_script w' = drop k (sia_script w)) \<and> (\<exists>cs. sia_calls w' = sia_calls w @ cs)"

lemma row_effect_sia: "faults w = [] \<Longrightarrow> \<exists>reply v. sia_op c w = (Inr reply :: AppError + sia_reply, v) \<and> row_effect w v"
  by (cases "sia_script w") (auto simp: sia_op_def row_effect_def intro!: exI [of _ "1 :: nat"])

lemma row_effect_xorbs: "row_effect w v \<Longrightarrow> row_effect w (v\<lparr>xorbs := t\<rparr>)" "row_effect w v \<Longrightarrow> row_effect w (v\<lparr>m_orphaned_xorb := n\<rparr>)"
  by (simp_all add: row_effect_def)

lemma row_effect_refl: "faults w = [] \<Longrightarrow> row_effect w w"
  by (auto simp: row_effect_def intro!: exI [of _ "0 :: nat"])

lemma row_effect_update:
  assumes "row_effect w v"
  shows "db_update (\<lambda>w. upd_xorb h (g w) w) v = (Inr (), upd_xorb h (g v) v)" and "row_effect w (upd_xorb h f v)"
  using assms by (simp_all add: db_update_def io_step_def row_effect_def upd_xorb_def)

lemma bump_effect: "row_effect w v \<Longrightarrow> row_effect w (snd (bump_xorb_attempt h n e v))"
  by (simp add: bump_xorb_attempt_def orphan_xorb_def inc_orphaned_xorb_def modify_def bindE_def ret_def
      row_effect_update row_effect_xorbs(2))

lemma step_effects:
  assumes "row_effect w v"
  shows "row_effect w (snd (bindE (set_pinned_xorb h sid) (\<lambda>_. ret True) v))"
    and "row_effect w (snd (bindE (orphan_xorb h) (\<lambda>_. bindE inc_orphaned_xorb (\<lambda>_. ret True)) v))"
  using assms
  by (simp_all add: set_pinned_xorb_def orphan_xorb_def inc_orphaned_xorb_def modify_def bindE_def ret_def row_effect_update row_effect_xorbs(2))

lemma xorb_row_effect:
  assumes "faults w = []"
  shows "row_effect w (snd (reconcile_xorb_row row w))"
proof -
  have load: "bindE (load_xorb_body (s_hash row)) k w = k (map_of (xorb_bodies w) (s_hash row)) w" for k :: "byte list option \<Rightarrow> ('a, AppError, bool) io"
    using assms by (simp add: load_xorb_body_def db_query_def io_step_def bindE_def)
  have call: "row_effect w (snd (bindE (sia_op c) k w))" if "\<And>reply v. row_effect w v \<Longrightarrow> row_effect w (snd (k reply v))"
    for c :: sia_call and k :: "sia_reply \<Rightarrow> ('a, AppError, bool) io"
    using row_effect_sia [OF assms, of c] that by (auto simp: bindE_def)
  show ?thesis
    unfolding reconcile_xorb_row_def using row_effect_refl [OF assms]
    by (auto intro!: call bump_effect step_effects simp: load split: option.split sia_reply.split)
qed

lemma xorb_rows_Cons:
  "snd (reconcile_rows reconcile_xorb_row (row # rows) n w)
    = snd (reconcile_rows reconcile_xorb_row rows (if fst (reconcile_xorb_row row w) = Inr True then n + 1 else n)
        (snd (reconcile_xorb_row row w)))"
  by (auto simp: bindE_def attempt_def split: prod.split sum.split bool.split)

lemma xorb_row_other: "map_of (xorbs w) h = Some r \<Longrightarrow> h \<noteq> s_hash row \<Longrightarrow> map_of (xorbs (snd (reconcile_xorb_row row w))) h = Some r"
  using reconcile_xorb_acts [of row] unfolding xorb_table.acts_def by fastforce

lemma xorb_rows_rest:
  assumes "faults w = []" and "map_of (xorbs w) h = Some r" and "h \<notin> s_hash ` set rows" and "c \<in> set (sia_calls w)"
  shows "map_of (xorbs (snd (reconcile_rows reconcile_xorb_row rows n w))) h = Some r
    \<and> c \<in> set (sia_calls (snd (reconcile_rows reconcile_xorb_row rows n w)))"
  using assms
proof (induction rows arbitrary: n w)
  case (Cons row rows)
  have "row_effect w (snd (reconcile_xorb_row row w))" by (rule xorb_row_effect [OF Cons.prems(1)])
  then have "faults (snd (reconcile_xorb_row row w)) = []" "c \<in> set (sia_calls (snd (reconcile_xorb_row row w)))"
    using Cons.prems(4) by (auto simp: row_effect_def)
  moreover have "map_of (xorbs (snd (reconcile_xorb_row row w))) h = Some r" using Cons.prems(2,3) by (intro xorb_row_other) auto
  ultimately show ?case unfolding xorb_rows_Cons by (intro Cons.IH) (use Cons.prems in auto)
qed (simp add: ret_def)

lemma pending_row_recovered:
  assumes "s_pin_state row = Pinning" and "s_sia_object_id row = None" and "faults w = []"
    and "map_of (xorb_bodies w) (s_hash row) = Some bytes" and "sia_script w = SiaOk sid # rest"
    and "map_of (xorbs w) (s_hash row) = Some r" and "pin_state r = Pinning" and "sia_object_id r = None"
  shows "sia_calls (snd (reconcile_xorb_row row w)) = sia_calls w @ [UploadAndPin bytes]
    \<and> map_of (xorbs (snd (reconcile_xorb_row row w))) (s_hash row) = Some (pinned_row sid (clock w) r)"
  using assms
  by (simp add: reconcile_xorb_row_def load_xorb_body_def db_query_def io_step_def bindE_def sia_op_def
      set_pinned_xorb_def db_update_def ret_def upd_xorb_def map_of_update_row)

lemma pending_rows_recovered:
  assumes "faults w = []" and "distinct (map s_hash rows)" and "row \<in> set rows" and "s_pin_state row = Pinning" and "s_sia_object_id row = None"
    and "map_of (xorbs w) (s_hash row) = Some r" and "pin_state r = Pinning" and "sia_object_id r = None"
    and "map_of (xorb_bodies w) (s_hash row) = Some bytes"
    and "\<forall>reply\<in>set (sia_script w). \<exists>sid. reply = SiaOk sid" and "length rows \<le> length (sia_script w)"
  shows "\<exists>sid now. SiaOk sid \<in> set (sia_script w)
    \<and> map_of (xorbs (snd (reconcile_rows reconcile_xorb_row rows n w))) (s_hash row) = Some (pinned_row sid now r)
    \<and> UploadAndPin bytes \<in> set (sia_calls (snd (reconcile_rows reconcile_xorb_row rows n w)))"
  using assms(1-3,6,9-11)
proof (induction rows arbitrary: n w)
  case (Cons q rows)
  let ?w = "snd (reconcile_xorb_row q w)" let ?n = "if fst (reconcile_xorb_row q w) = Inr True then n + 1 else n"
  from xorb_row_effect [OF Cons.prems(1), of q] obtain k where e: "faults ?w = []" "xorb_bodies ?w = xorb_bodies w"
    "k \<le> 1" "sia_script ?w = drop k (sia_script w)" by (auto simp: row_effect_def)
  show ?case
  proof (cases "s_hash q = s_hash row")
    case True
    with Cons.prems(2,3) have q: "q = row" and rest: "s_hash row \<notin> s_hash ` set rows" by (auto simp: image_iff)
    obtain sid ss where s: "sia_script w = SiaOk sid # ss" using Cons.prems(6,7) by (cases "sia_script w") auto
    from pending_row_recovered [OF assms(4,5) Cons.prems(1,5) s Cons.prems(4) assms(7,8)] q
    have "map_of (xorbs ?w) (s_hash row) = Some (pinned_row sid (clock w) r)" "UploadAndPin bytes \<in> set (sia_calls ?w)" by simp_all
    from xorb_rows_rest [OF e(1) this(1) rest this(2), of ?n]
    have "map_of (xorbs (snd (reconcile_rows reconcile_xorb_row rows ?n ?w))) (s_hash row) = Some (pinned_row sid (clock w) r)
      \<and> UploadAndPin bytes \<in> set (sia_calls (snd (reconcile_rows reconcile_xorb_row rows ?n ?w)))" .
    with s show ?thesis unfolding xorb_rows_Cons by (metis list.set_intros(1))
  next
    case False
    have "\<exists>sid now. SiaOk sid \<in> set (sia_script ?w)
      \<and> map_of (xorbs (snd (reconcile_rows reconcile_xorb_row rows ?n ?w))) (s_hash row) = Some (pinned_row sid now r)
      \<and> UploadAndPin bytes \<in> set (sia_calls (snd (reconcile_rows reconcile_xorb_row rows ?n ?w)))"
    proof (rule Cons.IH [OF e(1)])
      show "map_of (xorbs ?w) (s_hash row) = Some r" by (rule xorb_row_other [OF Cons.prems(4)]) (use False in simp)
      show "length rows \<le> length (sia_script ?w)" using Cons.prems(7) e(3,4) by simp
      show "\<forall>reply\<in>set (sia_script ?w). \<exists>sid. reply = SiaOk sid" using Cons.prems(6) e(4) by (auto dest: in_set_dropD)
    qed (use Cons.prems False e in auto)
    then show ?thesis unfolding xorb_rows_Cons e(4) by (meson in_set_dropD)
  qed
qed simp

lemma stuck_row_selected:
  assumes "(h, r) \<in> set t" and "is_stuck now r" and "length (filter (\<lambda>(_, x). is_stuck now x) t) \<le> RECONCILER_BATCH"
  shows "stuck_row (h, r) \<in> set (stuck_of now t)"
proof -
  let ?hits = "filter (\<lambda>hr. is_stuck now (snd hr)) t"
  let ?never = "filter (\<lambda>hr. last_pin_attempt_at (snd hr) = None) ?hits" and ?tried = "filter (\<lambda>hr. last_pin_attempt_at (snd hr) \<noteq> None) ?hits"
  let ?l = "?never @ sort_key (\<lambda>hr. the (last_pin_attempt_at (snd hr))) ?tried"
  have "length ?l = length ?hits" using sum_length_filter_compl [of "\<lambda>hr. last_pin_attempt_at (snd hr) = None" ?hits] by simp
  moreover have "length ?hits \<le> RECONCILER_BATCH" using assms(3) by (simp add: case_prod_unfold)
  ultimately have t: "take RECONCILER_BATCH ?l = ?l" by (intro take_all) (simp only:)
  have m: "(h, r) \<in> set ?l" using assms(1,2) by auto
  show ?thesis unfolding stuck_of_def Let_def set_map t by (rule imageI [OF m])
qed

lemma shard_update_calls: "sia_calls (snd (db_update (\<lambda>w. upd_shard h (g w) w) w)) = sia_calls w"
  by (auto simp: db_update_def io_step_def upd_shard_def split: list.split)

lemma calls_bind:
  assumes "c \<in> set (sia_calls (snd (m w)))" and "\<And>a w. c \<in> set (sia_calls w) \<Longrightarrow> c \<in> set (sia_calls (snd (k a w)))"
  shows "c \<in> set (sia_calls (snd (bindE m k w)))"
  using assms by (cases "m w") (auto simp: bindE_def split: sum.split)

lemma shard_row_calls: "c \<in> set (sia_calls w) \<Longrightarrow> c \<in> set (sia_calls (snd (reconcile_shard_row row w)))"
  unfolding reconcile_shard_row_def bump_shard_attempt_def orphan_shard_def set_pinned_shard_def inc_orphaned_shard_def modify_def
  by (auto intro!: calls_bind simp: shard_update_calls ret_def sia_op_def split: option.split sia_reply.split list.split)

lemma shard_phase_calls: "c \<in> set (sia_calls w) \<Longrightarrow> c \<in> set (sia_calls (snd (shard_phase n w)))"
proof -
  have "c \<in> set (sia_calls w) \<Longrightarrow> c \<in> set (sia_calls (snd (reconcile_rows reconcile_shard_row rows n w)))" for rows n and w :: "'a world_scheme"
  proof (induction rows arbitrary: n w)
    case (Cons row rows)
    have "snd (attempt (reconcile_shard_row row) w) = snd (reconcile_shard_row row w)" by (simp add: attempt_def split: prod.split)
    with Cons.prems shard_row_calls have "c \<in> set (sia_calls (snd (attempt (reconcile_shard_row row) w)))" by metis
    then show ?case unfolding reconcile_rows.simps by (rule calls_bind) (auto intro: Cons.IH split: sum.split bool.split)
  qed (simp add: ret_def)
  then show "c \<in> set (sia_calls w) \<Longrightarrow> c \<in> set (sia_calls (snd (shard_phase n w)))"
    unfolding shard_phase_def fetch_stuck_shards_def
    by (auto intro!: calls_bind simp: db_query_def io_step_def modify_def ret_def split: list.split)
qed

text \<open>C9: a xorb whose upload never reached Sia is recovered by one sweep. Its row is pinning without an object id, not
  given up, not touched for five minutes, with its body in the cache; at most a batch of rows is stuck, the database
  answers and Sia takes what it is asked. Then the sweep finds the row among whatever else is stuck, uploads exactly
  that body, and leaves the row pinned under an id Sia returned, with its count of attempts unchanged.\<close>

theorem reconcile_recovers_xorb:
  assumes "cas_inv w" and "\<forall>g\<in>fst ` set (xorbs w). hash32 g" and "faults w = []"
    and "map_of (xorbs w) h = Some r" and "pin_state r = Pinning" and "sia_object_id r = None" and "pin_attempts r < 5"
    and "case last_pin_attempt_at r of None \<Rightarrow> True | Some t \<Rightarrow> t < clock w - 300000"
    and "map_of (xorb_bodies w) h = Some bytes"
    and "length (filter (\<lambda>(_, x). is_stuck (clock w) x) (xorbs w)) \<le> 20"
    and "\<forall>reply\<in>set (sia_script w). \<exists>sid. reply = SiaOk sid" and "20 \<le> length (sia_script w)"
  shows "\<exists>sid r'. SiaOk sid \<in> set (sia_script w) \<and> map_of (xorbs (snd (reconcile_once w))) h = Some r'
    \<and> pin_state r' = Pinned \<and> sia_object_id r' = Some sid \<and> pin_attempts r' = pin_attempts r
    \<and> UploadAndPin bytes \<in> set (sia_calls (snd (reconcile_once w)))"
proof -
  let ?rows = "stuck_of (clock w) (xorbs w)" let ?row = "stuck_row (h, r)" let ?w = "snd (reconcile_rows reconcile_xorb_row ?rows 0 w)"
  have d: "distinct (map fst (xorbs w))" using assms(1) by (simp add: cas_inv_def rows_ok_def)
  have in_t: "(h, r) \<in> set (xorbs w)" using assms(4) by (rule map_of_SomeD)
  have h: "s_hash ?row = h" using in_t assms(2) by (force simp: stuck_row_def hash32_def)
  have sel: "?row \<in> set ?rows"
    by (rule stuck_row_selected [OF in_t]) (use assms(5-8,10) in \<open>simp_all add: is_stuck_def RECONCILER_BATCH_def MAX_PIN_ATTEMPTS_def STUCK_THRESHOLD_MS_def split: option.splits\<close>)
  have "length ?rows \<le> 20" by (simp add: stuck_of_def Let_def RECONCILER_BATCH_def)
  then have le: "length ?rows \<le> length (sia_script w)" using assms(12) by linarith
  have pend: "s_pin_state ?row = Pinning" "s_sia_object_id ?row = None" using assms(5,6) by (simp_all add: stuck_row_def)
  from pending_rows_recovered [OF assms(3) stuck_of_distinct [OF d assms(2)] sel pend _ assms(5,6) _ assms(11) le, of bytes 0]
  obtain sid now where r': "SiaOk sid \<in> set (sia_script w)" "map_of (xorbs ?w) h = Some (pinned_row sid now r)"
    "UploadAndPin bytes \<in> set (sia_calls ?w)" using h assms(4,9) by auto
  have q: "bindE fetch_stuck_xorbs k w = k ?rows w" for k :: "StuckRow list \<Rightarrow> ('a, AppError, nat) io"
    using assms(3) by (simp add: fetch_stuck_xorbs_def db_query_def io_step_def bindE_def)
  have "map_of (xorbs (snd (reconcile_once w))) h = Some (pinned_row sid now r) \<and> UploadAndPin bytes \<in> set (sia_calls (snd (reconcile_once w)))"
    unfolding reconcile_once_phases q
    by (rule bind_snd) (use r' in \<open>auto simp: shard_phase_xorbs shard_phase_calls\<close>)
  with r'(1) assms(5,6) show ?thesis by (auto simp: pinned_row_def coalesce_id_def)
qed

text \<open>C36: a shard whose upload never reached Sia is never recovered: with no object id the sweep makes
  no Sia call at all, whatever the network would answer, and only counts the row towards its end;
  the fifth count orphans it. The upload handler counts on the reconciler to retry.\<close>

theorem shard_without_id_is_never_uploaded:
  assumes "s_pin_state row = Pinning" and "s_sia_object_id row = None" and "faults w = []"
    and "map_of (shards w) (s_hash row) = Some r"
  shows "sia_calls (snd (reconcile_shard_row row w)) = sia_calls w
    \<and> map_of (shards (snd (reconcile_shard_row row w))) (s_hash row) =
        Some (if MAX_PIN_ATTEMPTS \<le> s_pin_attempts row + 1 then orphaned_row (clock w) r else bumped_row (clock w) r)"
  using assms
  by (simp add: reconcile_shard_row_def bump_shard_attempt_def is_transient_def orphan_shard_def
      inc_orphaned_shard_def modify_def io_step_def bindE_def db_update_def ret_def upd_shard_def map_of_update_row)

text \<open>The sweep can undo a pin. If an upload handler pins the row after the sweep has read it, and
  the sweep's own attempt fails for the fifth time, the row ends orphaned although Sia holds the
  object: the update has no guard on the state.\<close>

lemma sweep_can_orphan_a_pinned_xorb:
  assumes "faults w = []" and "map_of (xorbs w) h = Some r" and "pin_state r = Pinned"
    and "MAX_PIN_ATTEMPTS \<le> read_attempts + 1" and "\<not> is_transient err"
  shows "\<exists>r'. map_of (xorbs (snd (bump_xorb_attempt h read_attempts err w))) h = Some r'
    \<and> pin_state r' = Orphaned \<and> sia_object_id r' = sia_object_id r"
  using assms
  by (simp add: bump_xorb_attempt_def orphan_xorb_def inc_orphaned_xorb_def modify_def io_step_def bindE_def
      db_update_def ret_def upd_xorb_def map_of_update_row orphaned_row_def)

section \<open>Witnesses\<close>

lemma ex_world_inv: "cas_inv ex_world"
  by (simp add: cas_inv_def rows_ok_def ex_world_def empty_world_def ex_xorb_def ex_term_def term_key_def row_ok_def
      fresh_xorb_row_def fresh_pin_row_def pin_row.extend_def)

lemma ex_world_keys: "\<forall>h\<in>fst ` set (xorbs ex_world). hash32 h" "\<forall>h\<in>fst ` set (shards ex_world). hash32 h"
  by (simp_all add: ex_world_def hash32_def)

definition ex_pending :: world where
  "ex_pending = ex_world\<lparr>xorbs := [(replicate 32 1, ex_xorb Pinned), (replicate 32 2, fresh_xorb_row 3 1 1 0 [])], xorb_bodies := [(replicate 32 2, [5, 6, 7])],
     shards := [(replicate 32 9, (fresh_pin_row 10 1 1 0)\<lparr>sia_object_id := Some [3]\<rparr>)], sia_script := [SiaOk [4]]\<rparr>"

lemmas ex_defs = ex_pending_def ex_world_def empty_world_def ex_xorb_def fresh_xorb_row_def fresh_pin_row_def
  pin_row.extend_def stuck_row_def

theorem sweep_follows_life_cycle_witness:
  "\<exists>r'. map_of (xorbs (snd (reconcile_once ex_world))) (replicate 32 2) = Some r' \<and> pin_step (ex_xorb Pinning) r'"
  using sweep_follows_life_cycle [OF ex_world_inv ex_world_keys] by (simp add: ex_world_def)

lemma unavailable_sia_costs_no_attempt_witness:
  "\<exists>r'. map_of (xorbs (snd (reconcile_xorb_row (stuck_row (replicate 32 2, fresh_xorb_row 3 1 1 0 []))
       (ex_pending\<lparr>sia_script := []\<rparr>)))) (replicate 32 2) = Some r' \<and> pin_state r' = Pinning \<and> pin_attempts r' = 0"
  using unavailable_sia_costs_no_attempt [of "stuck_row (replicate 32 2, fresh_xorb_row 3 1 1 0 [])"
      "ex_pending\<lparr>sia_script := []\<rparr>" "fresh_xorb_row 3 1 1 0 []"
      "stuck_row (replicate 32 9, (fresh_pin_row 10 1 1 0)\<lparr>sia_object_id := Some [3]\<rparr>)"
      "(fresh_pin_row 10 1 1 0)\<lparr>sia_object_id := Some [3]\<rparr>"]
  by (auto simp: ex_defs sia_unavailable_def)

theorem reconcile_recovers_xorb_witness:
  "\<exists>r'. map_of (xorbs (snd (reconcile_once (ex_pending\<lparr>sia_script := replicate 20 (SiaOk [4])\<rparr>)))) (replicate 32 2) = Some r'
     \<and> pin_state r' = Pinned \<and> sia_object_id r' = Some [4]"
proof -
  let ?w = "ex_pending\<lparr>sia_script := replicate 20 (SiaOk [4])\<rparr>" and ?r = "fresh_xorb_row 3 1 1 0 []"
  have "\<exists>sid r'. SiaOk sid \<in> set (sia_script ?w) \<and> map_of (xorbs (snd (reconcile_once ?w))) (replicate 32 2) = Some r'
    \<and> pin_state r' = Pinned \<and> sia_object_id r' = Some sid \<and> pin_attempts r' = pin_attempts ?r
    \<and> UploadAndPin [5, 6, 7] \<in> set (sia_calls (snd (reconcile_once ?w)))"
    by (rule reconcile_recovers_xorb)
      (simp_all add: ex_defs hash32_def cas_inv_def rows_ok_def ex_term_def term_key_def row_ok_def)
  then show ?thesis by auto
qed

theorem shard_without_id_is_never_uploaded_witness:
  "sia_calls (snd (reconcile_shard_row (stuck_row (replicate 32 9, fresh_pin_row 10 1 1 0)) ex_world)) = []
   \<and> map_of (shards (snd (reconcile_shard_row (stuck_row (replicate 32 9, fresh_pin_row 10 1 1 0)) ex_world))) (replicate 32 9)
     = Some (bumped_row 0 (fresh_pin_row 10 1 1 0))"
  using shard_without_id_is_never_uploaded [of "stuck_row (replicate 32 9, fresh_pin_row 10 1 1 0)" ex_world "fresh_pin_row 10 1 1 0"]
  by (simp add: ex_defs MAX_PIN_ATTEMPTS_def)

lemma sweep_can_orphan_a_pinned_xorb_witness:
  "\<exists>r'. map_of (xorbs (snd (bump_xorb_attempt (replicate 32 1) 4 (SiaOther ''lost'') ex_world))) (replicate 32 1) = Some r'
     \<and> pin_state r' = Orphaned \<and> sia_object_id r' = Some [1]"
  using sweep_can_orphan_a_pinned_xorb [of ex_world "replicate 32 1" "ex_xorb Pinned" 4 "SiaOther ''lost''"]
  by (simp add: ex_defs MAX_PIN_ATTEMPTS_def is_transient_def)

end
