(* ===== verification/Hex_Codec.thy ===== *)
theory Hex_Codec
  imports CAS_Prelude
begin

unbundle bit_operations_syntax

text \<open>
  Hexadecimal codecs. The code base writes lower-case hex in four places and reads it in four; the
  32 byte readers are compared with each other and with the writers, and the reader of the
  HF-compatible API, which slices a UTF-8 string by byte offsets, is modelled with its panic.
  Strings are lists of bytes, written as \<open>char\<close>.
\<close>

section \<open>Digits\<close>

definition hex_digit :: "nat \<Rightarrow> char" where
  "hex_digit d = (if d < 10 then char_of (48 + d) else char_of (87 + d))"

definition to_digit16 :: "char \<Rightarrow> nat option" where
  "to_digit16 c = (let n = of_char c :: nat in
     if 48 \<le> n \<and> n \<le> 57 then Some (n - 48)
     else if 97 \<le> n \<and> n \<le> 102 then Some (n - 87)
     else if 65 \<le> n \<and> n \<le> 70 then Some (n - 55)
     else None)"

definition hex_byte :: "byte \<Rightarrow> string" where
  "hex_byte b = [hex_digit (unat b div 16), hex_digit (unat b mod 16)]"

section \<open>Writers\<close>

text \<open>\<^verbatim>\<open>write!(s, "{b:02x}")\<close> for every byte (shard parser, reconciler, HF API) and the
  \<^verbatim>\<open>char::from_digit\<close> loop of the admin listing.\<close>

definition hex_of :: "byte list \<Rightarrow> string" where
  "hex_of h = concat (map hex_byte h)"

definition hex_encode :: "byte list \<Rightarrow> string" where
  "hex_encode bytes = fold (\<lambda>b s. s @ hex_byte b) bytes []"

definition lowercase_hex :: "byte list \<Rightarrow> string" where
  "lowercase_hex bytes =
     fold (\<lambda>b s. (s @ [hex_digit (unat (drop_bit 4 b))]) @ [hex_digit (unat (b AND 15))]) bytes []"

section \<open>Readers\<close>

fun hex_pairs :: "(nat \<Rightarrow> nat \<Rightarrow> byte) \<Rightarrow> string \<Rightarrow> byte list option" where
  "hex_pairs comb (a # b # r) =
     (case to_digit16 a of None \<Rightarrow> None | Some hi \<Rightarrow>
       (case to_digit16 b of None \<Rightarrow> None | Some lo \<Rightarrow>
         map_option ((#) (comb hi lo)) (hex_pairs comb r)))"
| "hex_pairs comb _ = Some []"

definition decode_hex32 :: "string \<Rightarrow> hash option" where
  "decode_hex32 s =
     (if length s \<noteq> 64 then None else hex_pairs (\<lambda>hi lo. of_nat (push_bit 4 hi OR lo)) s)"

definition decode_file_id_hex :: "string \<Rightarrow> hash option" where
  "decode_file_id_hex s =
     (if length s \<noteq> 64 then None else hex_pairs (\<lambda>hi lo. of_nat (hi * 16 + lo)) s)"

definition decode_xorb_hash_hex :: "string \<Rightarrow> hash option" where
  "decode_xorb_hash_hex s =
     (if length s \<noteq> 64 then None else hex_pairs (\<lambda>hi lo. of_nat (push_bit 4 hi OR lo)) s)"

text \<open>\<^verbatim>\<open>hfapi::hex_decode\<close>: an optional \<^verbatim>\<open>sha256:\<close>, an even length, then
  \<^verbatim>\<open>u8::from_str_radix(&s[i..i+2], 16)\<close> for every pair. Slicing off a character boundary panics;
  \<^verbatim>\<open>from_str_radix\<close> accepts a leading plus sign.\<close>

datatype panic = SliceNotOnCharBoundary

definition continuation_byte :: "char \<Rightarrow> bool" where
  "continuation_byte c \<longleftrightarrow> 128 \<le> (of_char c :: nat) \<and> (of_char c :: nat) < 192"

definition u8_from_str_radix16 :: "char \<Rightarrow> char \<Rightarrow> byte option" where
  "u8_from_str_radix16 a b =
     (if a = CHR ''+'' then map_option of_nat (to_digit16 b)
      else case to_digit16 a of None \<Rightarrow> None | Some hi \<Rightarrow>
             map_option (\<lambda>lo. of_nat (16 * hi + lo)) (to_digit16 b))"

fun hex_decode_pairs :: "string \<Rightarrow> panic + byte list option" where
  "hex_decode_pairs (a # b # r) =
     (if continuation_byte a \<or> (r \<noteq> [] \<and> continuation_byte (hd r)) then Inl SliceNotOnCharBoundary
      else case u8_from_str_radix16 a b of
             None \<Rightarrow> Inr None
           | Some v \<Rightarrow> map_sum id (map_option ((#) v)) (hex_decode_pairs r))"
| "hex_decode_pairs _ = Inr (Some [])"

definition hex_decode :: "string \<Rightarrow> panic + byte list option" where
  "hex_decode s0 =
     (let s = (case strip_prefix ''sha256:'' s0 of None \<Rightarrow> s0 | Some r \<Rightarrow> r)
      in if length s mod 2 \<noteq> 0 then Inr None else hex_decode_pairs s)"

section \<open>Facts\<close>

lemma to_digit16_hex_digit [simp]: "d < 16 \<Longrightarrow> to_digit16 (hex_digit d) = Some d"
  by (auto simp: to_digit16_def hex_digit_def)

lemma to_digit16_less: "to_digit16 c = Some d \<Longrightarrow> d < 16"
  by (auto simp: to_digit16_def Let_def split: if_splits)

lemma unat_byte_less: "unat (b::byte) < 256"
  using unsigned_less [of b, where ?'a = nat] by simp

lemma or_eq_plus: "lo < 16 \<Longrightarrow> push_bit 4 hi OR lo = 16 * hi + (lo::nat)"
proof -
  assume "lo < 16"
  then have "take_bit 4 lo = lo" by (simp add: take_bit_nat_eq_self)
  then have "push_bit 4 hi + lo = push_bit 4 hi OR lo"
    by (intro disjunctive_add) (metis bit_push_bit_iff bit_take_bit_iff leD)
  then show ?thesis by (simp add: push_bit_eq_mult)
qed

lemma hex_pairs_cong:
  "(\<And>hi lo. lo < 16 \<Longrightarrow> f hi lo = g hi lo) \<Longrightarrow> hex_pairs f s = hex_pairs g s"
  by (induction f s rule: hex_pairs.induct) (auto split: option.splits dest: to_digit16_less)

lemma hex_encode_eq_hex_of: "hex_encode bs = hex_of bs"
proof -
  have "fold (\<lambda>b s. s @ hex_byte b) bs acc = acc @ hex_of bs" for acc
    by (induction bs arbitrary: acc) (auto simp: hex_of_def)
  then show ?thesis by (simp add: hex_encode_def)
qed

lemma high_nibble: "unat (drop_bit 4 (b::byte)) = unat b div 16"
  unfolding unat_drop_bit_eq by (simp add: drop_bit_eq_div)

lemma low_nibble: "unat ((b::byte) AND 15) = unat b mod 16"
proof -
  have "b AND 15 = take_bit 4 b"
    by (simp add: take_bit_eq_mask mask_eq_exp_minus_1)
  then have "unat (b AND 15) = take_bit 4 (unat b)"
    by (simp add: unsigned_take_bit_eq)
  then show ?thesis
    by (simp add: take_bit_eq_mod)
qed

lemma word_unat_id: "of_nat (unat b) = (b::byte)"
  by simp

lemma of_nat_nibbles: "(of_nat (16 * (unat b div 16) + unat b mod 16) :: byte) = b"
  unfolding mult_div_mod_eq by (rule word_unat_id)

lemma length_hex_of [simp]: "length (hex_of bs) = 2 * length bs"
  by (induction bs) (auto simp: hex_of_def hex_byte_def)

lemma hex_of_Cons: "hex_of (b # bs) = hex_digit (unat b div 16) # hex_digit (unat b mod 16) # hex_of bs"
  by (simp add: hex_of_def hex_byte_def)

lemma hex_of_Nil [simp]: "hex_of [] = []"
  by (simp add: hex_of_def)

lemma hex_pairs_hex_of: "hex_pairs (\<lambda>hi lo. of_nat (16 * hi + lo)) (hex_of bs) = Some bs"
proof (induction bs)
  case (Cons b bs)
  have "unat b div 16 < 16" using unat_byte_less [of b] by simp
  then show ?case using Cons
    by (simp add: hex_of_Cons of_nat_nibbles del: of_nat_add of_nat_mult mult_div_mod_eq)
qed simp

lemma decode_hex32_alt:
  "decode_hex32 s = (if length s \<noteq> 64 then None else hex_pairs (\<lambda>hi lo. of_nat (16 * hi + lo)) s)"
  unfolding decode_hex32_def by (auto intro!: hex_pairs_cong simp: or_eq_plus)

lemma decode_file_id_hex_alt: "decode_file_id_hex s = decode_hex32 s"
  unfolding decode_hex32_alt decode_file_id_hex_def by (simp add: mult.commute)

lemma decode_xorb_hash_hex_alt: "decode_xorb_hash_hex s = decode_hex32 s"
  unfolding decode_xorb_hash_hex_def decode_hex32_def ..

lemma lowercase_hex_eq_hex_of: "lowercase_hex bs = hex_of bs"
proof -
  have "fold (\<lambda>b s. (s @ [hex_digit (unat (drop_bit 4 b))]) @ [hex_digit (unat (b AND 15))]) bs acc
      = acc @ hex_of bs" for acc
    by (induction bs arbitrary: acc) (auto simp: hex_of_Cons high_nibble low_nibble)
  then show ?thesis by (simp add: lowercase_hex_def)
qed

lemma decode_hex32_hex_of: "hash32 h \<Longrightarrow> decode_hex32 (hex_of h) = Some h"
  unfolding decode_hex32_alt hex_pairs_hex_of by (simp add: hash32_def)

lemma decode_hex32_length: "decode_hex32 s = Some h \<Longrightarrow> hash32 h"
proof -
  have "hex_pairs f s = Some h \<Longrightarrow> length h = length s div 2" for f s h
    by (induction f s arbitrary: h rule: hex_pairs.induct) (auto split: option.splits)
  then show "decode_hex32 s = Some h \<Longrightarrow> hash32 h"
    by (auto simp: decode_hex32_alt hash32_def split: if_splits)
qed

definition lower_hex_char :: "char \<Rightarrow> bool" where
  "lower_hex_char c \<longleftrightarrow> (\<exists>d<16. c = hex_digit d)"

lemma hex_of_chars: "c \<in> set (hex_of bs) \<Longrightarrow> lower_hex_char c"
proof (induction bs)
  case (Cons b bs)
  have "unat b div 16 < 16" using unat_byte_less [of b] by simp
  moreover have "unat b mod 16 < 16" by simp
  ultimately show ?case
    using Cons unfolding hex_of_Cons lower_hex_char_def by (metis set_ConsD)
qed simp

lemma lower_hex_char_code:
  "lower_hex_char c \<Longrightarrow> (48 \<le> (of_char c :: nat) \<and> (of_char c :: nat) \<le> 57) \<or> (97 \<le> (of_char c :: nat) \<and> (of_char c :: nat) \<le> 102)"
  by (auto simp: lower_hex_char_def hex_digit_def split: if_splits)

interpretation hex32: text_codec hex_of decode_hex32 hash32
  "\<lambda>s. length s = 64 \<and> (\<forall>c\<in>set s. lower_hex_char c)"
  by unfold_locales (auto simp: decode_hex32_hex_of hash32_def dest: hex_of_chars)

definition ascii :: "string \<Rightarrow> bool" where
  "ascii s \<longleftrightarrow> (\<forall>c\<in>set s. (of_char c :: nat) < 128)"

lemma hex_decode_pairs_ascii: "ascii s \<Longrightarrow> \<exists>r. hex_decode_pairs s = Inr r"
proof (induction s rule: hex_decode_pairs.induct)
  case (1 a b r)
  have "\<not> continuation_byte a" "ascii r"
    using 1(2) by (auto simp: ascii_def continuation_byte_def)
  moreover have "r \<noteq> [] \<longrightarrow> \<not> continuation_byte (hd r)"
    using 1(2) hd_in_set [of r] by (auto simp: ascii_def continuation_byte_def not_le)
  ultimately show ?case using 1(1) by (auto split: option.splits)
qed auto

lemma hex_decode_pairs_hex_of: "hex_decode_pairs (hex_of bs) = Inr (Some bs)"
proof (induction bs)
  case (Cons b bs)
  have d: "unat b div 16 < 16" "unat b mod 16 < 16" using unat_byte_less [of b] by simp_all
  have nc: "\<not> continuation_byte c" if "lower_hex_char c" for c
    using lower_hex_char_code [OF that] by (auto simp: continuation_byte_def)
  have "hex_digit (unat b div 16) \<noteq> CHR ''+''"
    using lower_hex_char_code [of "CHR ''+''"] d(1) by (force simp: lower_hex_char_def)
  moreover have "\<not> continuation_byte (hex_digit (unat b div 16))"
    using d(1) by (intro nc) (auto simp: lower_hex_char_def)
  moreover have "hex_of bs \<noteq> [] \<longrightarrow> \<not> continuation_byte (hd (hex_of bs))"
    using nc hex_of_chars hd_in_set by blast
  ultimately show ?case using Cons d
    by (auto simp add: hex_of_Cons u8_from_str_radix16_def of_nat_nibbles
        simp del: of_nat_add of_nat_mult mult_div_mod_eq)
qed simp

lemma hex_of_no_prefix: "strip_prefix ''sha256:'' (hex_of bs) = None"
proof (rule ccontr)
  assume "strip_prefix ''sha256:'' (hex_of bs) \<noteq> None"
  then obtain r where "hex_of bs = ''sha256:'' @ r"
    using strip_prefix_SomeD by blast
  then have "CHR ''s'' \<in> set (hex_of bs)" by simp
  from lower_hex_char_code [OF hex_of_chars [OF this]] show False by simp
qed

section \<open>Properties\<close>

text \<open>Every writer of the code base prints the same text for a 32 byte hash, and every reader
  reads it back: shard parser, reconstruction handler, admin listing and HF API agree.\<close>

lemma hex_writers_and_readers_agree:
  assumes "hash32 h"
  shows "hex_encode h = hex_of h \<and> lowercase_hex h = hex_of h
    \<and> decode_hex32 (hex_of h) = Some h \<and> decode_file_id_hex (hex_of h) = Some h
    \<and> decode_xorb_hash_hex (hex_of h) = Some h \<and> hex_decode (hex_of h) = Inr (Some h)
    \<and> hex_decode (''sha256:'' @ hex_of h) = Inr (Some h)"
  using assms decode_hex32_hex_of [OF assms]
  by (simp add: hex_encode_eq_hex_of lowercase_hex_eq_hex_of decode_file_id_hex_alt
      decode_xorb_hash_hex_alt hex_decode_def hex_of_no_prefix
      hex_decode_pairs_hex_of del: append_Cons)

text \<open>On every text, valid or not, the three 32 byte readers return the same answer, and what
  they accept is a 32 byte hash.\<close>

lemma hex32_readers_equal:
  "decode_file_id_hex s = decode_hex32 s \<and> decode_xorb_hash_hex s = decode_hex32 s
   \<and> pred_option hash32 (decode_hex32 s)"
  using decode_hex32_length [of s]
  by (auto simp: decode_file_id_hex_alt decode_xorb_hash_hex_alt
      split: option.splits simp: pred_option_def)

text \<open>The HF API reader never panics on ASCII text.\<close>

lemma hex_decode_ascii_no_panic:
  assumes "ascii s"
  shows "\<exists>r. hex_decode s = Inr r"
proof -
  have "ascii r" if "strip_prefix p s = Some r" for p r
    using strip_prefix_SomeD [OF that] assms by (simp add: ascii_def)
  then show ?thesis
    using assms hex_decode_pairs_ascii by (auto simp: hex_decode_def Let_def split: option.splits)
qed

text \<open>It does panic on a well-formed UTF-8 path segment: the letter a, a two byte character, and
  the letter b make an even number of bytes with a character across the first pair.\<close>

lemma hex_decode_panics_inside_character:
  assumes "\<not> continuation_byte a" and "to_digit16 a = Some hi" and "a \<noteq> CHR ''+''"
    and "\<not> continuation_byte c2" and "continuation_byte c3"
  shows "hex_decode [a, c2, c3, d] = Inl SliceNotOnCharBoundary"
  using assms by (auto simp: hex_decode_def Let_def split: option.splits)

section \<open>Witnesses\<close>

lemma hex_writers_and_readers_agree_witness:
  "hash32 (replicate 32 171) \<and> hex_decode (hex_of (replicate 32 171)) = Inr (Some (replicate 32 171))"
  using hex_writers_and_readers_agree [of "replicate 32 171"] by (simp add: hash32_def)


end
