(* ===== verification/Signed_Url.thy ===== *)
theory Signed_Url
  imports Hex_Codec
begin

text \<open>
  The HMAC-signed gateway URLs of \<^verbatim>\<open>signed_url.rs\<close>: the canonical string, the two minters, the
  verifier with its key rotation, and the loading of the signing keys. The crates the module calls
  (HMAC, base64, url, uuid, the Merkle hash notation) are the fields of the record \<open>url_ext\<close>; what
  their documentation promises is the predicate \<open>url_ext_laws\<close>.
\<close>

section \<open>The crates the module calls\<close>

record url_ext =
  x_hmac_new :: "byte list \<Rightarrow> byte list option"
  x_hmac :: "byte list \<Rightarrow> byte list \<Rightarrow> byte list"
  x_b64_std_decode :: "string \<Rightarrow> byte list option"
  x_b64_url_encode :: "byte list \<Rightarrow> string"
  x_b64_url_decode :: "string \<Rightarrow> byte list option"
  x_uuid_show :: "uuid \<Rightarrow> string"
  x_uuid_parse :: "string \<Rightarrow> uuid option"
  x_merkle_hex :: "hash \<Rightarrow> string"
  x_url_build :: "string \<Rightarrow> string \<Rightarrow> (string \<times> string) list \<Rightarrow> string"
  x_url_parse :: "string \<Rightarrow> (string \<times> (string \<times> string) list) option"

text \<open>\<open>x_url_build base path pairs\<close> stands for \<^verbatim>\<open>set_path\<close>, the \<^verbatim>\<open>append_pair\<close> calls and
  \<^verbatim>\<open>to_string\<close> on a copy of the base URL; \<open>x_url_parse\<close> for \<^verbatim>\<open>Url::parse\<close> with \<^verbatim>\<open>path()\<close> and
  \<^verbatim>\<open>query_pairs()\<close>.\<close>

section \<open>Data\<close>

datatype SignerError = KeyNotBase64 | InvalidKeyLength nat | HmacInit

datatype VerifyErr = Malformed string | Expired | BadSignature

record VerifyOk =
  xorb_hash_hex :: string
  exp :: u64
  ranges :: "(u64 \<times> u64) list"
  kid :: uuid
  accepted_by_prev_key :: bool

record UrlSigner =
  key_current :: "byte list"
  key_prev :: "byte list option"
  gateway_base :: string
  default_ttl_secs :: u64

definition SIGNING_KEY_LEN :: nat where
  "SIGNING_KEY_LEN = 32"

definition CANONICAL_VERSION :: string where
  "CANONICAL_VERSION = ''v1''"

abbreviation LF :: char where
  "LF \<equiv> CHR 0x0A"

section \<open>Keys\<close>

definition load_hmac_key :: "url_ext \<Rightarrow> string \<Rightarrow> SignerError + byte list" where
  "load_hmac_key E key_b64 =
     (case x_b64_std_decode E key_b64 of
        None \<Rightarrow> Inl KeyNotBase64
      | Some bytes \<Rightarrow>
          if length bytes \<noteq> SIGNING_KEY_LEN then Inl (InvalidKeyLength (length bytes))
          else ok_or HmacInit (x_hmac_new E bytes))"

definition UrlSigner_new ::
  "url_ext \<Rightarrow> string \<Rightarrow> string option \<Rightarrow> string \<Rightarrow> u64 \<Rightarrow> SignerError + UrlSigner" where
  "UrlSigner_new E cur prev base ttl =
     (case load_hmac_key E cur of
        Inl e \<Rightarrow> Inl e
      | Inr kc \<Rightarrow>
          (case prev of
             None \<Rightarrow> Inr \<lparr>key_current = kc, key_prev = None, gateway_base = base, default_ttl_secs = ttl\<rparr>
           | Some p \<Rightarrow>
               (case load_hmac_key E p of
                  Inl e \<Rightarrow> Inl e
                | Inr kp \<Rightarrow> Inr \<lparr>key_current = kc, key_prev = Some kp, gateway_base = base,
                                 default_ttl_secs = ttl\<rparr>)))"

section \<open>The canonical string and the minters\<close>

definition canonical_string_raw :: "url_ext \<Rightarrow> string \<Rightarrow> string \<Rightarrow> u64 \<Rightarrow> string \<Rightarrow> uuid \<Rightarrow> string" where
  "canonical_string_raw E version hex ex r_field k =
     version @ [LF] @ hex @ [LF] @ show_u64 ex @ [LF] @ r_field @ [LF] @ x_uuid_show E k"

definition segment_str :: "u64 \<times> u64 \<Rightarrow> string" where
  "segment_str se = show_u64 (fst se) @ ''-'' @ show_u64 (snd se)"

definition canonical_string ::
  "url_ext \<Rightarrow> string \<Rightarrow> string \<Rightarrow> u64 \<Rightarrow> (u64 \<times> u64) option \<Rightarrow> uuid \<Rightarrow> string" where
  "canonical_string E version hex ex rng k =
     canonical_string_raw E version hex ex
       (case rng of Some se \<Rightarrow> segment_str se | None \<Rightarrow> []) k"

definition sign_with :: "url_ext \<Rightarrow> byte list \<Rightarrow> string \<Rightarrow> string" where
  "sign_with E key canonical = x_b64_url_encode E (x_hmac E key (as_bytes canonical))"

definition mint_v1 ::
  "url_ext \<Rightarrow> UrlSigner \<Rightarrow> hash \<Rightarrow> (u64 \<times> u64) option \<Rightarrow> uuid \<Rightarrow> u64 \<Rightarrow> string" where
  "mint_v1 E S xorb_hash rng k now =
     (let ex = saturating_add now (default_ttl_secs S);
          hex = x_merkle_hex E xorb_hash;
          sig = sign_with E (key_current S) (canonical_string E CANONICAL_VERSION hex ex rng k)
      in x_url_build E (gateway_base S) (''/xorb/'' @ hex)
           ([(''exp'', show_u64 ex), (''kid'', x_uuid_show E k), (''sig'', sig)]
            @ (case rng of Some se \<Rightarrow> [(''r'', segment_str se)] | None \<Rightarrow> [])))"

text \<open>\<^verbatim>\<open>assert!(!segments.is_empty())\<close> panics: \<open>None\<close>.\<close>

definition mint_v1_multi_range ::
  "url_ext \<Rightarrow> UrlSigner \<Rightarrow> hash \<Rightarrow> (u64 \<times> u64) list \<Rightarrow> uuid \<Rightarrow> u64 \<Rightarrow> string option" where
  "mint_v1_multi_range E S xorb_hash segments k now =
     (if segments = [] then None
      else let ex = saturating_add now (default_ttl_secs S);
               hex = x_merkle_hex E xorb_hash;
               r_str = join '','' (map segment_str segments);
               sig = sign_with E (key_current S)
                       (canonical_string_raw E CANONICAL_VERSION hex ex r_str k)
           in Some (x_url_build E (gateway_base S) (''/xorb/'' @ hex)
                [(''exp'', show_u64 ex), (''kid'', x_uuid_show E k), (''sig'', sig), (''r'', r_str)]))"

section \<open>The verifier\<close>

fun parse_segments :: "string list \<Rightarrow> (u64 \<times> u64) list option" where
  "parse_segments [] = Some []"
| "parse_segments (part # parts) =
     (case split_once (CHR ''-'') part of
        None \<Rightarrow> None
      | Some (s, e) \<Rightarrow>
          (case parse_u64 s of None \<Rightarrow> None | Some st \<Rightarrow>
            (case parse_u64 e of None \<Rightarrow> None | Some en \<Rightarrow>
              if en < st then None else map_option ((#) (st, en)) (parse_segments parts))))"

definition parse_range_segments :: "string \<Rightarrow> (u64 \<times> u64) list option" where
  "parse_range_segments s =
     (if s = [] then None
      else case parse_segments (split_on (CHR '','') s) of
             None \<Rightarrow> None
           | Some out \<Rightarrow> if out = [] then None else Some out)"

definition is_ascii_digit :: "char \<Rightarrow> bool" where
  "is_ascii_digit c \<longleftrightarrow> 48 \<le> (of_char c :: nat) \<and> (of_char c :: nat) \<le> 57"

definition is_ascii_hexdigit :: "char \<Rightarrow> bool" where
  "is_ascii_hexdigit c \<longleftrightarrow> is_ascii_digit c
     \<or> (97 \<le> (of_char c :: nat) \<and> (of_char c :: nat) \<le> 102)
     \<or> (65 \<le> (of_char c :: nat) \<and> (of_char c :: nat) \<le> 70)"

definition is_ascii_uppercase :: "char \<Rightarrow> bool" where
  "is_ascii_uppercase c \<longleftrightarrow> 65 \<le> (of_char c :: nat) \<and> (of_char c :: nat) \<le> 90"

definition ct_eq :: "byte list \<Rightarrow> byte list \<Rightarrow> bool" where
  "ct_eq a b = (if length a \<noteq> length b then False else a = b)"

record query_slots =
  q_exp :: "u64 option"
  q_kid :: "uuid option"
  q_sig :: "string option"
  q_r :: "string option"

definition set_slot :: "url_ext \<Rightarrow> string \<times> string \<Rightarrow> query_slots \<Rightarrow> query_slots" where
  "set_slot E kv q =
     (if fst kv = ''exp'' then q\<lparr>q_exp := parse_u64 (snd kv)\<rparr>
      else if fst kv = ''kid'' then q\<lparr>q_kid := x_uuid_parse E (snd kv)\<rparr>
      else if fst kv = ''sig'' then q\<lparr>q_sig := Some (snd kv)\<rparr>
      else if fst kv = ''r'' then q\<lparr>q_r := Some (snd kv)\<rparr>
      else q)"

definition collect_slots :: "url_ext \<Rightarrow> (string \<times> string) list \<Rightarrow> query_slots" where
  "collect_slots E pairs =
     fold (set_slot E) pairs \<lparr>q_exp = None, q_kid = None, q_sig = None, q_r = None\<rparr>"

text \<open>The checks up to the expiry: what the URL claims, before any key is touched.\<close>

definition verify_payload ::
  "url_ext \<Rightarrow> string \<Rightarrow> u64 \<Rightarrow> VerifyErr + (string \<times> u64 \<times> uuid \<times> string \<times> string \<times> (u64 \<times> u64) list)" where
  "verify_payload E url_str now =
     (case x_url_parse E url_str of
        None \<Rightarrow> Inl (Malformed ''parse'')
      | Some (path, pairs) \<Rightarrow>
     (case strip_prefix ''/xorb/'' path of
        None \<Rightarrow> Inl (Malformed ''path_prefix'')
      | Some hex \<Rightarrow>
      if length hex \<noteq> 64 \<or> \<not> list_all is_ascii_hexdigit hex then Inl (Malformed ''xorb_hash_hex'')
      else if list_ex is_ascii_uppercase hex then Inl (Malformed ''xorb_hash_hex_case'')
      else let q = collect_slots E pairs in
     (case q_exp q of
        None \<Rightarrow> Inl (Malformed ''exp'')
      | Some ex \<Rightarrow>
     (case q_kid q of
        None \<Rightarrow> Inl (Malformed ''kid'')
      | Some k \<Rightarrow>
     (case q_sig q of
        None \<Rightarrow> Inl (Malformed ''sig'')
      | Some sig \<Rightarrow>
     (case (case q_r q of Some s \<Rightarrow> parse_range_segments s | None \<Rightarrow> Some []) of
        None \<Rightarrow> Inl (Malformed ''range'')
      | Some rs \<Rightarrow>
      if ex \<le> now then Inl Expired
      else Inr (hex, ex, k, sig, (case q_r q of Some s \<Rightarrow> s | None \<Rightarrow> []), rs)))))))"

text \<open>\<^verbatim>\<open>expect("self-signed blob decodes")\<close> panics: \<open>None\<close>.\<close>

definition verify :: "url_ext \<Rightarrow> UrlSigner \<Rightarrow> string \<Rightarrow> u64 \<Rightarrow> (VerifyErr + VerifyOk) option" where
  "verify E S url_str now =
     (case verify_payload E url_str now of
        Inl e \<Rightarrow> Some (Inl e)
      | Inr (hex, ex, k, sig, r_field, rs) \<Rightarrow>
     (let canonical = canonical_string_raw E CANONICAL_VERSION hex ex r_field k;
          ok = (\<lambda>prev. \<lparr>xorb_hash_hex = hex, exp = ex, ranges = rs, kid = k, accepted_by_prev_key = prev\<rparr>)
      in case x_b64_url_decode E sig of
           None \<Rightarrow> Some (Inl (Malformed ''sig_b64''))
         | Some provided \<Rightarrow>
        (case x_b64_url_decode E (sign_with E (key_current S) canonical) of
           None \<Rightarrow> None
         | Some current \<Rightarrow>
             if ct_eq current provided then Some (Inr (ok False))
             else case key_prev S of
                    None \<Rightarrow> Some (Inl BadSignature)
                  | Some prev \<Rightarrow>
                     (case x_b64_url_decode E (sign_with E prev canonical) of
                        None \<Rightarrow> None
                      | Some prev_sig \<Rightarrow>
                          if ct_eq prev_sig provided then Some (Inr (ok True))
                          else Some (Inl BadSignature)))))"

section \<open>What the crates promise\<close>

definition url_ext_laws :: "url_ext \<Rightarrow> string \<Rightarrow> bool" where
  "url_ext_laws E base \<longleftrightarrow>
     (\<forall>b. x_b64_url_decode E (x_b64_url_encode E b) = Some b)
   \<and> (\<forall>k. x_uuid_parse E (x_uuid_show E k) = Some k \<and> LF \<notin> set (x_uuid_show E k))
   \<and> (\<forall>h. hash32 h \<longrightarrow> length (x_merkle_hex E h) = 64 \<and> list_all lower_hex_char (x_merkle_hex E h))
   \<and> (\<forall>path pairs. list_all lower_hex_char path \<longrightarrow> x_url_parse E (x_url_build E base (''/xorb/'' @ path) pairs)
        = Some (''/xorb/'' @ path, pairs))"

lemma url_ext_lawsD:
  assumes "url_ext_laws E base"
  shows "x_b64_url_decode E (x_b64_url_encode E b) = Some b"
    and "x_uuid_parse E (x_uuid_show E k) = Some k"
    and "LF \<notin> set (x_uuid_show E k)"
    and "hash32 h \<Longrightarrow> length (x_merkle_hex E h) = 64"
    and "hash32 h \<Longrightarrow> list_all lower_hex_char (x_merkle_hex E h)"
    and "list_all lower_hex_char path \<Longrightarrow>
      x_url_parse E (x_url_build E base (''/xorb/'' @ path) pairs) = Some (''/xorb/'' @ path, pairs)"
  using assms unfolding url_ext_laws_def by blast+

lemma ct_eq_iff [simp]: "ct_eq a b \<longleftrightarrow> a = b"
  by (auto simp: ct_eq_def)

lemma lower_hex_char_class:
  "lower_hex_char c \<Longrightarrow> is_ascii_hexdigit c \<and> \<not> is_ascii_uppercase c"
  using lower_hex_char_code [of c]
  by (auto simp: is_ascii_hexdigit_def is_ascii_digit_def is_ascii_uppercase_def)

section \<open>Range segments\<close>

lemma parse_segment_str: "split_once (CHR ''-'') (segment_str se) = Some (show_u64 (fst se), show_u64 (snd se))"
  unfolding segment_str_def by (simp add: split_once_append show_u64_notin)

lemma comma_notin_segment: "CHR '','' \<notin> set (segment_str se)"
  by (simp add: segment_str_def show_u64_notin)

lemma segment_str_ne [simp]: "segment_str se \<noteq> []"
  by (simp add: segment_str_def)

lemma parse_segments_show:
  "list_all (\<lambda>(s, e). s \<le> e) segs \<Longrightarrow> parse_segments (map segment_str segs) = Some segs"
  by (induction segs) (auto simp: parse_segment_str)

lemma parse_range_segments_join:
  assumes "segs \<noteq> []" and "list_all (\<lambda>(s, e). s \<le> e) segs"
  shows "parse_range_segments (join '','' (map segment_str segs)) = Some segs"
proof -
  have "split_on (CHR '','') (join '','' (map segment_str segs)) = map segment_str segs"
    using assms(1) by (intro split_on_join) (auto simp: comma_notin_segment)
  moreover have "join '','' (map segment_str segs) \<noteq> []"
    using assms(1) by (cases segs; cases "tl segs") auto
  ultimately show ?thesis
    using assms by (simp add: parse_range_segments_def parse_segments_show)
qed

lemma parse_range_segments_single:
  "s \<le> e \<Longrightarrow> parse_range_segments (segment_str (s, e)) = Some [(s, e)]"
  using parse_range_segments_join [of "[(s, e)]"] by simp

lemma parse_segments_sound:
  "parse_segments parts = Some segs \<Longrightarrow> list_all (\<lambda>(s, e). s \<le> e) segs \<and> length segs = length parts"
  by (induction parts arbitrary: segs) (auto split: option.splits if_splits)

lemma parse_range_segments_sound:
  "parse_range_segments s = Some segs \<Longrightarrow> segs \<noteq> [] \<and> list_all (\<lambda>(s, e). s \<le> e) segs"
  by (auto simp: parse_range_segments_def split: if_splits option.splits dest: parse_segments_sound)

lemma digits_val_no_LF: "digits_val acc s = Some n \<Longrightarrow> LF \<notin> set s"
  by (induction s arbitrary: acc) (auto simp: char_digit_def split: option.splits if_splits)

lemma char_digit_LF [simp]: "char_digit LF = None"
  by (simp add: char_digit_def)

lemma parse_u64_no_LF: "parse_u64 s = Some n \<Longrightarrow> LF \<notin> set s"
  by (auto simp: parse_u64_def parse_unsigned_def Let_def split: if_splits option.splits list.splits
      dest: digits_val_no_LF)

lemma parse_segments_no_LF: "parse_segments parts = Some segs \<Longrightarrow> \<forall>p\<in>set parts. LF \<notin> set p"
proof (induction parts arbitrary: segs)
  case (Cons p ps)
  then obtain a b where ab: "split_once (CHR ''-'') p = Some (a, b)"
    by (auto split: option.splits)
  with Cons.prems have "LF \<notin> set a" "LF \<notin> set b"
    by (auto split: option.splits dest: parse_u64_no_LF)
  with split_once_SomeD [OF ab] have "LF \<notin> set p" by auto
  with Cons ab show ?case by (auto split: option.splits if_splits)
qed simp

lemma set_split_on: "set s \<subseteq> insert c (\<Union> (set ` set (split_on c s)))"
proof (induction s)
  case (Cons x s)
  then show ?case by (cases "split_on c s") auto
qed simp

lemma range_field_no_LF: "parse_range_segments s = Some segs \<Longrightarrow> LF \<notin> set s"
  using parse_segments_no_LF [of "split_on (CHR '','') s"] set_split_on [of s "CHR '',''"]
  by (auto simp: parse_range_segments_def split: if_splits option.splits)

section \<open>The canonical string determines the grant\<close>

lemma as_bytes_inj: "as_bytes s = as_bytes t \<longleftrightarrow> s = t"
proof -
  have "(of_char c :: byte) = of_char d \<Longrightarrow> c = d" for c d
  proof -
    assume "(of_char c :: byte) = of_char d"
    then have "(of_nat (of_char c) :: byte) = of_nat (of_char d)"
      by (simp add: of_nat_of_char)
    moreover have "unat (of_nat (of_char c) :: byte) = of_char c" for c :: char
      by (simp add: unat_of_nat)
    ultimately have "(of_char c :: nat) = of_char d"
      by metis
    then show "c = d" by simp
  qed
  then show ?thesis
    by (auto simp: as_bytes_def intro!: map_injective [of of_char] injI)
qed

lemma canonical_as_join:
  "canonical_string_raw E v hex ex r k = join [LF] [v, hex, show_u64 ex, r, x_uuid_show E k]"
  by (simp add: canonical_string_raw_def)

lemma canonical_inj:
  assumes "canonical_string_raw E CANONICAL_VERSION hex ex r k
         = canonical_string_raw E CANONICAL_VERSION hex' ex' r' k'"
    and "url_ext_laws E base"
    and "LF \<notin> set hex" "LF \<notin> set hex'" "LF \<notin> set r" "LF \<notin> set r'"
  shows "hex = hex' \<and> ex = ex' \<and> r = r' \<and> k = k'"
proof -
  note L = url_ext_lawsD [OF assms(2)]
  have split: "split_on LF (canonical_string_raw E CANONICAL_VERSION h e q u)
      = [CANONICAL_VERSION, h, show_u64 e, q, x_uuid_show E u]"
    if "LF \<notin> set h" "LF \<notin> set q" for h e q u
    unfolding canonical_as_join using that
    by (intro split_on_join) (auto simp: L(3) show_u64_notin CANONICAL_VERSION_def)
  have "[CANONICAL_VERSION, hex, show_u64 ex, r, x_uuid_show E k]
      = [CANONICAL_VERSION, hex', show_u64 ex', r', x_uuid_show E k']"
    using split [of hex r ex k] split [of hex' r' ex' k'] assms by simp
  then have "hex = hex'" "show_u64 ex = show_u64 ex'" "r = r'" "x_uuid_show E k = x_uuid_show E k'"
    by simp_all
  moreover have "ex = ex'"
    using u64_text.enc_inj [OF TrueI TrueI calculation(2)] .
  moreover have "k = k'"
    using calculation(4) L(2) by (metis option.inject)
  ultimately show ?thesis by simp
qed

section \<open>The verifier\<close>

lemma hexdigit_not_LF: "is_ascii_hexdigit c \<Longrightarrow> c \<noteq> LF"
  by (auto simp: is_ascii_hexdigit_def is_ascii_digit_def)

lemma verify_payload_Inr:
  assumes "verify_payload E url now = Inr (hex, ex, k, sig, r, rs)"
  shows "\<exists>pairs. x_url_parse E url = Some (''/xorb/'' @ hex, pairs)
     \<and> length hex = 64 \<and> list_all is_ascii_hexdigit hex
     \<and> q_sig (collect_slots E pairs) = Some sig
     \<and> (case q_r (collect_slots E pairs) of
          Some s \<Rightarrow> r = s \<and> parse_range_segments s = Some rs | None \<Rightarrow> r = [] \<and> rs = [])
     \<and> now < ex"
proof -
  obtain path pairs where u: "x_url_parse E url = Some (path, pairs)"
    using assms by (auto simp: verify_payload_def split: option.split_asm)
  obtain hex' where h: "strip_prefix ''/xorb/'' path = Some hex'"
    using assms u by (simp add: verify_payload_def split: option.split_asm)
  have shape: "length hex' = 64" "list_all is_ascii_hexdigit hex'" "\<not> list_ex is_ascii_uppercase hex'"
    using assms u h by (auto simp: verify_payload_def split: if_split_asm)
  obtain q where q: "q = collect_slots E pairs" by blast
  have rest: "(case q_exp q of None \<Rightarrow> Inl (Malformed ''exp'') | Some ex \<Rightarrow>
     (case q_kid q of None \<Rightarrow> Inl (Malformed ''kid'') | Some k \<Rightarrow>
     (case q_sig q of None \<Rightarrow> Inl (Malformed ''sig'') | Some sig \<Rightarrow>
     (case (case q_r q of Some s \<Rightarrow> parse_range_segments s | None \<Rightarrow> Some []) of
        None \<Rightarrow> Inl (Malformed ''range'')
      | Some rs \<Rightarrow> if ex \<le> now then Inl Expired
          else Inr (hex', ex, k, sig, (case q_r q of Some s \<Rightarrow> s | None \<Rightarrow> []), rs)))))
      = Inr (hex, ex, k, sig, r, rs)"
    unfolding q using assms u h shape by (simp add: verify_payload_def Let_def)
  then have "hex' = hex" "q_sig q = Some sig" "now < ex"
    "case q_r q of Some s \<Rightarrow> r = s \<and> parse_range_segments s = Some rs | None \<Rightarrow> r = [] \<and> rs = []"
    by (auto split: option.split_asm option.split if_split_asm)
  then show ?thesis
    using u shape q strip_prefix_SomeD [OF h] by auto
qed

lemma verify_payload_InrD:
  assumes "verify_payload E url now = Inr (hex, ex, k, sig, r, rs)"
  shows "LF \<notin> set hex" and "LF \<notin> set r" and "now < ex"
    and "rs = (if r = [] then [] else the (parse_range_segments r))"
    and "list_all (\<lambda>(s, e). s \<le> e) rs"
proof -
  from verify_payload_Inr [OF assms] obtain pairs where
    hx: "list_all is_ascii_hexdigit hex" and n: "now < ex" and
    r: "case q_r (collect_slots E pairs) of
       Some s \<Rightarrow> r = s \<and> parse_range_segments s = Some rs | None \<Rightarrow> r = [] \<and> rs = []"
    by blast
  show "LF \<notin> set hex" using hx hexdigit_not_LF by (auto simp: list_all_iff)
  show "now < ex" by (rule n)
  have nil: "parse_range_segments [] = None" by (simp add: parse_range_segments_def)
  show "LF \<notin> set r" "list_all (\<lambda>(s, e). s \<le> e) rs"
    "rs = (if r = [] then [] else the (parse_range_segments r))"
    using r nil by (auto split: option.split_asm dest: range_field_no_LF parse_range_segments_sound)
qed

definition accepting_key :: "UrlSigner \<Rightarrow> bool \<Rightarrow> byte list option" where
  "accepting_key S prev = (if prev then key_prev S else Some (key_current S))"

lemma verify_accepts_iff:
  assumes "url_ext_laws E base"
  shows "verify E S url now = Some (Inr ok) \<longleftrightarrow>
    (\<exists>hex ex k sig r rs prev key. verify_payload E url now = Inr (hex, ex, k, sig, r, rs)
      \<and> ok = \<lparr>xorb_hash_hex = hex, exp = ex, ranges = rs, kid = k, accepted_by_prev_key = prev\<rparr>
      \<and> accepting_key S prev = Some key
      \<and> (prev \<longrightarrow> x_b64_url_decode E sig \<noteq>
           Some (x_hmac E (key_current S) (as_bytes (canonical_string_raw E CANONICAL_VERSION hex ex r k))))
      \<and> x_b64_url_decode E sig =
           Some (x_hmac E key (as_bytes (canonical_string_raw E CANONICAL_VERSION hex ex r k))))"
  using url_ext_lawsD(1) [OF assms]
  by (auto simp: verify_def sign_with_def accepting_key_def Let_def
      split: sum.splits option.splits if_splits prod.splits)

lemma verify_no_panic:
  assumes "url_ext_laws E base"
  shows "\<exists>r. verify E S url now = Some r"
  using url_ext_lawsD(1) [OF assms]
  by (auto simp: verify_def sign_with_def Let_def split: sum.splits option.splits)

lemma collect_slots_minted:
  assumes "url_ext_laws E base"
  shows "collect_slots E ([(''exp'', show_u64 ex), (''kid'', x_uuid_show E k), (''sig'', sig)] @
       (case r of Some s \<Rightarrow> [(''r'', s)] | None \<Rightarrow> []))
     = \<lparr>q_exp = Some ex, q_kid = Some k, q_sig = Some sig, q_r = r\<rparr>"
  using url_ext_lawsD(2) [OF assms]
  by (auto simp: collect_slots_def set_slot_def split: option.splits)

text \<open>Both minters build the same kind of URL; \<open>minted_url\<close> names it.\<close>

definition minted_url ::
  "url_ext \<Rightarrow> UrlSigner \<Rightarrow> hash \<Rightarrow> string option \<Rightarrow> uuid \<Rightarrow> u64 \<Rightarrow> string" where
  "minted_url E S h r k now =
     (let ex = saturating_add now (default_ttl_secs S); hex = x_merkle_hex E h;
          canonical = canonical_string_raw E CANONICAL_VERSION hex ex
            (case r of Some s \<Rightarrow> s | None \<Rightarrow> []) k
      in x_url_build E (gateway_base S) (''/xorb/'' @ hex)
           ([(''exp'', show_u64 ex), (''kid'', x_uuid_show E k),
             (''sig'', sign_with E (key_current S) canonical)]
            @ (case r of Some s \<Rightarrow> [(''r'', s)] | None \<Rightarrow> [])))"

lemma mint_v1_minted: "mint_v1 E S h rng k now = minted_url E S h (map_option segment_str rng) k now"
  by (cases rng) (simp_all add: mint_v1_def minted_url_def canonical_string_def Let_def)

lemma mint_v1_multi_range_minted:
  "segs \<noteq> [] \<Longrightarrow> mint_v1_multi_range E S h segs k now
     = Some (minted_url E S h (Some (join '','' (map segment_str segs))) k now)"
  by (simp add: mint_v1_multi_range_def minted_url_def Let_def)

definition granted :: "string option \<Rightarrow> (u64 \<times> u64) list option" where
  "granted r = (case r of Some s \<Rightarrow> parse_range_segments s | None \<Rightarrow> Some [])"

lemma verify_payload_minted:
  assumes "url_ext_laws E (gateway_base S)" and "hash32 h" and "granted r = Some rs"
  shows "verify_payload E (minted_url E S h r k now) now' =
    (let ex = saturating_add now (default_ttl_secs S); hex = x_merkle_hex E h;
         rf = (case r of Some s \<Rightarrow> s | None \<Rightarrow> [])
     in if ex \<le> now' then Inl Expired
        else Inr (hex, ex, k, sign_with E (key_current S)
               (canonical_string_raw E CANONICAL_VERSION hex ex rf k), rf, rs))"
proof -
  note L = url_ext_lawsD [OF assms(1)]
  have lower: "lower_hex_char c" if "c \<in> set (x_merkle_hex E h)" for c
    using L(5) [OF assms(2)] that by (auto simp: list_all_iff)
  have hex: "list_all is_ascii_hexdigit (x_merkle_hex E h)" "\<not> list_ex is_ascii_uppercase (x_merkle_hex E h)"
    using lower lower_hex_char_class by (auto simp: list_all_iff list_ex_iff)
  show ?thesis
    using assms(3) L(4) [OF assms(2)] hex
    unfolding verify_payload_def minted_url_def Let_def L(6) [OF L(5) [OF assms(2)]] option.case prod.case strip_prefix_append
      collect_slots_minted [OF assms(1)] query_slots.select_convs
    by (simp add: granted_def)
qed

lemma verify_minted:
  fixes k :: uuid
  assumes "url_ext_laws E (gateway_base S)" and "hash32 h" and "granted r = Some rs"
    and "now' < saturating_add now (default_ttl_secs S)"
  defines "canonical \<equiv> canonical_string_raw E CANONICAL_VERSION (x_merkle_hex E h)
      (saturating_add now (default_ttl_secs S)) (case r of Some s \<Rightarrow> s | None \<Rightarrow> []) k"
  defines "ok \<equiv> (\<lambda>prev. \<lparr>xorb_hash_hex = x_merkle_hex E h,
      exp = saturating_add now (default_ttl_secs S), ranges = rs, kid = k, accepted_by_prev_key = prev\<rparr>)"
  shows "verify E S' (minted_url E S h r k now) now' =
    (if x_hmac E (key_current S') (as_bytes canonical) = x_hmac E (key_current S) (as_bytes canonical)
     then Some (Inr (ok False))
     else case key_prev S' of None \<Rightarrow> Some (Inl BadSignature)
       | Some p \<Rightarrow> if x_hmac E p (as_bytes canonical) = x_hmac E (key_current S) (as_bytes canonical)
                   then Some (Inr (ok True)) else Some (Inl BadSignature))"
  using assms(4) url_ext_lawsD(1) [OF assms(1)]
  unfolding verify_def verify_payload_minted [OF assms(1-3)] canonical_def ok_def sign_with_def Let_def
  by (simp add: not_le split: option.split)

section \<open>The minter as the reconstruction handlers see it\<close>

text \<open>The trait \<^verbatim>\<open>UrlMinter\<close> with what its clients rely on: a minted URL grants its holder exactly the
  segments it was minted for, until it expires. \<open>grants\<close> is what the gateway learns from a URL.\<close>

locale url_minter =
  fixes well_formed :: "'s \<Rightarrow> bool"
    and name :: "'s \<Rightarrow> hash \<Rightarrow> string"
    and expiry :: "'s \<Rightarrow> u64 \<Rightarrow> u64"
    and mint :: "'s \<Rightarrow> hash \<Rightarrow> (u64 \<times> u64) option \<Rightarrow> uuid \<Rightarrow> u64 \<Rightarrow> string"
    and mint_multi :: "'s \<Rightarrow> hash \<Rightarrow> (u64 \<times> u64) list \<Rightarrow> uuid \<Rightarrow> u64 \<Rightarrow> string option"
    and grants :: "'s \<Rightarrow> string \<Rightarrow> u64 \<Rightarrow> (string \<times> uuid \<times> (u64 \<times> u64) list) option"
  assumes mint_grants: "well_formed S \<Longrightarrow> hash32 h \<Longrightarrow> (case rng of Some (s, e) \<Rightarrow> s \<le> e | None \<Rightarrow> True) \<Longrightarrow>
      now' < expiry S now \<Longrightarrow>
      grants S (mint S h rng k now) now' = Some (name S h, k, case rng of Some se \<Rightarrow> [se] | None \<Rightarrow> [])"
    and mint_multi_grants: "well_formed S \<Longrightarrow> hash32 h \<Longrightarrow> segs \<noteq> [] \<Longrightarrow> list_all (\<lambda>(s, e). s \<le> e) segs \<Longrightarrow>
      now' < expiry S now \<Longrightarrow>
      \<exists>u. mint_multi S h segs k now = Some u \<and> grants S u now' = Some (name S h, k, segs)"
begin

lemma mint_range_grants:
  "well_formed S \<Longrightarrow> hash32 h \<Longrightarrow> s \<le> e \<Longrightarrow> now' < expiry S now \<Longrightarrow>
     grants S (mint S h (Some (s, e)) k now) now' = Some (name S h, k, [(s, e)])"
  using mint_grants [of S h "Some (s, e)"] by simp

lemma single_segment_agrees:
  "well_formed S \<Longrightarrow> hash32 h \<Longrightarrow> s \<le> e \<Longrightarrow> now' < expiry S now \<Longrightarrow>
     \<exists>u. mint_multi S h [(s, e)] k now = Some u
       \<and> grants S u now' = grants S (mint S h (Some (s, e)) k now) now'"
  using mint_multi_grants [of S h "[(s, e)]"] mint_range_grants by fastforce

end

definition url_grants ::
  "url_ext \<times> UrlSigner \<Rightarrow> string \<Rightarrow> u64 \<Rightarrow> (string \<times> uuid \<times> (u64 \<times> u64) list) option" where
  "url_grants ES u now =
     (case verify (fst ES) (snd ES) u now of
        Some (Inr ok) \<Rightarrow> Some (xorb_hash_hex ok, kid ok, ranges ok) | _ \<Rightarrow> None)"

lemma granted_simps:
  "granted None = Some []"
  "s \<le> e \<Longrightarrow> granted (Some (segment_str (s, e))) = Some [(s, e)]"
  "segs \<noteq> [] \<Longrightarrow> list_all (\<lambda>(s, e). s \<le> e) segs \<Longrightarrow>
     granted (Some (join '','' (map segment_str segs))) = Some segs"
  by (simp_all add: granted_def parse_range_segments_single parse_range_segments_join)

lemma granted_range:
  "(case rng of Some (s, e) \<Rightarrow> s \<le> e | None \<Rightarrow> True) \<Longrightarrow>
     granted (map_option segment_str rng) = Some (case rng of Some se \<Rightarrow> [se] | None \<Rightarrow> [])"
  by (auto simp: granted_simps split: option.splits)

interpretation signer: url_minter
  "\<lambda>(E, S). url_ext_laws E (gateway_base S)"
  "\<lambda>(E, S). x_merkle_hex E"
  "\<lambda>(E, S) now. saturating_add now (default_ttl_secs S)"
  "\<lambda>(E, S). mint_v1 E S" "\<lambda>(E, S). mint_v1_multi_range E S" url_grants
proof unfold_locales
  fix ES :: "url_ext \<times> UrlSigner" and h k now now' and rng :: "(u64 \<times> u64) option"
  assume "(case ES of (E, S) \<Rightarrow> url_ext_laws E (gateway_base S))" "hash32 h"
    "case rng of Some (s, e) \<Rightarrow> s \<le> e | None \<Rightarrow> True"
    "now' < (case ES of (E, S) \<Rightarrow> \<lambda>now. saturating_add now (default_ttl_secs S)) now"
  then show "url_grants ES ((case ES of (E, S) \<Rightarrow> mint_v1 E S) h rng k now) now' =
    Some ((case ES of (E, S) \<Rightarrow> x_merkle_hex E) h, k, case rng of Some se \<Rightarrow> [se] | None \<Rightarrow> [])"
    by (cases ES) (simp add: url_grants_def mint_v1_minted verify_minted granted_range)
next
  fix ES :: "url_ext \<times> UrlSigner" and h k now now' and segs :: "(u64 \<times> u64) list"
  assume "(case ES of (E, S) \<Rightarrow> url_ext_laws E (gateway_base S))" "hash32 h" "segs \<noteq> []"
    "list_all (\<lambda>(s, e). s \<le> e) segs"
    "now' < (case ES of (E, S) \<Rightarrow> \<lambda>now. saturating_add now (default_ttl_secs S)) now"
  then show "\<exists>u. (case ES of (E, S) \<Rightarrow> mint_v1_multi_range E S) h segs k now = Some u \<and>
      url_grants ES u now' = Some ((case ES of (E, S) \<Rightarrow> x_merkle_hex E) h, k, segs)"
    by (cases ES) (simp add: url_grants_def mint_v1_multi_range_minted verify_minted granted_simps)
qed

section \<open>Properties\<close>

text \<open>A URL minted by \<^verbatim>\<open>mint_v1\<close> verifies until it expires, and the verifier reads back exactly
  the hash, the expiry, the byte range and the key id it was minted for.\<close>

lemma mint_v1_verifies:
  assumes "url_ext_laws E (gateway_base S)" and "hash32 h"
    and "case rng of Some (s, e) \<Rightarrow> s \<le> e | None \<Rightarrow> True"
    and "now' < saturating_add now (default_ttl_secs S)"
  shows "verify E S (mint_v1 E S h rng k now) now' = Some (Inr
    \<lparr>xorb_hash_hex = x_merkle_hex E h, exp = saturating_add now (default_ttl_secs S),
     ranges = (case rng of Some se \<Rightarrow> [se] | None \<Rightarrow> []), kid = k, accepted_by_prev_key = False\<rparr>)"
  using assms by (simp add: mint_v1_minted verify_minted granted_range)

text \<open>The same for the segment list of \<^verbatim>\<open>mint_v1_multi_range\<close>, of any length; it panics on the
  empty list and on nothing else.\<close>

lemma mint_v1_multi_range_verifies:
  assumes "url_ext_laws E (gateway_base S)" and "hash32 h"
    and "list_all (\<lambda>(s, e). s \<le> e) segs"
    and "now' < saturating_add now (default_ttl_secs S)"
  shows "(case mint_v1_multi_range E S h segs k now of
      None \<Rightarrow> segs = []
    | Some u \<Rightarrow> verify E S u now' = Some (Inr
        \<lparr>xorb_hash_hex = x_merkle_hex E h, exp = saturating_add now (default_ttl_secs S),
         ranges = segs, kid = k, accepted_by_prev_key = False\<rparr>))"
proof (cases "segs = []")
  case False
  with assms show ?thesis
    by (simp add: mint_v1_multi_range_minted verify_minted granted_simps)
qed (simp add: mint_v1_multi_range_def)

definition carried_sig :: "url_ext \<Rightarrow> string \<Rightarrow> byte list option" where
  "carried_sig E url =
     (case x_url_parse E url of None \<Rightarrow> None | Some (p, pairs) \<Rightarrow>
        (case q_sig (collect_slots E pairs) of None \<Rightarrow> None | Some sig \<Rightarrow> x_b64_url_decode E sig))"

lemma carried_sig_payload:
  assumes "verify_payload E url now = Inr (hex, ex, k, sig, r, rs)"
  shows "carried_sig E url = x_b64_url_decode E sig"
  using verify_payload_Inr [OF assms] by (auto simp: carried_sig_def)

text \<open>The message a verifier computes the tag of: the canonical string of what the URL carries.\<close>

definition signed_message :: "url_ext \<Rightarrow> string \<Rightarrow> byte list option" where
  "signed_message E url =
     (case x_url_parse E url of None \<Rightarrow> None | Some (p, pairs) \<Rightarrow>
        let q = collect_slots E pairs in
        case (strip_prefix ''/xorb/'' p, q_exp q, q_kid q) of
          (Some hex, Some ex, Some k) \<Rightarrow>
            Some (as_bytes (canonical_string_raw E CANONICAL_VERSION hex ex (case q_r q of Some s \<Rightarrow> s | None \<Rightarrow> []) k))
        | _ \<Rightarrow> None)"

lemma signed_message_payload:
  assumes "verify_payload E url now = Inr (hex, ex, k, sig, r, rs)"
  shows "signed_message E url = Some (as_bytes (canonical_string_raw E CANONICAL_VERSION hex ex r k))"
  using assms by (auto simp: verify_payload_def signed_message_def Let_def split: option.splits if_splits)

text \<open>C24: one signature carries one grant. If two URLs are accepted under the same key with the same
  signature bytes, then hash, expiry, ranges and key id agree, unless the canonical strings of these two URLs differ and
  have the same HMAC tag under the very key that accepted them. So no field can be moved, widened or re-split after minting
  without a forged tag.\<close>

theorem one_signature_one_grant:
  assumes "url_ext_laws E base"
    and "verify E S url now = Some (Inr ok)" and "verify E S url' now' = Some (Inr ok')"
    and "accepted_by_prev_key ok = accepted_by_prev_key ok'"
    and "carried_sig E url = carried_sig E url'"
  shows "ok = ok' \<or> (\<exists>key m m'. accepting_key S (accepted_by_prev_key ok) = Some key \<and> signed_message E url = Some m
    \<and> signed_message E url' = Some m' \<and> m \<noteq> m' \<and> x_hmac E key m = x_hmac E key m')"
proof -
  from assms(2) obtain hex ex k sig r rs prev key where
    p: "verify_payload E url now = Inr (hex, ex, k, sig, r, rs)"
      "ok = \<lparr>xorb_hash_hex = hex, exp = ex, ranges = rs, kid = k, accepted_by_prev_key = prev\<rparr>"
      "accepting_key S prev = Some key"
      "x_b64_url_decode E sig = Some (x_hmac E key (as_bytes (canonical_string_raw E CANONICAL_VERSION hex ex r k)))"
    unfolding verify_accepts_iff [OF assms(1)] by blast
  from assms(3) obtain hex' ex' k' sig' r' rs' prev' key' where
    p': "verify_payload E url' now' = Inr (hex', ex', k', sig', r', rs')"
      "ok' = \<lparr>xorb_hash_hex = hex', exp = ex', ranges = rs', kid = k', accepted_by_prev_key = prev'\<rparr>"
      "accepting_key S prev' = Some key'"
      "x_b64_url_decode E sig' = Some (x_hmac E key' (as_bytes (canonical_string_raw E CANONICAL_VERSION hex' ex' r' k')))"
    unfolding verify_accepts_iff [OF assms(1)] by blast
  have "prev = prev'" "key = key'"
    using assms(4) p(2,3) p'(2,3) by auto
  moreover have "x_hmac E key (as_bytes (canonical_string_raw E CANONICAL_VERSION hex ex r k))
      = x_hmac E key' (as_bytes (canonical_string_raw E CANONICAL_VERSION hex' ex' r' k'))"
    using assms(5) carried_sig_payload [OF p(1)] carried_sig_payload [OF p'(1)] p(4) p'(4) by simp
  moreover have "hex = hex' \<and> ex = ex' \<and> r = r' \<and> k = k'"
    if "canonical_string_raw E CANONICAL_VERSION hex ex r k
      = canonical_string_raw E CANONICAL_VERSION hex' ex' r' k'"
    using canonical_inj [OF that assms(1)] verify_payload_InrD [OF p(1)] verify_payload_InrD [OF p'(1)]
    by blast
  moreover have "rs = rs'" if "r = r'"
    using that verify_payload_InrD(4) [OF p(1)] verify_payload_InrD(4) [OF p'(1)] by simp
  ultimately show ?thesis
    using p(3) signed_message_payload [OF p(1)] signed_message_payload [OF p'(1)] unfolding p(2) p'(2)
    by (cases "canonical_string_raw E CANONICAL_VERSION hex ex r k
        = canonical_string_raw E CANONICAL_VERSION hex' ex' r' k'") (simp, auto simp: as_bytes_inj)
qed

text \<open>Expiry is checked before any key is used: whatever keys the verifier holds, a minted URL
  whose time has passed is reported as expired and not as a bad signature.\<close>

lemma verify_expired_first:
  assumes "url_ext_laws E (gateway_base S)" and "hash32 h"
    and "case rng of Some (s, e) \<Rightarrow> s \<le> e | None \<Rightarrow> True"
    and "saturating_add now (default_ttl_secs S) \<le> now'"
  shows "verify E S' (mint_v1 E S h rng k now) now' = Some (Inl Expired)"
  using assms(4) verify_payload_minted [OF assms(1,2) granted_range [OF assms(3)]]
  by (simp add: mint_v1_minted verify_def)

text \<open>During a rotation a URL minted with the old key is accepted by a signer that keeps it as
  \<^verbatim>\<open>key_prev\<close>, with the flag set, and once that key is gone it is a bad signature.\<close>

lemma verify_rotation:
  assumes "url_ext_laws E (gateway_base S)" and "hash32 h"
    and "case rng of Some (s, e) \<Rightarrow> s \<le> e | None \<Rightarrow> True"
    and "now' < saturating_add now (default_ttl_secs S)"
    and "canonical = as_bytes (canonical_string E CANONICAL_VERSION (x_merkle_hex E h)
           (saturating_add now (default_ttl_secs S)) rng k)"
    and "x_hmac E (key_current S') canonical \<noteq> x_hmac E (key_current S) canonical"
  shows "verify E (S'\<lparr>key_prev := Some (key_current S)\<rparr>) (mint_v1 E S h rng k now) now' = Some (Inr
      \<lparr>xorb_hash_hex = x_merkle_hex E h, exp = saturating_add now (default_ttl_secs S),
       ranges = (case rng of Some se \<Rightarrow> [se] | None \<Rightarrow> []), kid = k, accepted_by_prev_key = True\<rparr>)
    \<and> verify E (S'\<lparr>key_prev := None\<rparr>) (mint_v1 E S h rng k now) now' = Some (Inl BadSignature)"
  using assms(5,6)
  unfolding mint_v1_minted verify_minted [OF assms(1,2) granted_range [OF assms(3)] assms(4)]
    canonical_string_def
  by (cases rng) simp_all

section \<open>Witnesses\<close>

text \<open>A concrete choice of the crates: tag and message concatenated for the MAC, hexadecimal in
  place of base64 and percent encoding, decimal key ids.\<close>

definition toy_url_pair :: "string \<Rightarrow> (string \<times> string) option" where
  "toy_url_pair s = (case split_once (CHR ''='') s of None \<Rightarrow> None | Some (k, v) \<Rightarrow>
     (case hex_pairs (\<lambda>hi lo. of_nat (16 * hi + lo)) k of None \<Rightarrow> None | Some kb \<Rightarrow>
       (case hex_pairs (\<lambda>hi lo. of_nat (16 * hi + lo)) v of None \<Rightarrow> None | Some vb \<Rightarrow>
         Some (map (char_of \<circ> unat) kb, map (char_of \<circ> unat) vb))))"

definition toy_show_pair :: "string \<times> string \<Rightarrow> string" where
  "toy_show_pair kv = hex_of (as_bytes (fst kv)) @ ''='' @ hex_of (as_bytes (snd kv))"

definition toy_ext :: url_ext where
  "toy_ext = \<lparr>x_hmac_new = Some, x_hmac = (@), x_b64_std_decode = (\<lambda>s. Some (as_bytes s)),
     x_b64_url_encode = hex_of, x_b64_url_decode = hex_pairs (\<lambda>hi lo. of_nat (16 * hi + lo)),
     x_uuid_show = (\<lambda>k. show_nat (unat k)),
     x_uuid_parse = (\<lambda>s. map_option of_nat (parse_unsigned 128 s)),
     x_merkle_hex = hex_of,
     x_url_build = (\<lambda>base path pairs. path @ ''?'' @ join ''&'' (map toy_show_pair pairs)),
     x_url_parse = (\<lambda>s. case split_once (CHR ''?'') s of None \<Rightarrow> None | Some (p, q) \<Rightarrow>
        Some (p, List.map_filter toy_url_pair (split_on (CHR ''&'') q)))\<rparr>"

definition toy_signer :: UrlSigner where
  "toy_signer = \<lparr>key_current = replicate 32 1, key_prev = None, gateway_base = [], default_ttl_secs = 7200\<rparr>"

lemma lower_hex_char_neq: "(of_char c :: nat) < 48 \<or> (57 < (of_char c :: nat) \<and> (of_char c :: nat) < 97) \<Longrightarrow> \<not> lower_hex_char c"
  using lower_hex_char_code [of c] by auto

lemma hex_of_notin: "(of_char c :: nat) < 48 \<or> (57 < (of_char c :: nat) \<and> (of_char c :: nat) < 97) \<Longrightarrow> c \<notin> set (hex_of bs)"
  using hex_of_chars lower_hex_char_neq by blast

lemma unat_of_char: "unat (of_char c :: byte) = of_char c"
proof -
  have "unat (of_nat (of_char c) :: byte) = of_char c" by (simp add: unat_of_nat)
  then show ?thesis by (simp add: of_nat_of_char)
qed

lemma char_of_as_bytes: "map (char_of \<circ> unat) (as_bytes s) = s"
  by (simp add: as_bytes_def comp_def unat_of_char)

lemma toy_url_pair_show: "toy_url_pair (toy_show_pair kv) = Some kv"
  unfolding toy_url_pair_def toy_show_pair_def
  by (simp add: split_once_append hex_of_notin hex_pairs_hex_of char_of_as_bytes
      del: of_nat_add of_nat_mult map_map)

lemma toy_map_filter: "List.map_filter toy_url_pair (map toy_show_pair pairs) = pairs"
  by (induction pairs) (simp_all add: List.map_filter_simps toy_url_pair_show)

lemma toy_query:
  "List.map_filter toy_url_pair (split_on (CHR ''&'') (join ''&'' (map toy_show_pair pairs))) = pairs"
proof (cases "pairs = []")
  case False
  then have "split_on (CHR ''&'') (join ''&'' (map toy_show_pair pairs)) = map toy_show_pair pairs"
    by (intro split_on_join) (auto simp: toy_show_pair_def hex_of_notin)
  then show ?thesis by (simp add: toy_map_filter)
qed (simp add: List.map_filter_simps toy_url_pair_def)

lemma toy_ext_laws: "url_ext_laws toy_ext base"
proof -
  have "x_url_parse toy_ext (x_url_build toy_ext base (''/xorb/'' @ path) pairs) = Some (''/xorb/'' @ path, pairs)"
    if "list_all lower_hex_char path" for path pairs
  proof -
    have "CHR ''?'' \<notin> set (''/xorb/'' @ path)"
      using that lower_hex_char_neq [of "CHR ''?''"] by (auto simp: list_all_iff)
    from split_once_append [OF this, of "join ''&'' (map toy_show_pair pairs)"]
    show ?thesis by (simp add: toy_ext_def toy_query del: of_nat_add of_nat_mult)
  qed
  moreover have "list_all lower_hex_char (hex_of h)" for h
    using hex_of_chars by (auto simp: list_all_iff)
  moreover have "parse_unsigned 128 (show_nat (unat k)) = Some (unat k)" for k :: uuid
    using unsigned_less [of k, where ?'a = nat] by (intro parse_unsigned_show_nat) simp
  moreover have "hex_pairs (\<lambda>hi lo. of_nat (16 * hi + lo)) (hex_of b) = Some b" for b :: "byte list"
    by (rule hex_pairs_hex_of)
  ultimately show ?thesis
    unfolding url_ext_laws_def
    by (auto simp: toy_ext_def hash32_def show_nat_notin simp del: of_nat_add of_nat_mult)
qed


lemma mint_v1_multi_range_verifies_witness:
  "case mint_v1_multi_range toy_ext toy_signer (replicate 32 7) [(0, 9), (20, 29)] 5 1000 of
     None \<Rightarrow> False | Some u \<Rightarrow> map_option (map_sum id ranges) (verify toy_ext toy_signer u 2000)
       = Some (Inr [(0, 9), (20, 29)])"
  using mint_v1_multi_range_verifies [OF toy_ext_laws, of "replicate 32 7" "[(0, 9), (20, 29)]" 2000 1000 toy_signer 5]
  by (simp add: hash32_def toy_signer_def saturating_add_def split: option.split_asm option.split)

theorem one_signature_one_grant_witness:
  "\<exists>ok ok'. verify toy_ext toy_signer (mint_v1 toy_ext toy_signer (replicate 32 7) None 5 1000) 2000 = Some (Inr ok)
     \<and> verify toy_ext toy_signer (mint_v1 toy_ext toy_signer (replicate 32 7) None 5 1000) 3000 = Some (Inr ok')
     \<and> ok = ok'"
proof -
  let ?url = "mint_v1 toy_ext toy_signer (replicate 32 7) None 5 1000"
  have "\<exists>ok. verify toy_ext toy_signer ?url now = Some (Inr ok) \<and> \<not> accepted_by_prev_key ok" if "now < 8200" for now
    using that by (simp add: mint_v1_minted verify_minted [OF toy_ext_laws, where rs = "[]"] granted_def
        hash32_def toy_signer_def saturating_add_def)
  from this [of 2000] this [of 3000] obtain ok ok' where
    ok: "verify toy_ext toy_signer ?url 2000 = Some (Inr ok)" "\<not> accepted_by_prev_key ok" and
    ok': "verify toy_ext toy_signer ?url 3000 = Some (Inr ok')" "\<not> accepted_by_prev_key ok'"
    by auto
  from one_signature_one_grant [OF toy_ext_laws ok(1) ok'(1) _ refl] ok ok' show ?thesis by auto
qed


end
