(* ===== verification/Accounts.thy ===== *)
theory Accounts
  imports Queries Signed_Url
begin

text \<open>
  Who may call: the tables \<^verbatim>\<open>users\<close>, \<^verbatim>\<open>api_keys\<close>, \<^verbatim>\<open>sessions\<close> and \<^verbatim>\<open>oauth_state\<close> and the in-process
  key cache, as an extension of the world; the session primitives of \<^verbatim>\<open>session.rs\<close>. Times are in
  milliseconds of the one clock. Random values (session ids, nonces, key material, the ids Postgres
  generates) are arguments of the operations that draw them.
\<close>

section \<open>Rows\<close>

record user_row =
  usr_github_login :: string
  usr_email :: "string option"
  usr_avatar_url :: "string option"
  usr_is_admin :: bool
  usr_hf_user_id :: "string option"
  usr_revoked_at :: "int option"

record key_row =
  ak_user_id :: int
  ak_key_hash :: hash
  ak_scopes :: "ApiKeyScope list"
  ak_label :: "string option"
  ak_masked_prefix :: "string option"
  ak_created_at :: int
  ak_revoked_at :: "int option"
  ak_last_used_at :: "int option"

record session_row =
  ss_user_id :: int
  ss_created_at :: int
  ss_expires_at :: int
  ss_revoked_at :: "int option"
  ss_last_seen_at :: "int option"

record oauth_row =
  os_created_at :: int
  os_consumed_at :: "int option"
  os_expires_at :: int

record ActiveKey =
  ac_id :: uuid
  ac_user_id :: int
  ac_scopes :: "ApiKeyScope list"
  ac_loaded_at :: int

text \<open>The cache is the list of its entries, the most recently used first.\<close>

record accounts = world +
  users :: "(int \<times> user_row) list"
  api_keys :: "(uuid \<times> key_row) list"
  sessions :: "(uuid \<times> session_row) list"
  oauth_states :: "(string \<times> oauth_row) list"
  key_cache :: "(hash \<times> ActiveKey) list"
  cache_capacity :: nat

definition empty_accounts :: accounts where
  "empty_accounts = world.extend empty_world
     \<lparr>users = [], api_keys = [], sessions = [], oauth_states = [], key_cache = [], cache_capacity = 10000\<rparr>"

type_synonym ('z, 'e, 'a) acc_io = "'z accounts_scheme \<Rightarrow> ('e + 'a) \<times> 'z accounts_scheme"

section \<open>The session cookie\<close>

definition SESSION_COOKIE_NAME :: string where
  "SESSION_COOKIE_NAME = ''openweights_session''"

definition SESSION_TTL_DAYS :: int where
  "SESSION_TTL_DAYS = 7"

definition DAY_MS :: int where
  "DAY_MS = 24 * 3600 * 1000"

definition cookie_part :: "url_ext \<Rightarrow> string \<Rightarrow> uuid option option" where
  "cookie_part X part =
     (case strip_prefix SESSION_COOKIE_NAME (trim part) of
        None \<Rightarrow> None
      | Some value \<Rightarrow>
          (case strip_prefix ''='' value of
             None \<Rightarrow> None
           | Some v \<Rightarrow> Some (x_uuid_parse X (trim v))))"

text \<open>The first part that is the session cookie decides, well formed or not.\<close>

fun first_cookie :: "url_ext \<Rightarrow> string list \<Rightarrow> uuid option" where
  "first_cookie X [] = None"
| "first_cookie X (p # ps) = (case cookie_part X p of Some r \<Rightarrow> r | None \<Rightarrow> first_cookie X ps)"

definition parse_session_cookie :: "url_ext \<Rightarrow> string \<Rightarrow> uuid option" where
  "parse_session_cookie X cookie_header = first_cookie X (split_on (CHR '';'') cookie_header)"

definition session_cookie_header :: "url_ext \<Rightarrow> uuid \<Rightarrow> string" where
  "session_cookie_header X sid =
     SESSION_COOKIE_NAME @ ''='' @ x_uuid_show X sid @ ''; HttpOnly; Secure; SameSite=Lax; Path=/; Max-Age=''
       @ show_nat (nat (SESSION_TTL_DAYS * 24 * 3600))"

definition clear_session_cookie_header :: string where
  "clear_session_cookie_header = SESSION_COOKIE_NAME @ ''=; HttpOnly; Secure; SameSite=Lax; Path=/; Max-Age=0''"

section \<open>Sessions\<close>

record SessionUser =
  su_id :: int
  su_login :: string
  su_email :: "string option"
  su_avatar_url :: "string option"
  su_is_admin :: bool

text \<open>A session needs a known user (foreign key) and a fresh id (primary key).\<close>

definition mint_session :: "uuid \<Rightarrow> int \<Rightarrow> ('z, AppError, uuid \<times> int) acc_io" where
  "mint_session sid uid =
     bindE (db_checked (\<lambda>w. map_of (users w) uid \<noteq> None \<and> map_of (sessions w) sid = None)
       (\<lambda>w. w\<lparr>sessions := insert_row sid
          \<lparr>ss_user_id = uid, ss_created_at = clock w, ss_expires_at = clock w + SESSION_TTL_DAYS * DAY_MS,
           ss_revoked_at = None, ss_last_seen_at = Some (clock w)\<rparr> (sessions w)\<rparr>))
     (\<lambda>_. gets (\<lambda>w. (sid, clock w + SESSION_TTL_DAYS * DAY_MS)))"

definition session_live :: "int \<Rightarrow> session_row \<Rightarrow> bool" where
  "session_live now r \<longleftrightarrow> ss_revoked_at r = None \<and> now < ss_expires_at r"

definition touched_session :: "int \<Rightarrow> session_row \<Rightarrow> session_row" where
  "touched_session now r = r\<lparr>ss_last_seen_at := Some now, ss_expires_at := now + SESSION_TTL_DAYS * DAY_MS\<rparr>"

definition session_user :: "int \<Rightarrow> user_row \<Rightarrow> SessionUser" where
  "session_user uid u = \<lparr>su_id = uid, su_login = usr_github_login u, su_email = usr_email u,
     su_avatar_url = usr_avatar_url u, su_is_admin = usr_is_admin u\<rparr>"

definition touch_session :: "uuid \<Rightarrow> ('z, AppError, SessionUser option) acc_io" where
  "touch_session sid =
     db_exec (\<lambda>w.
       case map_of (sessions w) sid of
         None \<Rightarrow> (None, w)
       | Some r \<Rightarrow>
           if session_live (clock w) r
           then (map_option (session_user (ss_user_id r)) (map_of (users w) (ss_user_id r)),
                 w\<lparr>sessions := update_row sid (touched_session (clock w)) (sessions w)\<rparr>)
           else (None, w))"

definition revoke_session :: "uuid \<Rightarrow> ('z, AppError, bool) acc_io" where
  "revoke_session sid =
     db_exec (\<lambda>w.
       let hit = (case map_of (sessions w) sid of None \<Rightarrow> False | Some r \<Rightarrow> ss_revoked_at r = None) in
       (hit, if hit then w\<lparr>sessions := update_row sid (\<lambda>r. r\<lparr>ss_revoked_at := Some (clock w)\<rparr>) (sessions w)\<rparr> else w))"

text \<open>The extractor every console route runs first.\<close>

definition session_extractor :: "url_ext \<Rightarrow> string option \<Rightarrow> ('z, AppError, SessionUser) acc_io" where
  "session_extractor X cookie_header =
     bindE (lift_res (ok_or Unauthenticated
       (case cookie_header of None \<Rightarrow> None | Some v \<Rightarrow>
         (case header_to_str v of None \<Rightarrow> None | Some raw \<Rightarrow> parse_session_cookie X raw)))) (\<lambda>sid.
     bindE (touch_session sid) (\<lambda>user. lift_res (ok_or Unauthenticated user)))"

section \<open>OAuth state\<close>

definition OAUTH_TTL_MS :: int where
  "OAUTH_TTL_MS = 10 * 60 * 1000"

definition insert_oauth_state :: "string \<Rightarrow> ('z, AppError, unit) acc_io" where
  "insert_oauth_state st =
     db_checked (\<lambda>w. map_of (oauth_states w) st = None)
       (\<lambda>w. w\<lparr>oauth_states := insert_row st
          \<lparr>os_created_at = clock w, os_consumed_at = None, os_expires_at = clock w + OAUTH_TTL_MS\<rparr> (oauth_states w)\<rparr>)"

definition oauth_live :: "int \<Rightarrow> oauth_row \<Rightarrow> bool" where
  "oauth_live now r \<longleftrightarrow> os_consumed_at r = None \<and> now < os_expires_at r"

definition consume_oauth_state :: "string \<Rightarrow> ('z, AppError, bool) acc_io" where
  "consume_oauth_state st =
     db_exec (\<lambda>w.
       let hit = (case map_of (oauth_states w) st of None \<Rightarrow> False | Some r \<Rightarrow> oauth_live (clock w) r) in
       (hit, if hit then w\<lparr>oauth_states := update_row st (\<lambda>r. r\<lparr>os_consumed_at := Some (clock w)\<rparr>) (oauth_states w)\<rparr> else w))"

end
