(* ===== verification/Bearer_Auth.thy ===== *)
theory Bearer_Auth
  imports Accounts
begin

text \<open>
  \<^verbatim>\<open>xet_jwt.rs\<close> and \<^verbatim>\<open>auth.rs\<close>: the tokens a client may present, the key cache, and the extractor
  \<^verbatim>\<open>AuthScoped\<close> that every storage route runs first. SHA-256, HMAC, base64 and the JSON codec of the
  claims are parameters.
\<close>

section \<open>Tokens\<close>

record XetJwtClaims =
  repo_id :: string
  user_id :: string
  access :: string
  iat :: int
  jexp :: int
  iss :: string

record auth_ext = url_ext +
  x_digest :: "byte list \<Rightarrow> hash"
  x_claims_to_vec :: "XetJwtClaims \<Rightarrow> byte list"
  x_claims_from_slice :: "byte list \<Rightarrow> XetJwtClaims option"

definition HF_ISSUER :: string where
  "HF_ISSUER = ''https://huggingface.co''"

definition OPENWEIGHTS_ISSUER :: string where
  "OPENWEIGHTS_ISSUER = ''https://hf.example.com''"

definition EXPECTED_ISSUERS :: "string list" where
  "EXPECTED_ISSUERS = [HF_ISSUER, OPENWEIGHTS_ISSUER]"

definition MAX_CLOCK_SKEW_SECS :: int where
  "MAX_CLOCK_SKEW_SECS = 60"

definition claim_scopes :: "XetJwtClaims \<Rightarrow> ApiKeyScope list" where
  "claim_scopes c =
     (if access c = ''WRITE'' then [Upload, Download]
      else if access c = ''READ'' then [Download] else [])"

datatype XetJwtError = JMalformed | PayloadNotBase64 | PayloadNotJson | WrongIssuer | JExpired | IssuedInFuture | JBadSignature

definition now_secs :: "int \<Rightarrow> int" where
  "now_secs clock_ms = (if clock_ms < 0 then 0 else clock_ms div 1000)"

text \<open>The three segments of a compact token.\<close>

definition segments3 :: "string \<Rightarrow> (string \<times> string \<times> string) option" where
  "segments3 token = (case split_on (CHR ''.'') token of [h, p, s] \<Rightarrow> Some (h, p, s) | _ \<Rightarrow> None)"

definition decode_and_validate :: "'x auth_ext_scheme \<Rightarrow> int \<Rightarrow> string \<Rightarrow> XetJwtError + XetJwtClaims" where
  "decode_and_validate X clock_ms token =
     (case segments3 token of
        None \<Rightarrow> Inl JMalformed
      | Some (_, payload_b64, _) \<Rightarrow>
     (case x_b64_url_decode X payload_b64 of
        None \<Rightarrow> Inl PayloadNotBase64
      | Some payload \<Rightarrow>
     (case x_claims_from_slice X payload of
        None \<Rightarrow> Inl PayloadNotJson
      | Some claims \<Rightarrow>
          if iss claims \<notin> set EXPECTED_ISSUERS then Inl WrongIssuer
          else if jexp claims < now_secs clock_ms then Inl JExpired
          else if iat claims > now_secs clock_ms + MAX_CLOCK_SKEW_SECS then Inl IssuedInFuture
          else Inr claims)))"

definition verify_openweights_signature :: "'x auth_ext_scheme \<Rightarrow> string \<Rightarrow> byte list \<Rightarrow> XetJwtError + unit" where
  "verify_openweights_signature X token signing_key =
     (if signing_key = [] then Inl JBadSignature
      else case segments3 token of
        None \<Rightarrow> Inl JMalformed
      | Some (header_b64, payload_b64, sig_b64) \<Rightarrow>
     (case x_b64_url_decode X sig_b64 of
        None \<Rightarrow> Inl JBadSignature
      | Some expected_sig \<Rightarrow>
     (case x_hmac_new X signing_key of
        None \<Rightarrow> Inl JBadSignature
      | Some k \<Rightarrow>
          if x_hmac X k (as_bytes (header_b64 @ ''.'' @ payload_b64)) = expected_sig then Inr () else Inl JBadSignature)))"

datatype OpenWeightsAccess = Write | Read

fun access_str :: "OpenWeightsAccess \<Rightarrow> string" where
  "access_str Write = ''WRITE''"
| "access_str Read = ''READ''"

text \<open>\<^verbatim>\<open>ttl_secs as i64\<close> is the signed reading of the word.\<close>

definition minted_claims :: "int \<Rightarrow> string \<Rightarrow> string \<Rightarrow> OpenWeightsAccess \<Rightarrow> u64 \<Rightarrow> XetJwtClaims" where
  "minted_claims clock_ms repo uid acc ttl =
     \<lparr>repo_id = repo, user_id = uid, access = access_str acc, iat = now_secs clock_ms,
      jexp = now_secs clock_ms + sint ttl, iss = OPENWEIGHTS_ISSUER\<rparr>"

definition jwt_header :: string where
  "jwt_header = ''{'' @ [CHR 0x22] @ ''alg'' @ [CHR 0x22] @ '':'' @ [CHR 0x22] @ ''HS256'' @ [CHR 0x22] @ ''}''"

definition mint_openweights_token ::
  "'x auth_ext_scheme \<Rightarrow> byte list \<Rightarrow> int \<Rightarrow> string \<Rightarrow> string \<Rightarrow> OpenWeightsAccess \<Rightarrow> u64 \<Rightarrow> string option" where
  "mint_openweights_token X signing_key clock_ms repo uid acc ttl =
     (let header_b64 = x_b64_url_encode X (as_bytes jwt_header);
          payload_b64 = x_b64_url_encode X (x_claims_to_vec X (minted_claims clock_ms repo uid acc ttl));
          signing_input = header_b64 @ ''.'' @ payload_b64
      in map_option (\<lambda>k. signing_input @ ''.'' @ x_b64_url_encode X (x_hmac X k (as_bytes signing_input)))
           (x_hmac_new X signing_key))"

section \<open>Users and keys behind a token\<close>

text \<open>The first eight bytes of the digest, big endian, with the sign bit cleared.\<close>

definition hf_user_id_to_i64 :: "'x auth_ext_scheme \<Rightarrow> string \<Rightarrow> int" where
  "hf_user_id_to_i64 X hf =
     (let first8 = take 8 (x_digest X (as_bytes hf)) in
      uint (foldl (\<lambda>acc b. acc * 256 + ucast b) (0::u64) first8 AND 0x7FFFFFFFFFFFFFFF))"

definition hf_login :: "string \<Rightarrow> string" where
  "hf_login hf = ''hf:'' @ hf"

definition hf_user_of :: "(int \<times> user_row) list \<Rightarrow> string \<Rightarrow> int option" where
  "hf_user_of t hf = map_option fst (find (\<lambda>(i, u). usr_hf_user_id u = Some hf) t)"

definition login_taken :: "(int \<times> user_row) list \<Rightarrow> int \<Rightarrow> string \<Rightarrow> bool" where
  "login_taken t uid login \<longleftrightarrow> list_ex (\<lambda>(i, u). i \<noteq> uid \<and> usr_github_login u = login) t"

text \<open>The upsert: a row of this Hugging Face user is renamed; otherwise a row is inserted under the
  hashed id. A collision of the id or of the login violates a unique index and fails.\<close>

definition upsert_hf_user :: "'x auth_ext_scheme \<Rightarrow> string \<Rightarrow> ('z, AppError, int) acc_io" where
  "upsert_hf_user X hf =
     bindE (db_exec (\<lambda>w.
       let new_id = hf_user_id_to_i64 X hf;
           login = hf_login hf
       in case hf_user_of (users w) hf of
            Some uid \<Rightarrow>
              if login_taken (users w) uid login then (None, w)
              else (Some uid, w\<lparr>users := update_row uid (\<lambda>u. u\<lparr>usr_github_login := login\<rparr>) (users w)\<rparr>)
          | None \<Rightarrow>
              if map_of (users w) new_id \<noteq> None \<or> login_taken (users w) new_id login then (None, w)
              else (Some new_id, w\<lparr>users := insert_row new_id
                 \<lparr>usr_github_login = login, usr_email = None, usr_avatar_url = None, usr_is_admin = False,
                  usr_hf_user_id = Some hf, usr_revoked_at = None\<rparr> (users w)\<rparr>)))
     (\<lambda>r. case r of Some uid \<Rightarrow> ret uid | None \<Rightarrow> raise db_error)"

definition synthetic_secret :: "string \<Rightarrow> string" where
  "synthetic_secret hf = ''hf-jwt:'' @ hf"

definition key_with_hash :: "(uuid \<times> key_row) list \<Rightarrow> hash \<Rightarrow> (uuid \<times> key_row) option" where
  "key_with_hash t h = find (\<lambda>(i, k). ak_key_hash k = h) t"

definition upsert_synthetic_api_key :: "'x auth_ext_scheme \<Rightarrow> uuid \<Rightarrow> int \<Rightarrow> string \<Rightarrow> ('z, AppError, uuid) acc_io" where
  "upsert_synthetic_api_key X new_id uid hf =
     bindE (db_exec (\<lambda>w.
       let h = x_digest X (as_bytes (synthetic_secret hf)) in
       case key_with_hash (api_keys w) h of
         Some (key_id, _) \<Rightarrow>
           (Some key_id, w\<lparr>api_keys := update_row key_id (\<lambda>k. k\<lparr>ak_last_used_at := Some (clock w)\<rparr>) (api_keys w)\<rparr>)
       | None \<Rightarrow>
           if map_of (users w) uid = None \<or> map_of (api_keys w) new_id \<noteq> None then (None, w)
           else (Some new_id, w\<lparr>api_keys := insert_row new_id
              \<lparr>ak_user_id = uid, ak_key_hash = h, ak_scopes = [Upload, Download], ak_label = Some ''hf-jwt-synthetic'',
               ak_masked_prefix = None, ak_created_at = clock w, ak_revoked_at = None, ak_last_used_at = None\<rparr>
              (api_keys w)\<rparr>)))
     (\<lambda>r. case r of Some key_id \<Rightarrow> ret key_id | None \<Rightarrow> raise db_error)"

section \<open>The key cache\<close>

definition KEY_CACHE_TTL_MS :: int where
  "KEY_CACHE_TTL_MS = 5000"

definition cache_new :: "nat \<Rightarrow> nat" where
  "cache_new capacity = (if capacity = 0 then 10000 else capacity)"

text \<open>A hit makes the entry the most recent one; an entry past its age is dropped.\<close>

definition cache_get :: "hash \<Rightarrow> int \<Rightarrow> (hash \<times> ActiveKey) list \<Rightarrow> ActiveKey option \<times> (hash \<times> ActiveKey) list" where
  "cache_get h now c =
     (case map_of c h of
        None \<Rightarrow> (None, c)
      | Some k \<Rightarrow>
          let rest = filter (\<lambda>(h', _). h' \<noteq> h) c in
          if now - ac_loaded_at k > KEY_CACHE_TTL_MS then (None, rest) else (Some k, (h, k) # rest))"

definition cache_put :: "nat \<Rightarrow> hash \<Rightarrow> ActiveKey \<Rightarrow> (hash \<times> ActiveKey) list \<Rightarrow> (hash \<times> ActiveKey) list" where
  "cache_put cap h k c = take cap ((h, k) # filter (\<lambda>(h', _). h' \<noteq> h) c)"

section \<open>The extractor\<close>

definition active_key :: "int \<Rightarrow> uuid \<times> key_row \<Rightarrow> ActiveKey" where
  "active_key now p = \<lparr>ac_id = fst p, ac_user_id = ak_user_id (snd p), ac_scopes = ak_scopes (snd p), ac_loaded_at = now\<rparr>"

definition fetch_active_key_by_hash :: "hash \<Rightarrow> ('z, AppError, ActiveKey option) acc_io" where
  "fetch_active_key_by_hash h =
     db_query (\<lambda>w. map_option (active_key (clock w))
       (find (\<lambda>(i, k). ak_key_hash k = h \<and> ak_revoked_at k = None) (api_keys w)))"

definition touch_last_used :: "uuid \<Rightarrow> ('z, AppError, unit) acc_io" where
  "touch_last_used key_id =
     discard (db_update (\<lambda>w. w\<lparr>api_keys := update_row key_id (\<lambda>k. k\<lparr>ak_last_used_at := Some (clock w)\<rparr>) (api_keys w)\<rparr>))"

definition looks_like_jwt :: "string \<Rightarrow> bool" where
  "looks_like_jwt token =
     (case split_on (CHR ''.'') token of [a, b, c] \<Rightarrow> strip_prefix ''eyJ'' a \<noteq> None \<and> b \<noteq> [] | _ \<Rightarrow> False)"

definition require_scope :: "byte \<Rightarrow> ApiKeyScope list \<Rightarrow> AppError + unit" where
  "require_scope S scopes =
     (if S = SCOPE_ANY then Inr ()
      else case from_u8 S of
             None \<Rightarrow> Inl Forbidden
           | Some required \<Rightarrow> if required \<in> set scopes then Inr () else Inl Forbidden)"

text \<open>\<^verbatim>\<open>ORDER BY array_length(scopes, 1) DESC NULLS LAST, last_used_at DESC NULLS LAST LIMIT 1\<close> over the
  live labelled keys of a user. Rows without a label fail the inequality, as NULL does.\<close>

definition key_rank :: "key_row \<Rightarrow> nat \<times> bool \<times> int" where
  "key_rank k = (length (ak_scopes k), ak_last_used_at k \<noteq> None, (case ak_last_used_at k of None \<Rightarrow> 0 | Some t \<Rightarrow> t))"

definition outranks :: "key_row \<Rightarrow> key_row \<Rightarrow> bool" where
  "outranks k k' = (case (key_rank k, key_rank k') of ((a, b, c), (a', b', c')) \<Rightarrow>
     a > a' \<or> a = a' \<and> (b \<and> \<not> b' \<or> b = b' \<and> c > c'))"

definition widest_key :: "(uuid \<times> key_row) list \<Rightarrow> int \<Rightarrow> uuid option" where
  "widest_key t uid =
     map_option fst (foldl (\<lambda>best p. case best of None \<Rightarrow> Some p | Some q \<Rightarrow> if outranks (snd p) (snd q) then Some p else Some q)
       None (filter (\<lambda>(i, k). ak_user_id k = uid \<and> ak_revoked_at k = None
               \<and> ak_label k \<noteq> None \<and> ak_label k \<noteq> Some ''hf-jwt-synthetic'') t))"

text \<open>The upserts of the token path turn a database error into an internal one.\<close>

definition map_db_err :: "string \<Rightarrow> ('z, AppError, 'a) io \<Rightarrow> ('z, AppError, 'a) io" where
  "map_db_err msg m w = (case m w of (Inl _, w') \<Rightarrow> (Inl (Other msg), w') | (Inr a, w') \<Rightarrow> (Inr a, w'))"

definition resolve_openweights_user ::
  "'x auth_ext_scheme \<Rightarrow> byte list \<Rightarrow> uuid \<Rightarrow> string \<Rightarrow> XetJwtClaims \<Rightarrow> ('z, AppError, int \<times> uuid) acc_io" where
  "resolve_openweights_user X signing_key new_key_id token claims =
     (case verify_openweights_signature X token signing_key of
        Inl _ \<Rightarrow> raise Unauthenticated
      | Inr _ \<Rightarrow>
     bindE (lift_res (ok_or Unauthenticated (parse_i64 (user_id claims)))) (\<lambda>uid.
     bindE (db_query (\<lambda>w. map_of (users w) uid \<noteq> None)) (\<lambda>known.
     if \<not> known then raise Unauthenticated
     else
     bindE (db_query (\<lambda>w. widest_key (api_keys w) uid)) (\<lambda>picked.
     case picked of
       Some key_id \<Rightarrow> ret (uid, key_id)
     | None \<Rightarrow>
         bindE (map_db_err ''synthetic api_key upsert''
           (upsert_synthetic_api_key X new_key_id uid
              (''openweights:'' @ (if uid < 0 then ''-'' else []) @ show_nat (nat \<bar>uid\<bar>)))) (\<lambda>key_id.
         ret (uid, key_id))))))"

definition resolve_hf_user ::
  "'x auth_ext_scheme \<Rightarrow> uuid \<Rightarrow> XetJwtClaims \<Rightarrow> ('z, AppError, int \<times> uuid) acc_io" where
  "resolve_hf_user X new_key_id claims =
     bindE (map_db_err ''xet jwt user upsert'' (upsert_hf_user X (user_id claims))) (\<lambda>uid.
     bindE (map_db_err ''xet jwt synthetic api_key upsert'' (upsert_synthetic_api_key X new_key_id uid (user_id claims)))
       (\<lambda>key_id. ret (uid, key_id)))"

definition authenticate_xet_jwt ::
  "'x auth_ext_scheme \<Rightarrow> byte list \<Rightarrow> byte \<Rightarrow> uuid \<Rightarrow> string \<Rightarrow> ('z, AppError, AuthContext) acc_io" where
  "authenticate_xet_jwt X signing_key S new_key_id token =
     bindE (gets clock) (\<lambda>now.
     case decode_and_validate X now token of
       Inl _ \<Rightarrow> raise Unauthenticated
     | Inr claims \<Rightarrow>
         bindE (lift_res (require_scope S (claim_scopes claims))) (\<lambda>_.
         bindE (if iss claims = OPENWEIGHTS_ISSUER
                then resolve_openweights_user X signing_key new_key_id token claims
                else resolve_hf_user X new_key_id claims) (\<lambda>(uid, key_id).
         ret \<lparr>ctx_api_key_id = key_id, ctx_user_id = uid, ctx_scopes = claim_scopes claims\<rparr>)))"

definition lookup_key :: "hash \<Rightarrow> ('z, AppError, ActiveKey) acc_io" where
  "lookup_key h =
     bindE (gets (\<lambda>w. cache_get h (clock w) (key_cache w))) (\<lambda>(cached, c).
     bindE (modify (\<lambda>w. w\<lparr>key_cache := c\<rparr>)) (\<lambda>_.
     case cached of
       Some k \<Rightarrow> ret k
     | None \<Rightarrow>
         bindE (fetch_active_key_by_hash h) (\<lambda>found.
         case found of
           None \<Rightarrow> raise Unauthenticated
         | Some k \<Rightarrow>
             bindE (modify (\<lambda>w. w\<lparr>key_cache := cache_put (cache_capacity w) h k (key_cache w)\<rparr>)) (\<lambda>_. ret k))))"

definition authenticate_key :: "'x auth_ext_scheme \<Rightarrow> byte \<Rightarrow> string \<Rightarrow> ('z, AppError, AuthContext) acc_io" where
  "authenticate_key X S plaintext =
     bindE (lookup_key (x_digest X (as_bytes plaintext))) (\<lambda>k.
     bindE (lift_res (require_scope S (ac_scopes k))) (\<lambda>_.
     bindE (touch_last_used (ac_id k)) (\<lambda>_.
     ret \<lparr>ctx_api_key_id = ac_id k, ctx_user_id = ac_user_id k, ctx_scopes = ac_scopes k\<rparr>)))"

definition auth_scoped ::
  "'x auth_ext_scheme \<Rightarrow> byte list \<Rightarrow> byte \<Rightarrow> uuid \<Rightarrow> string option \<Rightarrow> string option \<Rightarrow> ('z, AppError, AuthContext) acc_io" where
  "auth_scoped X signing_key S new_key_id auth_header xet_header =
     (let bearer = (case auth_header of None \<Rightarrow> None | Some v \<Rightarrow>
            (case header_to_str v of None \<Rightarrow> None | Some s \<Rightarrow> strip_prefix ''Bearer '' s));
          xet = (case xet_header of None \<Rightarrow> None | Some v \<Rightarrow> header_to_str v)
      in case bearer of
           None \<Rightarrow> (case xet of Some token \<Rightarrow> authenticate_xet_jwt X signing_key S new_key_id token | None \<Rightarrow> raise Unauthenticated)
         | Some plaintext \<Rightarrow>
             if looks_like_jwt plaintext then authenticate_xet_jwt X signing_key S new_key_id plaintext
             else authenticate_key X S plaintext)"


section \<open>Tokens of this server\<close>

text \<open>What the crates promise for one token: base64 reads what it wrote and has no dot in its alphabet, the
  JSON codec reads what it wrote, and HMAC accepts the key.\<close>

definition jwt_laws :: "'x auth_ext_scheme \<Rightarrow> byte list \<Rightarrow> XetJwtClaims \<Rightarrow> bool" where
  "jwt_laws X key c \<longleftrightarrow>
     (\<forall>b. x_b64_url_decode X (x_b64_url_encode X b) = Some b \<and> CHR ''.'' \<notin> set (x_b64_url_encode X b))
   \<and> x_claims_from_slice X (x_claims_to_vec X c) = Some c \<and> x_hmac_new X key \<noteq> None"

lemma segments3_join:
  assumes "CHR ''.'' \<notin> set a" and "CHR ''.'' \<notin> set b" and "CHR ''.'' \<notin> set c"
  shows "segments3 (a @ ''.'' @ b @ ''.'' @ c) = Some (a, b, c)"
  using assms by (simp add: segments3_def split_on_append split_on_no_sep)

text \<open>C21: a token this server mints is accepted by this server, with the claims it was minted with, until its
  last second inclusive, unless the clock ran back by more than the tolerance.\<close>

theorem minted_token_roundtrip:
  assumes "jwt_laws X key (minted_claims t repo uid acc ttl)" and "key \<noteq> []"
  shows "\<exists>tok. mint_openweights_token X key t repo uid acc ttl = Some tok
    \<and> verify_openweights_signature X tok key = Inr ()
    \<and> decode_and_validate X t' tok =
        (if now_secs t + sint ttl < now_secs t' then Inl JExpired
         else if now_secs t' + MAX_CLOCK_SKEW_SECS < now_secs t then Inl IssuedInFuture
         else Inr (minted_claims t repo uid acc ttl))"
proof -
  let ?c = "minted_claims t repo uid acc ttl"
  obtain k where k: "x_hmac_new X key = Some k" using assms(1) by (auto simp: jwt_laws_def)
  let ?h = "x_b64_url_encode X (as_bytes jwt_header)" and ?p = "x_b64_url_encode X (x_claims_to_vec X ?c)"
  let ?s = "x_b64_url_encode X (x_hmac X k (as_bytes (?h @ ''.'' @ ?p)))"
  have b: "x_b64_url_decode X (x_b64_url_encode X b) = Some b" "CHR ''.'' \<notin> set (x_b64_url_encode X b)" for b
    using assms(1) by (auto simp: jwt_laws_def)
  have "segments3 (?h @ ''.'' @ ?p @ ''.'' @ ?s) = Some (?h, ?p, ?s)"
    by (rule segments3_join) (rule b(2))+
  moreover have "x_claims_from_slice X (x_claims_to_vec X ?c) = Some ?c" using assms(1) by (simp add: jwt_laws_def)
  ultimately show ?thesis
    using assms(2) by (auto simp: mint_openweights_token_def Let_def k verify_openweights_signature_def decode_and_validate_def b(1)
        minted_claims_def EXPECTED_ISSUERS_def)
qed

section \<open>What an accepted token proves\<close>

lemma resolve_openweights_Inr:
  assumes "fst (resolve_openweights_user X key i token claims w) = Inr (uid, key_id)"
  shows "verify_openweights_signature X token key = Inr () \<and> parse_i64 (user_id claims) = Some uid \<and> map_of (users w) uid \<noteq> None"
proof -
  have v: "verify_openweights_signature X token key = Inr ()"
    using assms by (cases "verify_openweights_signature X token key") (simp_all add: resolve_openweights_user_def raise_def)
  then obtain u where u: "parse_i64 (user_id claims) = Some u"
    using assms by (cases "parse_i64 (user_id claims)") (simp_all add: resolve_openweights_user_def bindE_def lift_res_def)
  show ?thesis
  proof (cases rule: io_step_cases [of db_error "\<lambda>w. (map_of (users w) u \<noteq> None, w)" w])
    case (fault fs)
    then show ?thesis using assms v u by (simp add: resolve_openweights_user_def bindE_def lift_res_def db_query_def)
  next
    case (ran fs)
    then show ?thesis using assms v u
      by (auto simp: resolve_openweights_user_def bindE_def lift_res_def db_query_def raise_def ret_def
          split: prod.splits sum.splits option.splits if_splits)
  qed
qed

lemma authenticate_xet_jwt_Inr:
  assumes "fst (authenticate_xet_jwt X key S i token w) = Inr ctx"
  obtains claims where "decode_and_validate X (clock w) token = Inr claims" "require_scope S (claim_scopes claims) = Inr ()"
    "ctx_scopes ctx = claim_scopes claims"
    "iss claims = OPENWEIGHTS_ISSUER \<longrightarrow>
       fst (resolve_openweights_user X key i token claims w) = Inr (ctx_user_id ctx, ctx_api_key_id ctx)"
proof -
  obtain claims where d: "decode_and_validate X (clock w) token = Inr claims"
    using assms by (cases "decode_and_validate X (clock w) token") (simp_all add: authenticate_xet_jwt_def io_defs)
  moreover from d have s: "require_scope S (claim_scopes claims) = Inr ()"
    using assms by (cases "require_scope S (claim_scopes claims)") (simp_all add: authenticate_xet_jwt_def io_defs)
  moreover have "ctx_scopes ctx = claim_scopes claims"
    "iss claims = OPENWEIGHTS_ISSUER \<longrightarrow>
       fst (resolve_openweights_user X key i token claims w) = Inr (ctx_user_id ctx, ctx_api_key_id ctx)"
    using assms d s by (auto simp: authenticate_xet_jwt_def io_defs split: prod.splits sum.splits if_splits)
  ultimately show ?thesis by (rule that)
qed

text \<open>C11: what an accepted token is good for. The caller gets exactly the scopes the access claim of the token names: upload
  and download for write access, download alone for read access and none otherwise, so never the admin scope; and the
  required scope is one of them. A token that names this server as its issuer is signed under the
  server's key, has not expired, and its user exists; a server with no key accepts none.\<close>

theorem accepted_token_authority:
  assumes "fst (authenticate_xet_jwt X key S i token w) = Inr ctx"
  shows "Admin \<notin> set (ctx_scopes ctx) \<and> (S = SCOPE_ANY \<or> (\<exists>r. from_u8 S = Some r \<and> r \<in> set (ctx_scopes ctx)))
    \<and> (\<exists>claims. decode_and_validate X (clock w) token = Inr claims \<and> now_secs (clock w) \<le> jexp claims
        \<and> (Upload \<in> set (ctx_scopes ctx) \<longleftrightarrow> access claims = ''WRITE'')
        \<and> (Download \<in> set (ctx_scopes ctx) \<longleftrightarrow> access claims = ''WRITE'' \<or> access claims = ''READ'')
        \<and> (iss claims = OPENWEIGHTS_ISSUER \<and> key \<noteq> [] \<and> verify_openweights_signature X token key = Inr ()
             \<and> parse_i64 (user_id claims) = Some (ctx_user_id ctx) \<and> map_of (users w) (ctx_user_id ctx) \<noteq> None
           \<or> iss claims = HF_ISSUER))"
proof -
  obtain claims where c: "decode_and_validate X (clock w) token = Inr claims" "require_scope S (claim_scopes claims) = Inr ()"
    "ctx_scopes ctx = claim_scopes claims"
    "iss claims = OPENWEIGHTS_ISSUER \<longrightarrow> fst (resolve_openweights_user X key i token claims w) = Inr (ctx_user_id ctx, ctx_api_key_id ctx)"
    using authenticate_xet_jwt_Inr [OF assms] .
  have d: "now_secs (clock w) \<le> jexp claims" "iss claims = OPENWEIGHTS_ISSUER \<or> iss claims = HF_ISSUER"
    using c(1) by (auto simp: decode_and_validate_def EXPECTED_ISSUERS_def split: option.splits if_splits)
  have "Admin \<notin> set (claim_scopes claims)" "Upload \<in> set (claim_scopes claims) \<longleftrightarrow> access claims = ''WRITE''"
    "Download \<in> set (claim_scopes claims) \<longleftrightarrow> access claims = ''WRITE'' \<or> access claims = ''READ''"
    by (simp_all add: claim_scopes_def)
  moreover have "S = SCOPE_ANY \<or> (\<exists>r. from_u8 S = Some r \<and> r \<in> set (claim_scopes claims))"
    using c(2) by (auto simp: require_scope_def split: if_splits option.splits)
  moreover have "key \<noteq> []" if "verify_openweights_signature X token key = Inr ()"
    using that by (auto simp: verify_openweights_signature_def)
  moreover have "verify_openweights_signature X token key = Inr () \<and> parse_i64 (user_id claims) = Some (ctx_user_id ctx)
      \<and> map_of (users w) (ctx_user_id ctx) \<noteq> None" if "iss claims = OPENWEIGHTS_ISSUER"
    using c(4) that by (intro resolve_openweights_Inr) blast
  ultimately show ?thesis
    using d c(1,3) by auto
qed


section \<open>The synthetic key\<close>

lemma upsert_hf_user_run:
  assumes "faults w = []" and "fst (upsert_hf_user X hf w) = Inr uid"
  obtains us where "snd (upsert_hf_user X hf w) = w\<lparr>users := us\<rparr>"
  using assms
  by (auto simp: upsert_hf_user_def bindE_def db_exec_def io_step_no_fault Let_def ret_def raise_def split: option.splits if_splits)

lemma upsert_synthetic_run:
  assumes "faults w = []" and "key_with_hash (api_keys w) (x_digest X (as_bytes (synthetic_secret hf))) = None"
    and "fst (upsert_synthetic_api_key X i uid hf w) = Inr key_id"
  shows "key_id = i \<and> snd (upsert_synthetic_api_key X i uid hf w) = w\<lparr>api_keys := api_keys w @ [(i,
    \<lparr>ak_user_id = uid, ak_key_hash = x_digest X (as_bytes (synthetic_secret hf)), ak_scopes = [Upload, Download],
     ak_label = Some ''hf-jwt-synthetic'', ak_masked_prefix = None, ak_created_at = clock w, ak_revoked_at = None,
     ak_last_used_at = None\<rparr>)]\<rparr>"
  using assms
  by (auto simp: upsert_synthetic_api_key_def bindE_def db_exec_def io_step_no_fault Let_def ret_def raise_def insert_row_def
      split: if_splits)

lemma find_append_none: "find P xs = None \<Longrightarrow> find P (xs @ ys) = find P ys"
  by (induction xs) (auto split: if_splits)

lemma find_live_none: "key_with_hash keys h = None \<Longrightarrow> find (\<lambda>(i, k). ak_key_hash k = h \<and> ak_revoked_at k = None) keys = None"
  by (auto simp: key_with_hash_def find_None_iff)

lemma authenticate_key_fresh:
  assumes "faults w = []" and "map_of (key_cache w) (x_digest X (as_bytes p)) = None"
    and "find (\<lambda>(i, k). ak_key_hash k = x_digest X (as_bytes p) \<and> ak_revoked_at k = None) (api_keys w) = Some (i, row)"
    and "require_scope S (ak_scopes row) = Inr ()"
  shows "fst (authenticate_key X S p w) = Inr \<lparr>ctx_api_key_id = i, ctx_user_id = ak_user_id row, ctx_scopes = ak_scopes row\<rparr>"
  using assms
  by (simp add: authenticate_key_def lookup_key_def io_defs cache_get_def fetch_active_key_by_hash_def db_query_def
      io_step_no_fault active_key_def touch_last_used_def db_update_def)

text \<open>C33: the secret of a synthetic key can be guessed. Once a Hugging Face token, whose signature nobody checks,
  has been accepted for a user, the plain bearer string made of a fixed prefix and the public user
  id opens the same account, with the upload scope, with no token at all and even if the token was
  for reading only.\<close>

theorem synthetic_key_is_guessable:
  assumes "faults w = []" and "decode_and_validate X (clock w) token = Inr claims" and "iss claims = HF_ISSUER"
    and "fst (authenticate_xet_jwt X key S i token w) = Inr ctx"
    and "key_with_hash (api_keys w) (x_digest X (as_bytes (synthetic_secret (user_id claims)))) = None"
    and "map_of (key_cache w) (x_digest X (as_bytes (synthetic_secret (user_id claims)))) = None"
    and "header_to_str (''Bearer '' @ synthetic_secret (user_id claims)) \<noteq> None"
    and "\<not> looks_like_jwt (synthetic_secret (user_id claims))"
  shows "fst (auth_scoped X key' SCOPE_UPLOAD i' (Some (''Bearer '' @ synthetic_secret (user_id claims))) None
      (snd (authenticate_xet_jwt X key S i token w)))
    = Inr \<lparr>ctx_api_key_id = ctx_api_key_id ctx, ctx_user_id = ctx_user_id ctx, ctx_scopes = [Upload, Download]\<rparr>"
proof -
  let ?hf = "user_id claims" and ?w' = "snd (authenticate_xet_jwt X key S i token w)"
  have ne: "HF_ISSUER \<noteq> OPENWEIGHTS_ISSUER" by (simp add: HF_ISSUER_def OPENWEIGHTS_ISSUER_def)
  have s: "require_scope S (claim_scopes claims) = Inr ()"
    using assms(2,4) by (cases "require_scope S (claim_scopes claims)") (simp_all add: authenticate_xet_jwt_def io_defs)
  obtain r1 w1 where u: "upsert_hf_user X ?hf w = (r1, w1)" by fastforce
  then obtain uid where uid: "r1 = Inr uid"
    using assms(2-4) s ne by (cases r1) (simp_all add: authenticate_xet_jwt_def io_defs resolve_hf_user_def map_db_err_def)
  obtain us where w1: "w1 = w\<lparr>users := us\<rparr>" using upsert_hf_user_run [OF assms(1), of X ?hf uid] u uid by auto
  obtain r2 w2 where k: "upsert_synthetic_api_key X i uid ?hf w1 = (r2, w2)" by fastforce
  then obtain key_id where r2: "r2 = Inr key_id"
    using assms(2-4) s ne u uid by (cases r2) (simp_all add: authenticate_xet_jwt_def io_defs resolve_hf_user_def map_db_err_def)
  have run: "key_id = i" and w2: "w2 = w1\<lparr>api_keys := api_keys w1 @ [(i,
      \<lparr>ak_user_id = uid, ak_key_hash = x_digest X (as_bytes (synthetic_secret ?hf)), ak_scopes = [Upload, Download],
       ak_label = Some ''hf-jwt-synthetic'', ak_masked_prefix = None, ak_created_at = clock w1, ak_revoked_at = None,
       ak_last_used_at = None\<rparr>)]\<rparr>"
    using upsert_synthetic_run [of w1 X ?hf i uid key_id] assms(1,5) k r2 w1 by simp_all
  have "ctx = \<lparr>ctx_api_key_id = i, ctx_user_id = uid, ctx_scopes = claim_scopes claims\<rparr>" and w': "?w' = w2"
    using assms(2-4) s ne u uid k r2 run by (simp_all add: authenticate_xet_jwt_def io_defs resolve_hf_user_def map_db_err_def)
  moreover have "fst (authenticate_key X SCOPE_UPLOAD (synthetic_secret ?hf) w2)
      = Inr \<lparr>ctx_api_key_id = i, ctx_user_id = uid, ctx_scopes = [Upload, Download]\<rparr>"
  proof -
    have f: "find (\<lambda>(i, k). ak_key_hash k = x_digest X (as_bytes (synthetic_secret ?hf)) \<and> ak_revoked_at k = None) (api_keys w2)
        = Some (i, \<lparr>ak_user_id = uid, ak_key_hash = x_digest X (as_bytes (synthetic_secret ?hf)), ak_scopes = [Upload, Download],
           ak_label = Some ''hf-jwt-synthetic'', ak_masked_prefix = None, ak_created_at = clock w1, ak_revoked_at = None,
           ak_last_used_at = None\<rparr>)"
      using find_live_none [OF assms(5)] by (simp add: w2 w1 find_append_none)
    from authenticate_key_fresh [OF _ _ f, of SCOPE_UPLOAD] assms(1,6) show ?thesis
      by (simp add: w2 w1 require_scope_def scope_consts from_u8_def)
  qed
  ultimately show ?thesis
    using assms(7,8) by (auto simp: auth_scoped_def Let_def header_to_str_def split: if_splits)
qed


section \<open>Witnesses\<close>

text \<open>A codec that reads one fixed set of claims; the digest is the identity.\<close>

definition toy_aext :: "XetJwtClaims \<Rightarrow> auth_ext" where
  "toy_aext c = url_ext.extend toy_ext
     \<lparr>x_digest = (\<lambda>bs. bs), x_claims_to_vec = (\<lambda>_. []), x_claims_from_slice = (\<lambda>_. Some c)\<rparr>"

lemma toy_aext_sel [simp]:
  "x_digest (toy_aext c) = (\<lambda>bs. bs)" "x_claims_to_vec (toy_aext c) = (\<lambda>_. [])" "x_claims_from_slice (toy_aext c) = (\<lambda>_. Some c)"
  "x_b64_url_encode (toy_aext c) = hex_of" "x_b64_url_decode (toy_aext c) = hex_pairs (\<lambda>hi lo. of_nat (16 * hi + lo))"
  "x_hmac_new (toy_aext c) = Some" "x_hmac (toy_aext c) = (@)"
  by (simp_all add: toy_aext_def url_ext.defs toy_ext_def)

lemma toy_jwt_laws: "jwt_laws (toy_aext c) key c"
  using hex_pairs_hex_of by (simp add: jwt_laws_def hex_of_notin del: of_nat_add of_nat_mult)

theorem minted_token_roundtrip_witness:
  "\<exists>tok. mint_openweights_token (toy_aext (minted_claims 0 ''r'' ''1'' Write 900)) [1] 0 ''r'' ''1'' Write 900 = Some tok
     \<and> decode_and_validate (toy_aext (minted_claims 0 ''r'' ''1'' Write 900)) 900000 tok = Inr (minted_claims 0 ''r'' ''1'' Write 900)"
proof -
  have "sint (900::u64) = 900" by simp
  with minted_token_roundtrip [OF toy_jwt_laws, of "[1]" 0 "''r''" "''1''" Write 900 900000] show ?thesis
    by (auto simp: now_secs_def MAX_CLOCK_SKEW_SECS_def)
qed

definition hf_claims :: XetJwtClaims where
  "hf_claims = \<lparr>repo_id = ''r'', user_id = ''69'', access = ''READ'', iat = 0, jexp = 900, iss = HF_ISSUER\<rparr>"

lemma toy_token: "decode_and_validate (toy_aext hf_claims) 0 ''00.00.00'' = Inr hf_claims"
  by (simp add: decode_and_validate_def segments3_def hf_claims_def EXPECTED_ISSUERS_def now_secs_def MAX_CLOCK_SKEW_SECS_def
      to_digit16_def)

lemma empty_accounts_sel [simp]:
  "faults empty_accounts = []" "clock empty_accounts = 0" "users empty_accounts = []" "api_keys empty_accounts = []"
  "key_cache empty_accounts = []" "sessions empty_accounts = []" "oauth_states empty_accounts = []" "cache_capacity empty_accounts = 10000"
  by (simp_all add: empty_accounts_def world.defs empty_world_def)

lemma toy_hf_accepted:
  "\<exists>uid. fst (authenticate_xet_jwt (toy_aext hf_claims) [] SCOPE_DOWNLOAD 7 ''00.00.00'' empty_accounts)
     = Inr \<lparr>ctx_api_key_id = 7, ctx_user_id = uid, ctx_scopes = [Download]\<rparr>"
proof -
  have "iss hf_claims \<noteq> OPENWEIGHTS_ISSUER" by (simp add: hf_claims_def HF_ISSUER_def OPENWEIGHTS_ISSUER_def)
  then show ?thesis
    by (simp add: authenticate_xet_jwt_def toy_token io_defs resolve_hf_user_def map_db_err_def upsert_hf_user_def
        upsert_synthetic_api_key_def db_exec_def io_step_no_fault Let_def hf_user_of_def login_taken_def key_with_hash_def
        insert_row_def require_scope_def scope_consts from_u8_def) (simp add: claim_scopes_def hf_claims_def)
qed

theorem accepted_token_authority_witness:
  "\<exists>ctx. fst (authenticate_xet_jwt (toy_aext hf_claims) [] SCOPE_DOWNLOAD 7 ''00.00.00'' empty_accounts) = Inr ctx
     \<and> Admin \<notin> set (ctx_scopes ctx)"
  using toy_hf_accepted accepted_token_authority [of "toy_aext hf_claims" "[]" SCOPE_DOWNLOAD 7 "''00.00.00''" empty_accounts]
  by blast

theorem synthetic_key_is_guessable_witness:
  "\<exists>uid. fst (auth_scoped (toy_aext hf_claims) [] SCOPE_UPLOAD 8 (Some ''Bearer hf-jwt:69'') None
      (snd (authenticate_xet_jwt (toy_aext hf_claims) [] SCOPE_DOWNLOAD 7 ''00.00.00'' empty_accounts)))
    = Inr \<lparr>ctx_api_key_id = 7, ctx_user_id = uid, ctx_scopes = [Upload, Download]\<rparr>"
proof -
  obtain uid where u: "fst (authenticate_xet_jwt (toy_aext hf_claims) [] SCOPE_DOWNLOAD 7 ''00.00.00'' empty_accounts)
     = Inr \<lparr>ctx_api_key_id = 7, ctx_user_id = uid, ctx_scopes = [Download]\<rparr>" using toy_hf_accepted by blast
  have "''Bearer '' @ synthetic_secret (user_id hf_claims) = ''Bearer hf-jwt:69''"
    by (simp add: synthetic_secret_def hf_claims_def)
  moreover have "header_to_str ''Bearer hf-jwt:69'' \<noteq> None" by (simp add: header_to_str_def)
  moreover have "\<not> looks_like_jwt (synthetic_secret (user_id hf_claims))"
    by (simp add: looks_like_jwt_def synthetic_secret_def hf_claims_def)
  ultimately show ?thesis
    using synthetic_key_is_guessable [OF _ _ _ u, of hf_claims "[]" 8] toy_token
    by (auto simp: hf_claims_def key_with_hash_def)
qed

end
