(* ===== verification/Console.thy ===== *)
theory Console
  imports Bearer_Auth
begin

text \<open>
  The console routes: API keys (\<^verbatim>\<open>handlers/admin/keys.rs\<close>) and
  the ways in and out (\<^verbatim>\<open>handlers/auth/password.rs\<close>, \<^verbatim>\<open>auth/github.rs\<close>, \<^verbatim>\<open>auth/logout.rs\<close>). A handler
  receives what its extractors produced: the session user, the decoded body, the query. The answers
  of GitHub are parameters.
\<close>

section \<open>API keys\<close>

datatype ConsoleScope = CRead | CWrite | CReadWrite | CAdmin

fun to_db_scopes :: "ConsoleScope \<Rightarrow> ApiKeyScope list" where
  "to_db_scopes CRead = [Download]"
| "to_db_scopes CWrite = [Upload]"
| "to_db_scopes CReadWrite = [Download, Upload]"
| "to_db_scopes CAdmin = [Admin]"

definition from_db_scopes :: "ApiKeyScope list \<Rightarrow> ConsoleScope" where
  "from_db_scopes scopes =
     (let has_up = Upload \<in> set scopes; has_down = Download \<in> set scopes in
      if Admin \<in> set scopes then CAdmin
      else if has_up \<and> has_down then CReadWrite
      else if has_up then CWrite
      else CRead)"

record CreateKeyRequest =
  ckr_name :: string
  ckr_scope :: ConsoleScope

record CreateKeyResponse =
  ck_id :: uuid
  ck_name :: string
  ck_scope :: ConsoleScope
  ck_masked_prefix :: string
  ck_plaintext_key :: string
  ck_created_at :: int

record KeyListItem =
  kl_id :: uuid
  kl_name :: "string option"
  kl_scope :: ConsoleScope
  kl_masked_prefix :: "string option"
  kl_created_at :: int
  kl_last_used_at :: "int option"

text \<open>\<open>raw\<close> is what \<^verbatim>\<open>getrandom\<close> delivers, \<open>new_id\<close> the id Postgres generates. The row needs its user
  (foreign key), a fresh id and a fresh hash (unique).\<close>

definition create_key ::
  "'x auth_ext_scheme \<Rightarrow> byte list option \<Rightarrow> uuid \<Rightarrow> SessionUser \<Rightarrow> CreateKeyRequest
     \<Rightarrow> ('z, AppError, CreateKeyResponse) acc_io" where
  "create_key X raw new_id user req =
     (let name = trim (ckr_name req) in
      if name = [] then raise (BadRequest ''name must not be empty'')
      else if length name > 80 then raise (BadRequest ''name must be <= 80 chars'')
      else case raw of
        None \<Rightarrow> raise (Other ''getrandom'')
      | Some bytes \<Rightarrow>
          let plaintext = x_b64_url_encode X bytes;
              key_hash = x_digest X (as_bytes plaintext);
              masked_prefix = take 8 plaintext @ ''...''
          in bindE (db_checked
               (\<lambda>w. map_of (users w) (su_id user) \<noteq> None \<and> map_of (api_keys w) new_id = None
                    \<and> key_with_hash (api_keys w) key_hash = None)
               (\<lambda>w. w\<lparr>api_keys := insert_row new_id
                  \<lparr>ak_user_id = su_id user, ak_key_hash = key_hash, ak_scopes = to_db_scopes (ckr_scope req),
                   ak_label = Some name, ak_masked_prefix = Some masked_prefix, ak_created_at = clock w,
                   ak_revoked_at = None, ak_last_used_at = None\<rparr> (api_keys w)\<rparr>)) (\<lambda>_.
             gets (\<lambda>w. \<lparr>ck_id = new_id, ck_name = name, ck_scope = ckr_scope req, ck_masked_prefix = masked_prefix,
                ck_plaintext_key = plaintext, ck_created_at = clock w\<rparr>)))"

definition key_list_item :: "uuid \<times> key_row \<Rightarrow> KeyListItem" where
  "key_list_item p = (case p of (i, k) \<Rightarrow>
     \<lparr>kl_id = i, kl_name = ak_label k, kl_scope = from_db_scopes (ak_scopes k), kl_masked_prefix = ak_masked_prefix k,
      kl_created_at = ak_created_at k, kl_last_used_at = ak_last_used_at k\<rparr>)"

definition list_keys :: "SessionUser \<Rightarrow> ('z, AppError, KeyListItem list) acc_io" where
  "list_keys user =
     db_query (\<lambda>w. map key_list_item (sort_key (\<lambda>(i, k). - ak_created_at k)
       (filter (\<lambda>(i, k). ak_user_id k = su_id user \<and> ak_revoked_at k = None) (api_keys w))))"

definition revoke_key :: "SessionUser \<Rightarrow> uuid \<Rightarrow> ('z, AppError, unit) acc_io" where
  "revoke_key user i =
     bindE (db_exec (\<lambda>w.
       let hit = (case map_of (api_keys w) i of None \<Rightarrow> False
                  | Some k \<Rightarrow> ak_user_id k = su_id user \<and> ak_revoked_at k = None) in
       (hit, if hit then w\<lparr>api_keys := update_row i (\<lambda>k. k\<lparr>ak_revoked_at := Some (clock w)\<rparr>) (api_keys w)\<rparr> else w)))
     (\<lambda>hit. if hit then ret () else raise NotFound)"

section \<open>Signing in with a password\<close>

definition ADMIN_USER_ID :: int where
  "ADMIN_USER_ID = - 1"

record password_env =
  pe_admin_password :: string
  pe_admin_username :: string
  pe_github_configured :: bool

definition auth_methods :: "password_env \<Rightarrow> bool \<times> bool" where
  "auth_methods P = (pe_admin_password P \<noteq> [], pe_github_configured P)"

definition ensure_admin_user :: "string \<Rightarrow> ('z, AppError, unit) acc_io" where
  "ensure_admin_user username =
     db_checked (\<lambda>w. \<not> login_taken (users w) ADMIN_USER_ID username)
       (\<lambda>w. w\<lparr>users :=
          (if map_of (users w) ADMIN_USER_ID = None
           then users w @ [(ADMIN_USER_ID,
              \<lparr>usr_github_login = username, usr_email = None, usr_avatar_url = None, usr_is_admin = True,
               usr_hf_user_id = None, usr_revoked_at = None\<rparr>)]
           else update_row ADMIN_USER_ID
              (\<lambda>u. u\<lparr>usr_github_login := username, usr_is_admin := True, usr_revoked_at := None\<rparr>) (users w))\<rparr>)"

text \<open>The reply is the \<^verbatim>\<open>Set-Cookie\<close> header of the 204.\<close>

definition login :: "'x auth_ext_scheme \<Rightarrow> password_env \<Rightarrow> uuid \<Rightarrow> string \<Rightarrow> ('z, AppError, string) acc_io" where
  "login X P new_sid password =
     (if pe_admin_password P = [] then raise Unauthenticated
      else if x_digest X (as_bytes password) \<noteq> x_digest X (as_bytes (pe_admin_password P)) then raise Unauthenticated
      else bindE (ensure_admin_user (pe_admin_username P)) (\<lambda>_.
           bindE (mint_session new_sid ADMIN_USER_ID) (\<lambda>(sid, _).
           ret (session_cookie_header (url_ext.truncate X) sid))))"

section \<open>Signing out\<close>

definition logout :: "url_ext \<Rightarrow> string option \<Rightarrow> ('z, AppError, string) acc_io" where
  "logout X cookie_header =
     bindE (lift_res (ok_or Unauthenticated
       (case cookie_header of None \<Rightarrow> None | Some v \<Rightarrow>
         (case header_to_str v of None \<Rightarrow> None | Some raw \<Rightarrow> parse_session_cookie X raw)))) (\<lambda>sid.
     bindE (revoke_session sid) (\<lambda>_. ret clear_session_cookie_header))"

section \<open>Signing in through GitHub\<close>

datatype CallbackError = StateMismatch | CodeMissing | TokenExchangeFailed string | CbDb | CbOther string

definition callback_status :: "CallbackError \<Rightarrow> nat \<times> json" where
  "callback_status e =
     (case e of
        StateMismatch \<Rightarrow> (400, JObj [(''code'', JStr ''oauth_state_mismatch'')])
      | CodeMissing \<Rightarrow> (400, JObj [(''code'', JStr ''oauth_code_missing'')])
      | TokenExchangeFailed detail \<Rightarrow> (502, JObj [(''code'', JStr ''github_token_exchange_failed''), (''detail'', JStr detail)])
      | CbDb \<Rightarrow> (500, JObj [(''code'', JStr ''internal'')])
      | CbOther detail \<Rightarrow> (500, JObj [(''code'', JStr ''internal'')]))"

text \<open>The outcome of an HTTP call with a JSON reply; an error status is given as it is displayed.\<close>

datatype 'a http = SendFailed string | NotSuccess string | ParseFailed string | Parsed 'a

record TokenResponse =
  tr_access_token :: "string option"
  tr_error :: "string option"
  tr_error_description :: "string option"

record GithubProfile =
  gp_id :: int
  gp_login :: string
  gp_avatar_url :: "string option"
  gp_email :: "string option"

record GithubEmail =
  ge_email :: string
  ge_primary :: bool
  ge_verified :: bool

text \<open>GitHub's three endpoints and what \<^verbatim>\<open>HeaderValue::from_str\<close> accepts are parameters; the cookie headers
  are ASCII texts it always accepts.\<close>

record github_env =
  g_client_id :: string
  g_callback_url :: string
  g_console_base_url :: string
  g_token :: "string \<Rightarrow> TokenResponse http"
  g_user :: "string \<Rightarrow> GithubProfile http"
  g_emails :: "string \<Rightarrow> GithubEmail list http"
  g_header_ok :: "string \<Rightarrow> bool"

definition unreserved :: "byte \<Rightarrow> bool" where
  "unreserved b \<longleftrightarrow> (65 \<le> b \<and> b \<le> 90) \<or> (97 \<le> b \<and> b \<le> 122) \<or> (48 \<le> b \<and> b \<le> 57) \<or> b \<in> {45, 95, 46, 126}"

definition upper_hex :: "nat \<Rightarrow> char" where
  "upper_hex d = (if d < 10 then char_of (48 + d) else char_of (55 + d))"

definition urlencode :: "string \<Rightarrow> string" where
  "urlencode s = concat (map (\<lambda>c. let b = of_char c :: byte in
     if unreserved b then [c]
     else [CHR ''%'', upper_hex (unat (drop_bit 4 b)), upper_hex (unat (b AND 15))]) s)"

definition oauth_start :: "'x auth_ext_scheme \<Rightarrow> github_env \<Rightarrow> byte list option \<Rightarrow> ('z, AppError, string) acc_io" where
  "oauth_start X G raw =
     (case raw of
        None \<Rightarrow> raise (Other ''getrandom'')
      | Some bytes \<Rightarrow>
          let state_nonce = x_b64_url_encode X bytes in
          bindE (insert_oauth_state state_nonce) (\<lambda>_.
          let authorize_url = ''https://github.com/login/oauth/authorize?client_id='' @ urlencode (g_client_id G)
             @ ''&redirect_uri='' @ urlencode (g_callback_url G)
             @ ''&scope='' @ urlencode ''user:email read:user''
             @ ''&state='' @ urlencode state_nonce
          in if g_header_ok G authorize_url then ret authorize_url else raise (Other ''invalid header value'')))"

definition exchange_code :: "github_env \<Rightarrow> string \<Rightarrow> CallbackError + string" where
  "exchange_code G code =
     (case g_token G code of
        SendFailed e \<Rightarrow> Inl (TokenExchangeFailed e)
      | NotSuccess st \<Rightarrow> Inl (TokenExchangeFailed (''github returned '' @ st))
      | ParseFailed e \<Rightarrow> Inl (TokenExchangeFailed (''parse: '' @ e))
      | Parsed body \<Rightarrow>
          (case tr_access_token body of
             Some tok \<Rightarrow> Inr tok
           | None \<Rightarrow> Inl (TokenExchangeFailed
               (case tr_error_description body of Some d \<Rightarrow> d
                | None \<Rightarrow> (case tr_error body of Some d \<Rightarrow> d | None \<Rightarrow> ''no access_token in response'')))))"

definition fetch_user_profile :: "github_env \<Rightarrow> string \<Rightarrow> CallbackError + GithubProfile" where
  "fetch_user_profile G tok =
     (case g_user G tok of
        SendFailed e \<Rightarrow> Inl (CbOther (''user fetch: '' @ e))
      | NotSuccess st \<Rightarrow> Inl (CbOther (''/user returned '' @ st))
      | ParseFailed e \<Rightarrow> Inl (CbOther (''user parse: '' @ e))
      | Parsed p \<Rightarrow> Inr p)"

definition fetch_primary_verified_email :: "github_env \<Rightarrow> string \<Rightarrow> CallbackError + string option" where
  "fetch_primary_verified_email G tok =
     (case g_emails G tok of
        SendFailed e \<Rightarrow> Inl (CbOther (''emails fetch: '' @ e))
      | NotSuccess st \<Rightarrow> Inr None
      | ParseFailed e \<Rightarrow> Inl (CbOther (''emails parse: '' @ e))
      | Parsed es \<Rightarrow> Inr (map_option ge_email (find (\<lambda>e. ge_primary e \<and> ge_verified e) es)))"

text \<open>The upsert by numeric id; whether the row is new. The login is unique.\<close>

definition upsert_user :: "GithubProfile \<Rightarrow> string option \<Rightarrow> ('z, AppError, bool) acc_io" where
  "upsert_user p email =
     bindE (db_exec (\<lambda>w.
       if login_taken (users w) (gp_id p) (gp_login p) then (None, w)
       else if map_of (users w) (gp_id p) = None
       then (Some True, w\<lparr>users := users w @ [(gp_id p,
              \<lparr>usr_github_login = gp_login p, usr_email = email, usr_avatar_url = gp_avatar_url p, usr_is_admin = False,
               usr_hf_user_id = None, usr_revoked_at = None\<rparr>)]\<rparr>)
       else (Some False, w\<lparr>users := update_row (gp_id p)
              (\<lambda>u. u\<lparr>usr_github_login := gp_login p, usr_email := email, usr_avatar_url := gp_avatar_url p\<rparr>) (users w)\<rparr>)))
     (\<lambda>r. case r of Some b \<Rightarrow> ret b | None \<Rightarrow> raise db_error)"

definition map_cb_err :: "('z, AppError, 'a) io \<Rightarrow> ('z, CallbackError, 'a) io" where
  "map_cb_err m w = (case m w of (Inl _, w') \<Rightarrow> (Inl CbDb, w') | (Inr a, w') \<Rightarrow> (Inr a, w'))"

definition trim_end_slashes :: "string \<Rightarrow> string" where
  "trim_end_slashes s = rev (dropWhile (\<lambda>c. c = CHR ''/'') (rev s))"

text \<open>What follows the state check; the reply is the location and the cookie of the 302.\<close>

definition callback_rest ::
  "'x auth_ext_scheme \<Rightarrow> github_env \<Rightarrow> uuid \<Rightarrow> string option \<Rightarrow> ('z, CallbackError, string \<times> string) acc_io" where
  "callback_rest X G new_sid q_code =
     bindE (lift_res (ok_or CodeMissing q_code)) (\<lambda>code.
     bindE (lift_res (exchange_code G code)) (\<lambda>tok.
     bindE (lift_res (fetch_user_profile G tok)) (\<lambda>profile.
     let email = (case gp_email profile of Some e \<Rightarrow> Some e
                  | None \<Rightarrow> (case fetch_primary_verified_email G tok of Inr e \<Rightarrow> e | Inl _ \<Rightarrow> None)) in
     bindE (map_cb_err (upsert_user profile email)) (\<lambda>is_new.
     bindE (map_cb_err (mint_session new_sid (gp_id profile))) (\<lambda>(sid, _).
     let destination = trim_end_slashes (g_console_base_url G) @ (if is_new then ''/keys'' else ''/dashboard'') in
     if g_header_ok G destination then ret (destination, session_cookie_header (url_ext.truncate X) sid)
     else raise (CbOther ''invalid header value''))))))"

definition callback ::
  "'x auth_ext_scheme \<Rightarrow> github_env \<Rightarrow> uuid \<Rightarrow> string option \<Rightarrow> string option \<Rightarrow> ('z, CallbackError, string \<times> string) acc_io" where
  "callback X G new_sid q_code q_state =
     bindE (lift_res (ok_or StateMismatch q_state)) (\<lambda>state_nonce.
     bindE (map_cb_err (consume_oauth_state state_nonce)) (\<lambda>consumed.
     if \<not> consumed then raise StateMismatch else callback_rest X G new_sid q_code))"


section \<open>A created key\<close>

lemma console_scope_roundtrip [simp]: "from_db_scopes (to_db_scopes s) = s"
  by (cases s) (simp_all add: from_db_scopes_def)

definition new_key :: "'x auth_ext_scheme \<Rightarrow> byte list \<Rightarrow> SessionUser \<Rightarrow> CreateKeyRequest \<Rightarrow> int \<Rightarrow> key_row" where
  "new_key X raw user req t =
     \<lparr>ak_user_id = su_id user, ak_key_hash = x_digest X (as_bytes (x_b64_url_encode X raw)),
      ak_scopes = to_db_scopes (ckr_scope req), ak_label = Some (trim (ckr_name req)),
      ak_masked_prefix = Some (take 8 (x_b64_url_encode X raw) @ ''...''), ak_created_at = t,
      ak_revoked_at = None, ak_last_used_at = None\<rparr>"

definition key_acceptable :: "'x auth_ext_scheme \<Rightarrow> byte list \<Rightarrow> uuid \<Rightarrow> SessionUser \<Rightarrow> ('z accounts_scheme) \<Rightarrow> bool" where
  "key_acceptable X raw i user w \<longleftrightarrow> map_of (users w) (su_id user) \<noteq> None \<and> map_of (api_keys w) i = None
     \<and> key_with_hash (api_keys w) (x_digest X (as_bytes (x_b64_url_encode X raw))) = None"

lemma create_key_no_fault:
  assumes "faults w = []"
  shows "create_key X (Some raw) i user req w =
    (if trim (ckr_name req) = [] then (Inl (BadRequest ''name must not be empty''), w)
     else if length (trim (ckr_name req)) > 80 then (Inl (BadRequest ''name must be <= 80 chars''), w)
     else if \<not> key_acceptable X raw i user w then (Inl db_error, w)
     else (Inr \<lparr>ck_id = i, ck_name = trim (ckr_name req), ck_scope = ckr_scope req,
                 ck_masked_prefix = take 8 (x_b64_url_encode X raw) @ ''...'',
                 ck_plaintext_key = x_b64_url_encode X raw, ck_created_at = clock w\<rparr>,
           w\<lparr>api_keys := api_keys w @ [(i, new_key X raw user req (clock w))]\<rparr>))"
  using assms
  by (simp add: create_key_def Let_def raise_def bindE_def db_checked_def db_exec_def io_step_no_fault ret_def gets_def
      insert_row_def key_acceptable_def new_key_def)
    auto

lemma create_key_run:
  assumes "faults w = []" and "fst (create_key X (Some raw) i user req w) = Inr r"
  shows "ck_plaintext_key r = x_b64_url_encode X raw \<and> ck_id r = i \<and> key_acceptable X raw i user w
    \<and> snd (create_key X (Some raw) i user req w) = w\<lparr>api_keys := api_keys w @ [(i, new_key X raw user req (clock w))]\<rparr>"
  using assms(2) unfolding create_key_no_fault [OF assms(1)] by (simp split: if_split_asm) (clarsimp)

text \<open>The secret shown once is the key. A key that was created works at once as a bearer key of its owner,
  for exactly the scopes the console asked for; a route that wants another scope refuses it.\<close>

lemma created_key_authenticates:
  assumes "faults w = []" and "fst (create_key X (Some raw) i user req w) = Inr r"
    and "map_of (key_cache w) (x_digest X (as_bytes (ck_plaintext_key r))) = None"
  shows "fst (authenticate_key X S (ck_plaintext_key r) (snd (create_key X (Some raw) i user req w)))
      = (case require_scope S (to_db_scopes (ckr_scope req)) of
           Inl e \<Rightarrow> Inl e
         | Inr _ \<Rightarrow> Inr \<lparr>ctx_api_key_id = ck_id r, ctx_user_id = su_id user, ctx_scopes = to_db_scopes (ckr_scope req)\<rparr>)"
proof -
  have c: "ck_plaintext_key r = x_b64_url_encode X raw" "ck_id r = i" "key_acceptable X raw i user w"
    and w': "snd (create_key X (Some raw) i user req w) = w\<lparr>api_keys := api_keys w @ [(i, new_key X raw user req (clock w))]\<rparr>"
    using create_key_run [OF assms(1,2)] by simp_all
  let ?row = "new_key X raw user req (clock w)"
  have row: "ak_key_hash ?row = x_digest X (as_bytes (x_b64_url_encode X raw))" "ak_revoked_at ?row = None"
      "ak_user_id ?row = su_id user" "ak_scopes ?row = to_db_scopes (ckr_scope req)" by (simp_all add: new_key_def)
  have fresh: "key_with_hash (api_keys w) (x_digest X (as_bytes (x_b64_url_encode X raw))) = None"
    using c(3) by (simp add: key_acceptable_def)
  let ?w = "w\<lparr>api_keys := api_keys w @ [(i, ?row)]\<rparr>"
  have f: "find (\<lambda>(i, k). ak_key_hash k = x_digest X (as_bytes (ck_plaintext_key r)) \<and> ak_revoked_at k = None) (api_keys ?w) = Some (i, ?row)"
    using find_live_none [OF fresh] by (simp add: find_append_none row c(1))
  show ?thesis
  proof (cases "require_scope S (to_db_scopes (ckr_scope req))")
    case (Inl e)
    with f assms(1,3) show ?thesis
      by (simp add: w' authenticate_key_def lookup_key_def io_defs cache_get_def fetch_active_key_by_hash_def db_query_def
          io_step_no_fault active_key_def row)
  next
    case (Inr u)
    with authenticate_key_fresh [OF _ _ f, of S] assms(1,3) show ?thesis by (simp add: w' row c(2))
  qed
qed

section \<open>Witnesses\<close>

definition toy_pw :: password_env where
  "toy_pw = \<lparr>pe_admin_password = ''pw'', pe_admin_username = ''admin'', pe_github_configured = True\<rparr>"

definition toy_session_user :: SessionUser where
  "toy_session_user = \<lparr>su_id = - 1, su_login = ''admin'', su_email = None, su_avatar_url = None, su_is_admin = True\<rparr>"

definition toy_request :: CreateKeyRequest where
  "toy_request = \<lparr>ckr_name = ''k'', ckr_scope = CReadWrite\<rparr>"

text \<open>The operator has signed in; then a key is created.\<close>

definition signed_in :: accounts where
  "signed_in = snd (login (toy_aext hf_claims) toy_pw 3 ''pw'' empty_accounts)"

lemma signed_in_eq:
  "signed_in = empty_accounts\<lparr>
     users := [(- 1, \<lparr>usr_github_login = ''admin'', usr_email = None, usr_avatar_url = None, usr_is_admin = True,
        usr_hf_user_id = None, usr_revoked_at = None\<rparr>)],
     sessions := [(3, \<lparr>ss_user_id = - 1, ss_created_at = 0, ss_expires_at = SESSION_TTL_DAYS * DAY_MS, ss_revoked_at = None,
        ss_last_seen_at = Some 0\<rparr>)]\<rparr>"
  by (simp add: signed_in_def login_def toy_pw_def io_defs ensure_admin_user_def mint_session_def db_checked_def db_exec_def
      io_step_no_fault login_taken_def ADMIN_USER_ID_def insert_row_def)

lemma toy_created: "\<exists>r. fst (create_key (toy_aext hf_claims) (Some [1, 2]) 9 toy_session_user toy_request signed_in) = Inr r
    \<and> ck_plaintext_key r = hex_of [1, 2] \<and> ck_id r = 9"
  by (simp add: create_key_def toy_request_def trim_def is_space_def Let_def io_defs db_checked_def db_exec_def io_step_no_fault
      signed_in_eq toy_session_user_def key_with_hash_def)

lemma created_key_authenticates_witness:
  "fst (authenticate_key (toy_aext hf_claims) SCOPE_UPLOAD (hex_of [1, 2])
      (snd (create_key (toy_aext hf_claims) (Some [1, 2]) 9 toy_session_user toy_request signed_in)))
    = Inr \<lparr>ctx_api_key_id = 9, ctx_user_id = - 1, ctx_scopes = [Download, Upload]\<rparr>"
proof -
  obtain r where r: "fst (create_key (toy_aext hf_claims) (Some [1, 2]) 9 toy_session_user toy_request signed_in) = Inr r"
    "ck_plaintext_key r = hex_of [1, 2]" "ck_id r = 9" using toy_created by blast
  from created_key_authenticates [OF _ r(1), of SCOPE_UPLOAD] r(2,3) show ?thesis
    by (simp add: signed_in_eq toy_request_def toy_session_user_def require_scope_def scope_consts from_u8_def)
qed

end
