(* ===== verification/Account_System.thy ===== *)
theory Account_System
  imports Console
begin

text \<open>
  What the account handlers keep. The locale \<open>account_inv\<close> is the contract of a predicate with the
  elementary table and cache changes; every handler keeps such a predicate, and so does every run
  of the system of handlers, of which \<open>console_step\<close> is the step relation. It is interpreted for the
  three histories the properties need: a consumed nonce, a revoked session, the key cache.
\<close>

section \<open>The contract\<close>

locale account_inv =
  fixes P :: "'z accounts_scheme \<Rightarrow> bool"
  assumes fr: "frame P"
    and on_clock: "P w \<Longrightarrow> 0 \<le> d \<Longrightarrow> P (w\<lparr>clock := clock w + d\<rparr>)"
    and on_users: "P w \<Longrightarrow> P (w\<lparr>users := us\<rparr>)"
    and on_session_insert: "P w \<Longrightarrow> map_of (sessions w) sid = None \<Longrightarrow> P (w\<lparr>sessions := insert_row sid r (sessions w)\<rparr>)"
    and on_session_touch: "P w \<Longrightarrow> map_of (sessions w) sid = Some r \<Longrightarrow> session_live (clock w) r \<Longrightarrow>
      P (w\<lparr>sessions := update_row sid (touched_session (clock w)) (sessions w)\<rparr>)"
    and on_session_revoke: "P w \<Longrightarrow> P (w\<lparr>sessions := update_row sid (\<lambda>r. r\<lparr>ss_revoked_at := Some (clock w)\<rparr>) (sessions w)\<rparr>)"
    and on_oauth_insert: "P w \<Longrightarrow> map_of (oauth_states w) st = None \<Longrightarrow> P (w\<lparr>oauth_states := insert_row st r' (oauth_states w)\<rparr>)"
    and on_oauth_consume: "P w \<Longrightarrow> P (w\<lparr>oauth_states := update_row st (\<lambda>r. r\<lparr>os_consumed_at := Some (clock w)\<rparr>) (oauth_states w)\<rparr>)"
    and on_key_insert: "P w \<Longrightarrow> map_of (api_keys w) i = None \<Longrightarrow> key_with_hash (api_keys w) (ak_key_hash k) = None \<Longrightarrow>
      ak_revoked_at k = None \<Longrightarrow> P (w\<lparr>api_keys := insert_row i k (api_keys w)\<rparr>)"
    and on_key_touch: "P w \<Longrightarrow> P (w\<lparr>api_keys := update_row i (\<lambda>k. k\<lparr>ak_last_used_at := Some (clock w)\<rparr>) (api_keys w)\<rparr>)"
    and on_key_revoke: "P w \<Longrightarrow> map_of (api_keys w) i = Some k \<Longrightarrow> ak_revoked_at k = None \<Longrightarrow>
      P (w\<lparr>api_keys := update_row i (\<lambda>k. k\<lparr>ak_revoked_at := Some (clock w)\<rparr>) (api_keys w)\<rparr>)"
    and on_cache_get: "P w \<Longrightarrow> P (w\<lparr>key_cache := snd (cache_get h (clock w) (key_cache w))\<rparr>)"
    and on_cache_put: "P w \<Longrightarrow> find (\<lambda>(i, k). ak_key_hash k = h \<and> ak_revoked_at k = None) (api_keys w) = Some p \<Longrightarrow>
      P (w\<lparr>key_cache := cache_put (cache_capacity w) h (active_key (clock w) p) (key_cache w)\<rparr>)"
begin

lemma keeps_checked: "(\<And>w. P w \<Longrightarrow> ok w \<Longrightarrow> P (f w)) \<Longrightarrow> keeps P (db_checked ok f)"
  unfolding db_checked_def by (intro keeps_bind keeps_db_exec fr) (auto intro: keeps_ret)

lemma keeps_exec: "(\<And>w. P w \<Longrightarrow> P (snd (f w))) \<Longrightarrow> keeps P (db_exec f)"
  by (rule keeps_db_exec [OF fr])

lemma keeps_query: "keeps P (db_query f)"
  by (rule keeps_db_query [OF fr])

lemma keeps_mint_session: "keeps P (mint_session sid uid)"
  unfolding mint_session_def by (intro keeps_bind keeps_checked keeps_ret) (auto intro: on_session_insert)

lemma keeps_touch_session: "keeps P (touch_session sid)"
  unfolding touch_session_def by (rule keeps_exec) (auto intro: on_session_touch split: option.split)

lemma keeps_revoke_session: "keeps P (revoke_session sid)"
  unfolding revoke_session_def by (rule keeps_exec) (auto intro: on_session_revoke simp: Let_def)

lemma keeps_session_extractor: "keeps P (session_extractor X h)"
  unfolding session_extractor_def by (intro keeps_bind keeps_ret keeps_touch_session)

lemma keeps_insert_oauth_state: "keeps P (insert_oauth_state st)"
  unfolding insert_oauth_state_def by (rule keeps_checked) (auto intro: on_oauth_insert)

lemma keeps_consume_oauth_state: "keeps P (consume_oauth_state st)"
  unfolding consume_oauth_state_def by (rule keeps_exec) (auto intro: on_oauth_consume simp: Let_def)

lemma keeps_upsert_hf_user: "keeps P (upsert_hf_user X hf)"
  unfolding upsert_hf_user_def
  by (intro keeps_bind keeps_exec) (auto simp: Let_def intro: on_users keeps_ret split: option.split)

lemma keeps_upsert_synthetic: "keeps P (upsert_synthetic_api_key X i uid hf)"
  unfolding upsert_synthetic_api_key_def
  by (intro keeps_bind keeps_exec) (auto simp: Let_def intro: on_key_touch on_key_insert keeps_ret split: option.split)

lemma keeps_touch_last_used: "keeps P (touch_last_used i)"
  unfolding touch_last_used_def by (intro keeps_attempt keeps_db_update fr on_key_touch)

lemma keeps_map_db_err: "keeps P m \<Longrightarrow> keeps P (map_db_err s m)"
  by (auto simp: keeps_def map_db_err_def split: prod.split sum.split)

lemma keeps_map_cb_err: "keeps P m \<Longrightarrow> keeps P (map_cb_err m)"
  by (auto simp: keeps_def map_cb_err_def split: prod.split sum.split)

lemma keeps_lookup_key: "keeps P (lookup_key h)"
  unfolding keeps_def
proof (intro allI impI)
  fix w assume "P w"
  let ?g = "cache_get h (clock w) (key_cache w)"
  let ?w = "w\<lparr>key_cache := snd ?g\<rparr>"
  have w: "P ?w" using on_cache_get [OF \<open>P w\<close>] .
  show "P (snd (lookup_key h w))"
  proof (cases "fst ?g")
    case (Some k)
    then show ?thesis using w by (simp add: lookup_key_def io_defs case_prod_beta)
  next
    case None
    let ?f = "\<lambda>w. map_option (active_key (clock w)) (find (\<lambda>(i, k). ak_key_hash k = h \<and> ak_revoked_at k = None) (api_keys w))"
    show ?thesis
    proof (cases rule: io_step_cases [of db_error "\<lambda>w. (?f w, w)" ?w])
      case (fault fs)
      then show ?thesis using None w by (simp add: lookup_key_def io_defs case_prod_beta fetch_active_key_by_hash_def db_query_def frameD [OF fr])
    next
      case (ran fs)
      have w': "P (?w\<lparr>faults := fs\<rparr>)" using w by (simp add: frameD [OF fr])
      show ?thesis
      proof (cases "find (\<lambda>(i, k). ak_key_hash k = h \<and> ak_revoked_at k = None) (api_keys w)")
        case None
        then show ?thesis using ran w' \<open>fst ?g = None\<close>
          by (simp add: lookup_key_def io_defs case_prod_beta fetch_active_key_by_hash_def db_query_def)
      next
        case (Some p)
        then show ?thesis using ran \<open>fst ?g = None\<close> on_cache_put [OF w', of h p]
          by (simp add: lookup_key_def io_defs case_prod_beta fetch_active_key_by_hash_def db_query_def)
      qed
    qed
  qed
qed

lemma keeps_authenticate_key: "keeps P (authenticate_key X S p)"
  unfolding authenticate_key_def by (intro keeps_bind keeps_lookup_key keeps_ret keeps_touch_last_used)

lemma keeps_auth_scoped: "keeps P (auth_scoped X key S i ah xh)"
proof -
  have o: "keeps P (resolve_openweights_user X key i t c)" for t c
    unfolding resolve_openweights_user_def
    by (auto intro!: keeps_bind keeps_ret keeps_query keeps_map_db_err keeps_upsert_synthetic split: sum.split option.split)
  have h: "keeps P (resolve_hf_user X i c)" for c
    unfolding resolve_hf_user_def by (intro keeps_bind keeps_ret keeps_map_db_err keeps_upsert_synthetic keeps_upsert_hf_user)
  have j: "keeps P (authenticate_xet_jwt X key S i t)" for t
    unfolding authenticate_xet_jwt_def using o h
    by (auto intro!: keeps_bind keeps_ret split: sum.split prod.split)
  show ?thesis
    unfolding auth_scoped_def using keeps_authenticate_key j by (auto simp: Let_def intro: keeps_ret split: option.split)
qed

lemma keeps_create_key: "keeps P (create_key X raw i user req)"
  unfolding create_key_def Let_def
  by (auto intro!: keeps_bind keeps_ret keeps_checked on_key_insert split: option.split)

lemma keeps_revoke_key: "keeps P (revoke_key user i)"
  unfolding revoke_key_def
  by (intro keeps_bind keeps_exec) (auto simp: Let_def intro: on_key_revoke keeps_ret split: option.splits)

lemma keeps_login: "keeps P (login X Pw sid pw)"
proof -
  have "keeps P (ensure_admin_user u)" for u
    unfolding ensure_admin_user_def by (rule keeps_checked) (rule on_users)
  then show ?thesis
    unfolding login_def by (auto intro!: keeps_bind keeps_ret keeps_mint_session split: prod.split)
qed

lemma keeps_logout: "keeps P (logout X h)"
  unfolding logout_def by (intro keeps_bind keeps_ret keeps_revoke_session)

lemma keeps_oauth_start: "keeps P (oauth_start X G raw)"
  unfolding oauth_start_def Let_def by (auto intro!: keeps_bind keeps_ret keeps_insert_oauth_state split: option.split)

lemma keeps_callback_rest: "keeps P (callback_rest X G sid c)"
proof -
  have "keeps P (upsert_user p e)" for p e
    unfolding upsert_user_def
    by (intro keeps_bind keeps_exec) (auto intro: on_users keeps_ret split: option.split)
  then show ?thesis
    unfolding callback_rest_def Let_def
    by (auto intro!: keeps_bind keeps_ret keeps_map_cb_err keeps_mint_session split: prod.split)
qed

lemma keeps_callback: "keeps P (callback X G sid c st)"
  unfolding callback_def
  by (auto intro!: keeps_bind keeps_ret keeps_map_cb_err keeps_consume_oauth_state keeps_callback_rest)

end


section \<open>The system of handlers\<close>

inductive console_step ::
  "auth_ext \<Rightarrow> github_env \<Rightarrow> password_env \<Rightarrow> byte list \<Rightarrow> 'z accounts_scheme \<Rightarrow> 'z accounts_scheme \<Rightarrow> bool"
  for X :: auth_ext and G :: github_env and Pw :: password_env and key :: "byte list" where
  cs_auth: "console_step X G Pw key w (snd (auth_scoped X key S i ah xh w))"
| cs_session: "console_step X G Pw key w (snd (session_extractor (url_ext.truncate X) h w))"
| cs_create: "console_step X G Pw key w (snd (create_key X raw i user req w))"
| cs_revoke: "console_step X G Pw key w (snd (revoke_key user i w))"
| cs_login: "console_step X G Pw key w (snd (login X Pw sid pw w))"
| cs_logout: "console_step X G Pw key w (snd (logout (url_ext.truncate X) h w))"
| cs_start: "console_step X G Pw key w (snd (oauth_start X G raw w))"
| cs_callback: "console_step X G Pw key w (snd (callback X G sid c st w))"
| cs_time: "0 \<le> d \<Longrightarrow> console_step X G Pw key w (w\<lparr>clock := clock w + d\<rparr>)"

context account_inv
begin

lemma console_step_keeps: "console_step X G Pw key w w' \<Longrightarrow> P w \<Longrightarrow> P w'"
  by (induction rule: console_step.induct)
    (auto intro: keepsD keeps_auth_scoped keeps_session_extractor keeps_create_key keeps_revoke_key keeps_login keeps_logout
      keeps_oauth_start keeps_callback on_clock)

end

sublocale account_inv \<subseteq> runs: step_system P "console_step X G Pw key" P
  by unfold_locales (auto intro: console_step_keeps)

subsection \<open>A consumed nonce stays consumed\<close>

definition nonce_spent :: "string \<Rightarrow> 'z accounts_scheme \<Rightarrow> bool" where
  "nonce_spent st w \<longleftrightarrow> (\<exists>r. map_of (oauth_states w) st = Some r \<and> os_consumed_at r \<noteq> None)"

interpretation nonce: account_inv "nonce_spent st"
  by unfold_locales
    (auto simp: nonce_spent_def frame_def map_of_insert_row map_of_update_row)

subsection \<open>A revoked session stays revoked\<close>

definition session_revoked :: "uuid \<Rightarrow> 'z accounts_scheme \<Rightarrow> bool" where
  "session_revoked sid w \<longleftrightarrow> (\<exists>r. map_of (sessions w) sid = Some r \<and> ss_revoked_at r \<noteq> None)"

interpretation gone: account_inv "session_revoked sid"
  by unfold_locales
    (auto simp: session_revoked_def frame_def map_of_insert_row map_of_update_row touched_session_def)

subsection \<open>The key cache tells the recent truth\<close>

definition entry_ok :: "int \<Rightarrow> (uuid \<times> key_row) list \<Rightarrow> hash \<times> ActiveKey \<Rightarrow> bool" where
  "entry_ok now keys e \<longleftrightarrow> ac_loaded_at (snd e) \<le> now \<and>
     (case map_of keys (ac_id (snd e)) of
        None \<Rightarrow> False
      | Some row \<Rightarrow> ak_key_hash row = fst e \<and> ak_user_id row = ac_user_id (snd e) \<and> ak_scopes row = ac_scopes (snd e)
          \<and> (case ak_revoked_at row of None \<Rightarrow> True | Some t \<Rightarrow> ac_loaded_at (snd e) \<le> t))"

definition cache_inv :: "'z accounts_scheme \<Rightarrow> bool" where
  "cache_inv w \<longleftrightarrow> distinct (map fst (api_keys w)) \<and> (\<forall>e\<in>set (key_cache w). entry_ok (clock w) (api_keys w) e)"

lemma entry_ok_update:
  assumes "entry_ok now keys e"
    and "\<And>k. ak_key_hash (f k) = ak_key_hash k \<and> ak_user_id (f k) = ak_user_id k \<and> ak_scopes (f k) = ak_scopes k"
    and "\<And>k. map_of keys i = Some k \<Longrightarrow> ak_revoked_at (f k) = ak_revoked_at k \<or> ak_revoked_at (f k) = Some now"
  shows "entry_ok now (update_row i f keys) e"
  using assms by (auto simp: entry_ok_def map_of_update_row split: option.splits)

lemma entry_ok_insert: "entry_ok now keys e \<Longrightarrow> map_of keys i = None \<Longrightarrow> entry_ok now (insert_row i k keys) e"
  by (auto simp: entry_ok_def map_of_insert_row split: option.splits)

lemma cache_get_subset: "set (snd (cache_get h now c)) \<subseteq> set c"
  by (auto simp: cache_get_def Let_def dest: map_of_SomeD split: option.splits)

lemma cache_put_subset: "set (cache_put cap h k c) \<subseteq> insert (h, k) (set c)"
  by (auto simp: cache_put_def dest!: in_set_takeD)

lemma fetched_entry_ok:
  assumes "distinct (map fst keys)" and "find (\<lambda>(i, k). ak_key_hash k = h \<and> ak_revoked_at k = None) keys = Some p"
  shows "entry_ok now keys (h, active_key now p)"
proof -
  obtain i k where p: "p = (i, k)" by fastforce
  have "(i, k) \<in> set keys" "ak_key_hash k = h" "ak_revoked_at k = None"
    using assms(2) p by (auto simp: find_Some_iff) (metis nth_mem)
  then show ?thesis using assms(1) by (simp add: entry_ok_def active_key_def p)
qed

interpretation cache: account_inv cache_inv
proof unfold_locales
  fix w :: "'a accounts_scheme" and h
  assume "cache_inv w"
  then show "cache_inv (w\<lparr>key_cache := snd (cache_get h (clock w) (key_cache w))\<rparr>)"
    using cache_get_subset by (fastforce simp: cache_inv_def)
next
  fix w :: "'a accounts_scheme" and h p
  assume i: "cache_inv w" and f: "find (\<lambda>(i, k). ak_key_hash k = h \<and> ak_revoked_at k = None) (api_keys w) = Some p"
  then have "entry_ok (clock w) (api_keys w) (h, active_key (clock w) p)"
    by (intro fetched_entry_ok) (simp_all add: cache_inv_def)
  with i show "cache_inv (w\<lparr>key_cache := cache_put (cache_capacity w) h (active_key (clock w) p) (key_cache w)\<rparr>)"
    using cache_put_subset by (fastforce simp: cache_inv_def)
next
  fix w :: "'a accounts_scheme" and i k
  assume "cache_inv w" "map_of (api_keys w) i = None"
  then show "cache_inv (w\<lparr>api_keys := insert_row i k (api_keys w)\<rparr>)"
    by (simp add: cache_inv_def entry_ok_insert)
next
  fix w :: "'a accounts_scheme" and i
  assume "cache_inv w"
  then show "cache_inv (w\<lparr>api_keys := update_row i (\<lambda>k. k\<lparr>ak_last_used_at := Some (clock w)\<rparr>) (api_keys w)\<rparr>)"
    by (auto simp: cache_inv_def intro!: entry_ok_update)
next
  fix w :: "'a accounts_scheme" and i k
  assume "cache_inv w" "map_of (api_keys w) i = Some k"
  then show "cache_inv (w\<lparr>api_keys := update_row i (\<lambda>k. k\<lparr>ak_revoked_at := Some (clock w)\<rparr>) (api_keys w)\<rparr>)"
    by (auto simp: cache_inv_def intro!: entry_ok_update)
next
  fix w :: "'a accounts_scheme" and d :: int
  assume "cache_inv w" "0 \<le> d"
  then show "cache_inv (w\<lparr>clock := clock w + d\<rparr>)"
    by (fastforce simp: cache_inv_def entry_ok_def)
qed (auto simp: cache_inv_def frame_def)


section \<open>What a successful key check says\<close>

lemma cache_get_hit:
  assumes "fst (cache_get h now c) = Some k"
  shows "(h, k) \<in> set c" and "now - ac_loaded_at k \<le> KEY_CACHE_TTL_MS"
  using assms by (auto simp: cache_get_def Let_def dest: map_of_SomeD split: option.splits if_splits)

lemma lookup_key_hit:
  assumes "cache_inv w" and "fst (lookup_key h w) = Inr k"
  shows "entry_ok (clock w) (api_keys w) (h, k)
    \<and> (clock w - ac_loaded_at k \<le> KEY_CACHE_TTL_MS)"
proof (cases "fst (cache_get h (clock w) (key_cache w))")
  case (Some k')
  then have "k' = k" using assms(2) by (simp add: lookup_key_def io_defs case_prod_beta)
  then show ?thesis using cache_get_hit [OF Some] assms(1) by (auto simp: cache_inv_def)
next
  case None
  let ?w = "w\<lparr>key_cache := snd (cache_get h (clock w) (key_cache w))\<rparr>"
  let ?f = "\<lambda>w. map_option (active_key (clock w)) (find (\<lambda>(i, k). ak_key_hash k = h \<and> ak_revoked_at k = None) (api_keys w))"
  show ?thesis
  proof (cases rule: io_step_cases [of db_error "\<lambda>w. (?f w, w)" ?w])
    case (fault fs)
    then show ?thesis using None assms(2)
      by (simp add: lookup_key_def io_defs case_prod_beta fetch_active_key_by_hash_def db_query_def)
  next
    case (ran fs)
    then obtain p where p: "find (\<lambda>(i, k). ak_key_hash k = h \<and> ak_revoked_at k = None) (api_keys w) = Some p" "k = active_key (clock w) p"
      using None assms(2)
      by (auto simp: lookup_key_def io_defs case_prod_beta fetch_active_key_by_hash_def db_query_def split: option.splits)
    have "entry_ok (clock w) (api_keys w) (h, k)"
      unfolding p(2) using assms(1) p(1) by (intro fetched_entry_ok) (simp_all add: cache_inv_def)
    then show ?thesis by (simp add: p(2) active_key_def KEY_CACHE_TTL_MS_def)
  qed
qed

lemma authenticate_key_hit:
  assumes "fst (authenticate_key X S p w) = Inr ctx"
  shows "\<exists>k. fst (lookup_key (x_digest X (as_bytes p)) w) = Inr k \<and> require_scope S (ac_scopes k) = Inr ()
    \<and> ctx = \<lparr>ctx_api_key_id = ac_id k, ctx_user_id = ac_user_id k, ctx_scopes = ac_scopes k\<rparr>"
proof (cases "lookup_key (x_digest X (as_bytes p)) w")
  case (Pair r w1)
  then obtain k where k: "r = Inr k" using assms by (cases r) (simp_all add: authenticate_key_def bindE_def)
  then have s: "require_scope S (ac_scopes k) = Inr ()"
    using assms Pair by (cases "require_scope S (ac_scopes k)") (simp_all add: authenticate_key_def bindE_def lift_res_def)
  obtain w2 where "touch_last_used (ac_id k) w1 = (Inr (), w2)"
    unfolding touch_last_used_def discard_def by (cases "db_update (\<lambda>w. w\<lparr>api_keys := update_row (ac_id k) (\<lambda>ka. ka\<lparr>ak_last_used_at := Some (clock w)\<rparr>) (api_keys w)\<rparr>) w1") auto
  then show ?thesis using assms Pair k s by (auto simp: authenticate_key_def bindE_def lift_res_def ret_def)
qed

lemma require_scope_Inr: "require_scope S scopes = Inr () \<Longrightarrow> S = SCOPE_ANY \<or> (\<exists>r. from_u8 S = Some r \<and> r \<in> set scopes)"
  by (auto simp: require_scope_def split: if_splits option.splits)

lemma cache_inv_empty: "cache_inv empty_accounts"
  by (simp add: cache_inv_def empty_accounts_def world.defs)

section \<open>Properties\<close>

text \<open>C10: an API key works only while it is live or for five seconds after. In every state the handlers reach,
  a bearer key that is accepted belongs to a stored key with exactly this hash; the caller is its
  owner with its scopes, the required scope is among them, and if the key was revoked this was at
  most the age limit of the cache ago.\<close>

theorem revoked_key_dies_within_ttl:
  assumes "(console_step X G Pw key)\<^sup>*\<^sup>* empty_accounts w"
    and "fst (authenticate_key X S p w) = Inr ctx"
  shows "\<exists>row. map_of (api_keys w) (ctx_api_key_id ctx) = Some row \<and> ak_key_hash row = x_digest X (as_bytes p)
    \<and> ctx_user_id ctx = ak_user_id row \<and> ctx_scopes ctx = ak_scopes row
    \<and> (S = SCOPE_ANY \<or> (\<exists>r. from_u8 S = Some r \<and> r \<in> set (ctx_scopes ctx)))
    \<and> (case ak_revoked_at row of None \<Rightarrow> True | Some t \<Rightarrow> clock w \<le> t + KEY_CACHE_TTL_MS)"
proof -
  have inv: "cache_inv w" using cache.runs.reachable_inv [OF cache_inv_empty assms(1)] .
  obtain k where k: "fst (lookup_key (x_digest X (as_bytes p)) w) = Inr k" "require_scope S (ac_scopes k) = Inr ()"
    "ctx = \<lparr>ctx_api_key_id = ac_id k, ctx_user_id = ac_user_id k, ctx_scopes = ac_scopes k\<rparr>"
    using authenticate_key_hit [OF assms(2)] by blast
  from lookup_key_hit [OF inv k(1)] require_scope_Inr [OF k(2)] show ?thesis
    by (auto simp: k(3) entry_ok_def split: option.splits)
qed

text \<open>C19: a session that was signed out is dead. After a logout that succeeded, no later request carrying that
  cookie is taken for a signed-in user, whatever happens in between.\<close>

theorem logged_out_session_is_dead:
  fixes w w' :: "'z accounts_scheme"
  assumes "header_to_str h = Some raw" and "parse_session_cookie (url_ext.truncate X) raw = Some sid"
    and "map_of (sessions w) sid \<noteq> None"
    and "fst (logout (url_ext.truncate X) (Some h) w) = Inr c"
    and "(console_step X G Pw key)\<^sup>*\<^sup>* (snd (logout (url_ext.truncate X) (Some h) w)) w'"
  shows "fst (session_extractor (url_ext.truncate X) (Some h) w') \<in> {Inl Unauthenticated, Inl db_error}"
proof -
  have "session_revoked sid (snd (logout (url_ext.truncate X) (Some h) w))"
  proof (cases rule: io_step_cases [of db_error "\<lambda>w :: 'z accounts_scheme.
       let hit = (case map_of (sessions w) sid of None \<Rightarrow> False | Some r \<Rightarrow> ss_revoked_at r = None) in
       (hit, if hit then w\<lparr>sessions := update_row sid (\<lambda>r. r\<lparr>ss_revoked_at := Some (clock w)\<rparr>) (sessions w)\<rparr> else w)" w])
    case (fault fs)
    then show ?thesis using assms(1,2,4)
      by (simp add: logout_def bindE_def lift_res_def revoke_session_def db_exec_def)
  next
    case (ran fs)
    then show ?thesis using assms(1-3)
      by (auto simp: logout_def bindE_def lift_res_def revoke_session_def db_exec_def ret_def session_revoked_def
          map_of_update_row Let_def)
  qed
  from gone.runs.reachable_inv [OF this assms(5)] obtain r where r: "map_of (sessions w') sid = Some r" "ss_revoked_at r \<noteq> None"
    by (auto simp: session_revoked_def)
  then show ?thesis
    using assms(1,2)
    by (auto simp: session_extractor_def bindE_def lift_res_def touch_session_def db_exec_def io_step_def session_live_def
        split: list.splits)
qed

text \<open>C20: an OAuth nonce opens at most one session. Once a callback got past the state check, every later
  callback with the same nonce is refused, whatever happens in between.\<close>

theorem oauth_nonce_used_once:
  fixes w w' :: "'z accounts_scheme"
  assumes "fst (callback X G sid code (Some st) w) \<noteq> Inl StateMismatch" and "fst (callback X G sid code (Some st) w) \<noteq> Inl CbDb"
    and "(console_step X G Pw key)\<^sup>*\<^sup>* (snd (callback X G sid code (Some st) w)) w'"
  shows "fst (callback X G sid' code' (Some st) w') \<in> {Inl StateMismatch, Inl CbDb}"
proof -
  obtain r w1 where c: "consume_oauth_state st w = (r, w1)" by fastforce
  then have "r = Inr True"
    using assms(1,2) by (cases r) (auto simp: callback_def bindE_def lift_res_def map_cb_err_def raise_def split: if_splits)
  have "nonce_spent st w1"
  proof (cases rule: io_step_cases [of db_error "\<lambda>w :: 'z accounts_scheme.
       let hit = (case map_of (oauth_states w) st of None \<Rightarrow> False | Some r \<Rightarrow> oauth_live (clock w) r) in
       (hit, if hit then w\<lparr>oauth_states := update_row st (\<lambda>r. r\<lparr>os_consumed_at := Some (clock w)\<rparr>) (oauth_states w)\<rparr> else w)" w])
    case (fault fs)
    then show ?thesis using c \<open>r = Inr True\<close> by (simp add: consume_oauth_state_def db_exec_def)
  next
    case (ran fs)
    then show ?thesis using c \<open>r = Inr True\<close>
      by (auto simp: consume_oauth_state_def db_exec_def nonce_spent_def map_of_update_row Let_def split: option.splits)
  qed
  moreover have "snd (callback X G sid code (Some st) w) = snd (callback_rest X G sid code w1)"
    using c \<open>r = Inr True\<close> by (simp add: callback_def callback_rest_def bindE_def lift_res_def map_cb_err_def)
  ultimately have "nonce_spent st (snd (callback X G sid code (Some st) w))"
    using keepsD [OF nonce.keeps_callback_rest] by metis
  from nonce.runs.reachable_inv [OF this assms(3)] show ?thesis
    by (auto simp: nonce_spent_def callback_def bindE_def lift_res_def map_cb_err_def consume_oauth_state_def db_exec_def
        io_step_def oauth_live_def raise_def split: list.splits)
qed


section \<open>Witnesses\<close>

definition toy_github :: github_env where
  "toy_github = \<lparr>g_client_id = ''id'', g_callback_url = ''cb'', g_console_base_url = ''https://c/'',
     g_token = (\<lambda>_. Parsed \<lparr>tr_access_token = Some ''t'', tr_error = None, tr_error_description = None\<rparr>),
     g_user = (\<lambda>_. Parsed \<lparr>gp_id = 42, gp_login = ''octo'', gp_avatar_url = None, gp_email = None\<rparr>),
     g_emails = (\<lambda>_. NotSuccess ''404 Not Found''), g_header_ok = (\<lambda>_. True)\<rparr>"

definition with_key :: accounts where
  "with_key = snd (create_key (toy_aext hf_claims) (Some [1, 2]) 9 toy_session_user toy_request signed_in)"

lemma with_key_reachable: "(console_step (toy_aext hf_claims) toy_github toy_pw [])\<^sup>*\<^sup>* empty_accounts with_key"
proof (rule converse_rtranclp_into_rtranclp)
  show "console_step (toy_aext hf_claims) toy_github toy_pw [] empty_accounts signed_in"
    unfolding signed_in_def by (rule cs_login)
  show "(console_step (toy_aext hf_claims) toy_github toy_pw [])\<^sup>*\<^sup>* signed_in with_key"
    unfolding with_key_def by (rule r_into_rtranclp) (rule cs_create)
qed

theorem revoked_key_dies_within_ttl_witness:
  "\<exists>ctx row. fst (authenticate_key (toy_aext hf_claims) SCOPE_UPLOAD (hex_of [1, 2]) with_key) = Inr ctx
     \<and> map_of (api_keys with_key) (ctx_api_key_id ctx) = Some row \<and> ctx_user_id ctx = ak_user_id row"
proof -
  have "fst (authenticate_key (toy_aext hf_claims) SCOPE_UPLOAD (hex_of [1, 2]) with_key)
      = Inr \<lparr>ctx_api_key_id = 9, ctx_user_id = - 1, ctx_scopes = [Download, Upload]\<rparr>"
    by (simp add: with_key_def create_key_def toy_request_def trim_def is_space_def Let_def io_defs db_checked_def db_exec_def
        io_step_no_fault signed_in_eq toy_session_user_def key_with_hash_def authenticate_key_def lookup_key_def cache_get_def
        fetch_active_key_by_hash_def db_query_def insert_row_def active_key_def touch_last_used_def db_update_def
        require_scope_def scope_consts from_u8_def)
  from this revoked_key_dies_within_ttl [OF with_key_reachable this] show ?thesis by blast
qed

lemma toy_cookie: "parse_session_cookie (url_ext.truncate (toy_aext hf_claims)) ''openweights_session=3'' = Some 3"
proof -
  have "trim ''openweights_session=3'' = ''openweights_session=3''" "trim ''3'' = ''3''"
    by (simp_all add: trim_def is_space_def)
  moreover have "x_uuid_parse (url_ext.truncate (toy_aext hf_claims)) ''3'' = Some 3"
    by (simp add: toy_aext_def url_ext.defs toy_ext_def parse_unsigned_def char_digit_def)
  ultimately show ?thesis
    by (simp add: parse_session_cookie_def cookie_part_def SESSION_COOKIE_NAME_def)
qed

theorem logged_out_session_is_dead_witness:
  "fst (session_extractor (url_ext.truncate (toy_aext hf_claims)) (Some ''openweights_session=3'')
      (snd (logout (url_ext.truncate (toy_aext hf_claims)) (Some ''openweights_session=3'') signed_in)))
    \<in> {Inl Unauthenticated, Inl db_error}"
proof (rule logged_out_session_is_dead [OF _ toy_cookie])
  show "header_to_str ''openweights_session=3'' = Some ''openweights_session=3''" by (simp add: header_to_str_def)
  show "map_of (sessions signed_in) 3 \<noteq> None" by (simp add: signed_in_eq)
  show "fst (logout (url_ext.truncate (toy_aext hf_claims)) (Some ''openweights_session=3'') signed_in) = Inr clear_session_cookie_header"
    using toy_cookie by (simp add: logout_def io_defs header_to_str_def revoke_session_def db_exec_def io_step_no_fault signed_in_eq)
qed (rule rtranclp.rtrancl_refl)

definition nonce_world :: accounts where
  "nonce_world = snd (oauth_start (toy_aext hf_claims) toy_github (Some [7]) empty_accounts)"

lemma nonce_world_eq: "nonce_world = empty_accounts\<lparr>oauth_states :=
    [(hex_of [7], \<lparr>os_created_at = 0, os_consumed_at = None, os_expires_at = OAUTH_TTL_MS\<rparr>)]\<rparr>"
  by (simp add: nonce_world_def oauth_start_def Let_def io_defs insert_oauth_state_def db_checked_def db_exec_def io_step_no_fault
      insert_row_def)

theorem oauth_nonce_used_once_witness:
  "fst (callback (toy_aext hf_claims) toy_github 5 (Some ''c'') (Some (hex_of [7]))
      (snd (callback (toy_aext hf_claims) toy_github 4 (Some ''c'') (Some (hex_of [7])) nonce_world))) \<in> {Inl StateMismatch, Inl CbDb}"
proof -
  have "\<exists>r. fst (callback (toy_aext hf_claims) toy_github 4 (Some ''c'') (Some (hex_of [7])) nonce_world) = Inr r"
    by (simp add: callback_def callback_rest_def io_defs map_cb_err_def consume_oauth_state_def db_exec_def io_step_no_fault nonce_world_eq
        Let_def oauth_live_def OAUTH_TTL_MS_def exchange_code_def fetch_user_profile_def fetch_primary_verified_email_def toy_github_def
        upsert_user_def login_taken_def mint_session_def db_checked_def update_row_def)
  then obtain r where r: "fst (callback (toy_aext hf_claims) toy_github 4 (Some ''c'') (Some (hex_of [7])) nonce_world) = Inr r" ..
  show ?thesis
    by (rule oauth_nonce_used_once [where sid = 4 and code = "Some ''c''" and w = nonce_world and Pw = toy_pw and key = "[]" and w' = "snd (callback (toy_aext hf_claims) toy_github 4 (Some ''c'') (Some (hex_of [7])) nonce_world)"])
      (simp_all add: r)
qed

end
