(* ===== verification/Hub.thy ===== *)
theory Hub
  imports Account_System Hex_Codec
begin

text \<open>
  The Hugging Face compatible API (\<^verbatim>\<open>handlers/hfapi.rs\<close>), first half: repositories, who may read and
  write them, upload negotiation, tokens, and the small-file (LFS) objects. Identifiers a sequence
  generates are arguments. A handler that slices a client's text may panic; its error type is
  \<open>hub_error\<close>.
\<close>

section \<open>State\<close>

datatype repo_visibility = Public | Private | Unlisted

record repo_row =
  rp_owner_user_id :: int
  rp_name :: string
  rp_visibility :: repo_visibility
  rp_description :: "string option"
  rp_created_at :: int
  rp_updated_at :: int

record commit_row =
  cm_repo_id :: int
  cm_parent :: "int option"
  cm_author_user_id :: int
  cm_author_api_key_id :: uuid
  cm_message :: string
  cm_committed_at :: int

record file_row =
  fl_size_bytes :: int
  fl_xet_hash :: "byte list option"
  fl_lfs_oid :: "byte list option"

record lfs_row =
  lo_size_bytes :: int
  lo_content :: "byte list"
  lo_created_at :: int

text \<open>The download rows of \<^verbatim>\<open>usage_log\<close>, whose key may be null, are kept in a list of their own. The hub names a
  file or an object in them; the gateway names a xorb and says whether its cache had it.\<close>

record download_row =
  dl_api_key_id :: "uuid option"
  dl_file_id :: "byte list option"
  dl_xorb_hash :: "byte list option"
  dl_shard_hash :: "byte list option"
  dl_bytes :: int
  dl_cache_hit :: "bool option"
  dl_occurred_at :: int

record hub = accounts +
  repos :: "(int \<times> repo_row) list"
  repo_commits :: "(int \<times> commit_row) list"
  repo_refs :: "((int \<times> string) \<times> int) list"
  repo_files :: "((int \<times> string) \<times> file_row) list"
  lfs_objects :: "(byte list \<times> lfs_row) list"
  repo_downloads :: "((int \<times> int) \<times> (int \<times> int)) list"
  download_log :: "download_row list"

type_synonym ('z, 'e, 'a) hub_io = "'z hub_scheme \<Rightarrow> ('e + 'a) \<times> 'z hub_scheme"

datatype hub_error = App AppError | Panicked

definition app :: "('z, AppError, 'a) io \<Rightarrow> ('z, hub_error, 'a) io" where
  "app m w = (case m w of (Inl e, w') \<Rightarrow> (Inl (App e), w') | (Inr a, w') \<Rightarrow> (Inr a, w'))"

text \<open>\<^verbatim>\<open>hex_decode(s).ok_or(BadRequest(msg))\<close>.\<close>

definition hex_arg :: "string \<Rightarrow> string \<Rightarrow> hub_error + byte list" where
  "hex_arg msg s =
     (case hex_decode s of
        Inl _ \<Rightarrow> Inl Panicked
      | Inr None \<Rightarrow> Inl (App (BadRequest msg))
      | Inr (Some b) \<Rightarrow> Inr b)"

record CommitHeader =
  ch_summary :: "string option"
  ch_description :: "string option"

record CommitFile =
  cf_path :: string
  cf_content :: "string option"
  cf_oid :: "string option"
  cf_size :: "int option"
  cf_xet_hash :: "string option"

text \<open>What the handlers take from configuration and from the crates they call: serde's readers, the chunk
  reader of xet-core (the decompressed chunk at a cursor and the bytes after it), Sia's
  \<^verbatim>\<open>download_range\<close>, the formatting of times and days, and what parses as a header value.\<close>

record hub_env = auth_ext +
  h_signing_key :: "byte list"
  h_cas_public_url :: string
  h_gateway_reads :: bool
  h_json :: "byte list \<Rightarrow> json option"
  h_commit_header :: "json \<Rightarrow> CommitHeader option"
  h_commit_file :: "json \<Rightarrow> CommitFile option"
  h_chunk :: "byte list \<Rightarrow> string + (byte list \<times> byte list)"
  h_sia_read :: "byte list \<Rightarrow> u64 \<Rightarrow> u64 \<Rightarrow> string + byte list"
  h_time :: "int \<Rightarrow> string"
  h_day :: "int \<Rightarrow> string"
  h_header_ok :: "string \<Rightarrow> bool"

definition MAX_LFS_INLINE_BYTES :: nat where
  "MAX_LFS_INLINE_BYTES = 500 * 1024 * 1024"

definition MAX_COMMIT_BYTES :: nat where
  "MAX_COMMIT_BYTES = MAX_LFS_INLINE_BYTES + MAX_LFS_INLINE_BYTES div 2 + 65536"

definition WRITE_TOKEN_TTL_SECS :: u64 where
  "WRITE_TOKEN_TTL_SECS = 900"

definition READ_TOKEN_TTL_SECS :: u64 where
  "READ_TOKEN_TTL_SECS = 3600"

definition current_day :: "int \<Rightarrow> int" where
  "current_day clock_ms = clock_ms div DAY_MS"

definition show_int :: "int \<Rightarrow> string" where
  "show_int i = (if i < 0 then ''-'' else []) @ show_nat (nat \<bar>i\<bar>)"

section \<open>Helpers\<close>

text \<open>The big-endian bytes of an \<^verbatim>\<open>i64\<close>.\<close>

definition i64_be_bytes :: "int \<Rightarrow> byte list" where
  "i64_be_bytes i = map (\<lambda>k. word_of_int (i div 2 ^ (8 * k))) [7, 6, 5, 4, 3, 2, 1, 0]"

definition commit_oid_for :: "'x auth_ext_scheme \<Rightarrow> int \<Rightarrow> string" where
  "commit_oid_for X commit_id = hex_of (take 20 (x_digest X (as_bytes ''openweights:commit:'' @ i64_be_bytes commit_id)))"

definition caller_login :: "int \<Rightarrow> ('z, AppError, string) hub_io" where
  "caller_login uid =
     bindE (db_query (\<lambda>w. map_option usr_github_login (map_of (users w) uid))) (\<lambda>r.
     case r of Some l \<Rightarrow> ret l | None \<Rightarrow> raise (Db ''row not found''))"

definition repo_named :: "'z hub_scheme \<Rightarrow> string \<Rightarrow> string \<Rightarrow> int option" where
  "repo_named w owner repo =
     map_option fst (find (\<lambda>(i, r). rp_name r = repo
        \<and> (case map_of (users w) (rp_owner_user_id r) of None \<Rightarrow> False | Some u \<Rightarrow> usr_github_login u = owner)) (repos w))"

definition find_repo_id :: "string \<Rightarrow> string \<Rightarrow> ('z, AppError, int) hub_io" where
  "find_repo_id owner repo =
     bindE (db_query (\<lambda>w. repo_named w owner repo)) (\<lambda>r. lift_res (ok_or NotFound r))"

definition require_ownership :: "int \<Rightarrow> int \<Rightarrow> ('z, AppError, unit) hub_io" where
  "require_ownership rid uid =
     bindE (db_query (\<lambda>w. map_option rp_owner_user_id (map_of (repos w) rid))) (\<lambda>r.
     case r of
       Some owner \<Rightarrow> if owner = uid then ret () else raise Forbidden
     | None \<Rightarrow> raise NotFound)"

definition require_readable :: "int \<Rightarrow> int option \<Rightarrow> ('z, AppError, unit) hub_io" where
  "require_readable rid viewer =
     bindE (db_query (\<lambda>w. map_option (\<lambda>r. (rp_owner_user_id r, rp_visibility r)) (map_of (repos w) rid))) (\<lambda>r.
     case r of
       None \<Rightarrow> raise NotFound
     | Some (owner, vis) \<Rightarrow>
         if Some owner = viewer then ret ()
         else if vis = Public \<or> vis = Unlisted then ret ()
         else raise NotFound)"

definition ascii_alphanumeric :: "char \<Rightarrow> bool" where
  "ascii_alphanumeric c \<longleftrightarrow> (let n = of_char c :: nat in (48 \<le> n \<and> n \<le> 57) \<or> (65 \<le> n \<and> n \<le> 90) \<or> (97 \<le> n \<and> n \<le> 122))"

definition is_valid_repo_name :: "string \<Rightarrow> bool" where
  "is_valid_repo_name name \<longleftrightarrow> name \<noteq> [] \<and> length name \<le> 96
     \<and> list_all (\<lambda>c. ascii_alphanumeric c \<or> c \<in> {CHR ''-'', CHR ''_'', CHR ''.''}) name
     \<and> hd name \<noteq> CHR ''.''"

definition bearer_of :: "string option \<Rightarrow> string option" where
  "bearer_of auth_header =
     (case auth_header of None \<Rightarrow> None | Some v \<Rightarrow>
       (case header_to_str v of None \<Rightarrow> None | Some s \<Rightarrow> strip_prefix ''Bearer '' s))"

definition live_key :: "'z hub_scheme \<Rightarrow> hash \<Rightarrow> (uuid \<times> key_row) option" where
  "live_key w h = find (\<lambda>(i, k). ak_key_hash k = h \<and> ak_revoked_at k = None) (api_keys w)"

text \<open>\<^verbatim>\<open>.ok().flatten()\<close>: a failing lookup is an anonymous caller.\<close>

definition or_none :: "('z, AppError, 'a option) io \<Rightarrow> ('z, AppError, 'a option) io" where
  "or_none m = bindE (attempt m) (\<lambda>r. case r of Inr x \<Rightarrow> ret x | Inl _ \<Rightarrow> ret None)"

definition optional_viewer_id :: "'x auth_ext_scheme \<Rightarrow> string option \<Rightarrow> ('z, AppError, int option) hub_io" where
  "optional_viewer_id X auth_header =
     (case bearer_of auth_header of
        None \<Rightarrow> ret None
      | Some plaintext \<Rightarrow>
          if looks_like_jwt plaintext then
            gets (\<lambda>w. case decode_and_validate X (clock w) plaintext of
                        Inl _ \<Rightarrow> None | Inr claims \<Rightarrow> parse_i64 (user_id claims))
          else or_none (db_query (\<lambda>w. map_option (\<lambda>p. ak_user_id (snd p)) (live_key w (x_digest X (as_bytes plaintext))))))"

definition optional_api_key_id :: "'x auth_ext_scheme \<Rightarrow> string option \<Rightarrow> ('z, AppError, uuid option) hub_io" where
  "optional_api_key_id X auth_header =
     (case bearer_of auth_header of
        None \<Rightarrow> ret None
      | Some plaintext \<Rightarrow>
          if looks_like_jwt plaintext then ret None
          else or_none (db_query (\<lambda>w. map_option fst (live_key w (x_digest X (as_bytes plaintext))))))"


section \<open>Identity and repositories\<close>

record WhoAmI =
  wa_name :: string
  wa_full_name :: string
  wa_email :: "string option"
  wa_account_type :: string

definition whoami_v2 :: "AuthContext \<Rightarrow> ('z, AppError, WhoAmI) hub_io" where
  "whoami_v2 ctx =
     bindE (db_query (\<lambda>w. map_of (users w) (ctx_user_id ctx))) (\<lambda>r.
     case r of
       None \<Rightarrow> raise (Db ''row not found'')
     | Some u \<Rightarrow> ret \<lparr>wa_name = usr_github_login u, wa_full_name = usr_github_login u, wa_email = usr_email u,
                     wa_account_type = ''user''\<rparr>)"

record CreateRepoReq =
  cq_name :: string
  cq_organization :: "string option"
  cq_private :: bool

record CreateRepoResp =
  cq_url :: string
  cq_endpoint_url :: string
  cq_full_name :: string

text \<open>The insert needs its owner (foreign key) and no repository of this owner and name (unique).\<close>

definition create_repo :: "int \<Rightarrow> AuthContext \<Rightarrow> CreateRepoReq \<Rightarrow> ('z, AppError, CreateRepoResp) hub_io" where
  "create_repo new_id ctx req =
     bindE (caller_login (ctx_user_id ctx)) (\<lambda>login.
     let owner_login = (case cq_organization req of
           Some s \<Rightarrow> if s \<noteq> [] \<and> is_valid_repo_name s then s else login | None \<Rightarrow> login) in
     if \<not> is_valid_repo_name (cq_name req) then raise (BadRequest ''invalid_repo_name'')
     else
     let mine = (\<lambda>(i, r). rp_owner_user_id r = ctx_user_id ctx \<and> rp_name r = cq_name req) in
     bindE (db_query (\<lambda>w. find mine (repos w))) (\<lambda>row.
     bindE (if row \<noteq> None then ret ()
            else db_checked
              (\<lambda>w. map_of (users w) (ctx_user_id ctx) \<noteq> None \<and> map_of (repos w) new_id = None \<and> find mine (repos w) = None)
              (\<lambda>w. w\<lparr>repos := insert_row new_id
                 \<lparr>rp_owner_user_id = ctx_user_id ctx, rp_name = cq_name req,
                  rp_visibility = (if cq_private req then Private else Public), rp_description = None,
                  rp_created_at = clock w, rp_updated_at = clock w\<rparr> (repos w)\<rparr>)) (\<lambda>_.
     let full_name = owner_login @ ''/'' @ cq_name req in
     ret \<lparr>cq_url = full_name, cq_endpoint_url = ''/api/models/'' @ full_name, cq_full_name = full_name\<rparr>)))"

section \<open>Negotiating an upload\<close>

definition ends_with :: "string \<Rightarrow> string \<Rightarrow> bool" where
  "ends_with p s \<longleftrightarrow> strip_suffix p s \<noteq> None"

definition upload_mode :: "string \<Rightarrow> int option \<Rightarrow> string" where
  "upload_mode path sz =
     (let n = (case sz of None \<Rightarrow> 0 | Some s \<Rightarrow> s);
          is_text = path \<in> {''README.md'', ''.gitattributes'', ''config.json'', ''tokenizer.json''}
            \<or> ends_with ''.md'' path \<or> ends_with ''.txt'' path \<or> ends_with ''.json'' path
      in if n \<ge> 10 * 1024 \<or> \<not> is_text then ''lfs'' else ''regular'')"

record PreuploadFileResp =
  pu_path :: string
  pu_upload_mode :: string
  pu_should_ignore :: bool
  pu_oid :: "string option"

definition preupload ::
  "AuthContext \<Rightarrow> string \<Rightarrow> string \<Rightarrow> (string \<times> int option) list \<Rightarrow> ('z, AppError, PreuploadFileResp list) hub_io" where
  "preupload ctx owner repo files =
     bindE (find_repo_id owner repo) (\<lambda>rid.
     bindE (require_ownership rid (ctx_user_id ctx)) (\<lambda>_.
     ret (map (\<lambda>(path, sz). \<lparr>pu_path = path, pu_upload_mode = upload_mode path sz, pu_should_ignore = False, pu_oid = None\<rparr>) files)))"

record XetTokenResp =
  xt_cas_url :: string
  xt_access_token :: string
  xt_exp :: int
  xt_headers :: "(string \<times> string) list"

definition xet_token ::
  "hub_env \<Rightarrow> AuthContext \<Rightarrow> string \<Rightarrow> string \<Rightarrow> OpenWeightsAccess \<Rightarrow> u64 \<Rightarrow> ('z, AppError, XetTokenResp) hub_io" where
  "xet_token H ctx owner repo acc ttl =
     (if h_signing_key H = [] then raise (Other ''xet_jwt_signing_key not configured'')
      else
      bindE (find_repo_id owner repo) (\<lambda>rid.
      bindE (case acc of Write \<Rightarrow> require_ownership rid (ctx_user_id ctx)
                       | Read \<Rightarrow> require_readable rid (Some (ctx_user_id ctx))) (\<lambda>_.
      bindE (gets clock) (\<lambda>now.
      case mint_openweights_token H (h_signing_key H) now (owner @ ''/'' @ repo) (show_int (ctx_user_id ctx)) acc ttl of
        None \<Rightarrow> raise (Other ''hmac key'')
      | Some token \<Rightarrow>
          let e = now_secs now + sint ttl; hdr = (\<lambda>s. if h_header_ok H s then s else []) in
          ret \<lparr>xt_cas_url = h_cas_public_url H, xt_access_token = token, xt_exp = e,
               xt_headers = [(''X-Xet-Cas-Url'', hdr (h_cas_public_url H)), (''X-Xet-Access-Token'', hdr token),
                             (''X-Xet-Token-Expiration'', show_int e)]\<rparr>))))"

definition xet_write_token :: "hub_env \<Rightarrow> AuthContext \<Rightarrow> string \<Rightarrow> string \<Rightarrow> ('z, AppError, XetTokenResp) hub_io" where
  "xet_write_token H ctx owner repo = xet_token H ctx owner repo Write WRITE_TOKEN_TTL_SECS"

definition xet_read_token :: "hub_env \<Rightarrow> AuthContext \<Rightarrow> string \<Rightarrow> string \<Rightarrow> ('z, AppError, XetTokenResp) hub_io" where
  "xet_read_token H ctx owner repo = xet_token H ctx owner repo Read READ_TOKEN_TTL_SECS"

section \<open>Small-file objects\<close>

record LfsAction =
  la_href :: string
  la_header :: "(string \<times> string) list option"
  la_expires_in :: nat

record LfsObjectResp =
  lr_oid :: string
  lr_size :: int
  lr_authenticated :: "bool option"
  lr_upload :: "LfsAction option"
  lr_download :: "LfsAction option"

text \<open>\<^verbatim>\<open>SELECT 1\<close> is a 32 bit integer to Postgres; the driver refuses to decode it as the \<^verbatim>\<open>i64\<close> the code asks for, so the
  query succeeds only when there is no row.\<close>

definition lfs_object_known :: "byte list \<Rightarrow> ('z, AppError, bool) hub_io" where
  "lfs_object_known oid =
     bindE (db_query (\<lambda>w. map_of (lfs_objects w) oid \<noteq> None)) (\<lambda>found.
     if found then raise (Db ''column decode'') else ret False)"

definition lfs_object_resp ::
  "hub_env \<Rightarrow> bool \<Rightarrow> string \<Rightarrow> string option \<Rightarrow> string \<times> int \<Rightarrow> ('z, hub_error, LfsObjectResp) hub_io" where
  "lfs_object_resp H is_upload transfer auth_header obj = (case obj of (oid, sz) \<Rightarrow>
     let plain = \<lparr>lr_oid = oid, lr_size = sz, lr_authenticated = Some True, lr_upload = None, lr_download = None\<rparr>;
         href = trim_end_slashes (h_cas_public_url H) @ ''/lfs/objects/'' @ oid in
     if transfer = ''xet'' then ret plain
     else if sz > int MAX_LFS_INLINE_BYTES then raise (App (BadRequest ''lfs_object_too_large''))
     else if is_upload then
       ret (plain\<lparr>lr_upload := Some \<lparr>la_href = href,
          la_header = Some ((''Accept'', ''application/vnd.git-lfs'') #
            (case auth_header of None \<Rightarrow> [] | Some v \<Rightarrow>
              (case header_to_str v of None \<Rightarrow> [] | Some a \<Rightarrow> [(''Authorization'', a)]))),
          la_expires_in = 3600\<rparr>\<rparr>)
     else
       bindE (lift_res (hex_arg ''bad_oid'' oid)) (\<lambda>oid_bytes.
       bindE (app (lfs_object_known oid_bytes)) (\<lambda>exists.
       ret (if exists then plain\<lparr>lr_download := Some \<lparr>la_href = href, la_header = None, la_expires_in = 3600\<rparr>\<rparr> else plain))))"

fun lfs_object_resps ::
  "hub_env \<Rightarrow> bool \<Rightarrow> string \<Rightarrow> string option \<Rightarrow> (string \<times> int) list \<Rightarrow> ('z, hub_error, LfsObjectResp list) hub_io" where
  "lfs_object_resps H up tr ah [] = ret []"
| "lfs_object_resps H up tr ah (o' # os) =
     bindE (lfs_object_resp H up tr ah o') (\<lambda>r.
     bindE (lfs_object_resps H up tr ah os) (\<lambda>rs. ret (r # rs)))"

definition lfs_objects_batch ::
  "hub_env \<Rightarrow> AuthContext \<Rightarrow> string \<Rightarrow> string \<Rightarrow> string option \<Rightarrow> string \<Rightarrow> string list \<Rightarrow> (string \<times> int) list
     \<Rightarrow> ('z, hub_error, string \<times> LfsObjectResp list) hub_io" where
  "lfs_objects_batch H ctx owner repo_dotgit auth_header operation transfers objects =
     bindE (lift_res (ok_or (App NotFound) (strip_suffix ''.git'' repo_dotgit))) (\<lambda>repo.
     bindE (app (find_repo_id owner repo)) (\<lambda>rid.
     if operation \<noteq> ''upload'' \<and> operation \<noteq> ''download'' then raise (App (BadRequest ''unsupported_lfs_operation''))
     else
     let is_upload = (operation = ''upload'');
         transfer = (if ''xet'' \<in> set transfers then ''xet'' else ''basic'') in
     bindE (if is_upload then app (require_ownership rid (ctx_user_id ctx)) else ret ()) (\<lambda>_.
     bindE (lfs_object_resps H is_upload transfer auth_header objects) (\<lambda>rs. ret (transfer, rs)))))"

text \<open>\<^verbatim>\<open>ON CONFLICT (oid) DO NOTHING\<close>.\<close>

definition put_lfs :: "byte list \<Rightarrow> byte list \<Rightarrow> ('z, AppError, unit) hub_io" where
  "put_lfs oid content = db_checked (\<lambda>_. length content \<le> 500 * 1024 * 1024)
     (\<lambda>w. w\<lparr>lfs_objects := insert_row oid \<lparr>lo_size_bytes = int (length content), lo_content = content, lo_created_at = clock w\<rparr> (lfs_objects w)\<rparr>)"

text \<open>The body is \<open>None\<close> when the transport fails; a body over the cap fails the same way.\<close>

definition bounded_body :: "nat \<Rightarrow> string \<Rightarrow> byte list option \<Rightarrow> hub_error + byte list" where
  "bounded_body cap msg body =
     (case body of Some b \<Rightarrow> if length b \<le> cap then Inr b else Inl (App (BadRequest msg)) | None \<Rightarrow> Inl (App (BadRequest msg)))"

definition lfs_upload :: "'x auth_ext_scheme \<Rightarrow> string \<Rightarrow> byte list option \<Rightarrow> ('z, hub_error, unit) hub_io" where
  "lfs_upload X oid_hex body =
     bindE (lift_res (bounded_body MAX_LFS_INLINE_BYTES ''lfs_object_too_large'' body)) (\<lambda>bytes.
     bindE (lift_res (hex_arg ''bad_oid'' oid_hex)) (\<lambda>expected.
     if expected \<noteq> x_digest X bytes then raise (App (BadRequest ''oid_mismatch''))
     else app (put_lfs expected bytes)))"

text \<open>Both writes are best effort; the repository named by the client must exist (foreign key).\<close>

definition record_download ::
  "int option \<Rightarrow> uuid option \<Rightarrow> int \<Rightarrow> byte list option \<Rightarrow> byte list option \<Rightarrow> ('z, AppError, unit) hub_io" where
  "record_download rid key_id bytes fid oid =
     bindE (case rid of
        None \<Rightarrow> ret ()
      | Some i \<Rightarrow> discard (db_checked (\<lambda>w. map_of (repos w) i \<noteq> None)
          (\<lambda>w. let k = (i, current_day (clock w)) in
            w\<lparr>repo_downloads := (case map_of (repo_downloads w) k of
               None \<Rightarrow> repo_downloads w @ [(k, (1, bytes))]
             | Some _ \<Rightarrow> update_row k (\<lambda>(c, b). (c + 1, b + bytes)) (repo_downloads w))\<rparr>))) (\<lambda>_.
     discard (db_update (\<lambda>w. w\<lparr>download_log := download_log w @
       [\<lparr>dl_api_key_id = key_id, dl_file_id = fid, dl_xorb_hash = None, dl_shard_hash = oid, dl_bytes = bytes,
        dl_cache_hit = Some True, dl_occurred_at = clock w\<rparr>]\<rparr>)))"

definition lfs_download ::
  "'x auth_ext_scheme \<Rightarrow> string \<Rightarrow> int option \<Rightarrow> string option \<Rightarrow> ('z, hub_error, byte list) hub_io" where
  "lfs_download X oid_hex rid auth_header =
     bindE (lift_res (hex_arg ''bad_oid'' oid_hex)) (\<lambda>oid.
     bindE (app (db_query (\<lambda>w. map_option lo_content (map_of (lfs_objects w) oid)))) (\<lambda>row.
     bindE (lift_res (ok_or (App NotFound) row)) (\<lambda>content.
     bindE (app (optional_api_key_id X auth_header)) (\<lambda>key_id.
     bindE (app (record_download rid key_id (int (length content)) None (Some oid))) (\<lambda>_.
     ret content)))))"


section \<open>Handlers that only read\<close>

definition reads :: "('z, 'e, 'a) io \<Rightarrow> bool" where
  "reads m \<longleftrightarrow> (\<forall>w. \<exists>fs. snd (m w) = w\<lparr>faults := fs\<rparr>)"

named_theorems reads_intro \<open>handlers that only read\<close>

lemma readsI: "(\<And>w. snd (m w) = w) \<Longrightarrow> reads m"
  unfolding reads_def by (metis world_faults_self)

lemma reads_pure [reads_intro]: "reads (ret a)" "reads (raise e)" "reads (lift_res r)" "reads (gets f)"
  by (rule readsI, simp add: io_defs)+

lemma reads_query [reads_intro]: "reads (db_query f)"
proof -
  have "\<exists>fs. snd (db_query f w) = w\<lparr>faults := fs\<rparr>" for w
    by (cases rule: io_step_cases [of db_error "\<lambda>w. (f w, w)" w]) (auto simp: db_query_def)
  then show ?thesis by (simp add: reads_def)
qed

lemma reads_bind [reads_intro]: "reads m \<Longrightarrow> (\<And>a. reads (f a)) \<Longrightarrow> reads (bindE m f)"
proof -
  assume m: "reads m" and f: "\<And>a. reads (f a)"
  have "\<exists>fs. snd (bindE m f w) = w\<lparr>faults := fs\<rparr>" for w
  proof (cases "m w")
    case (Pair r w1)
    with m obtain g where w1: "w1 = w\<lparr>faults := g\<rparr>" unfolding reads_def by (metis snd_conv)
    show ?thesis
    proof (cases r)
      case (Inl e)
      with Pair w1 show ?thesis by (auto simp: bindE_def)
    next
      case (Inr a)
      from f [of a] obtain h where "snd (f a w1) = w1\<lparr>faults := h\<rparr>" unfolding reads_def by blast
      with Pair Inr w1 show ?thesis by (auto simp: bindE_def)
    qed
  qed
  then show ?thesis by (simp add: reads_def)
qed

lemma snd_app [simp]: "snd (app m w) = snd (m w)"
  by (auto simp: app_def split: prod.split sum.split)

lemma snd_attempt: "snd (attempt m w) = snd (m w)" "snd (discard m w) = snd (m w)"
  by (simp_all add: io_defs case_prod_beta)

lemma reads_lift [reads_intro]: "reads m \<Longrightarrow> reads (app m)" "reads m \<Longrightarrow> reads (attempt m)"
  by (simp_all add: reads_def snd_attempt)

lemma reads_keeps: "reads m \<Longrightarrow> frame P \<Longrightarrow> keeps P m"
  unfolding reads_def keeps_def by (metis frameD(1))

lemma keeps_app [keeps_intro]: "keeps P m \<Longrightarrow> keeps P (app m)"
  by (simp add: keeps_def)

lemma reads_helpers [reads_intro]: "reads (caller_login uid)" "reads (find_repo_id owner repo)" "reads (require_ownership rid uid)"
    "reads (require_readable rid viewer)"
  unfolding caller_login_def find_repo_id_def require_ownership_def require_readable_def
  by (auto intro!: reads_intro split: option.split prod.split)

lemma reads_viewer [reads_intro]: "reads (optional_viewer_id X ah)" "reads (optional_api_key_id X ah)"
  unfolding optional_viewer_id_def optional_api_key_id_def or_none_def
  by (auto intro!: reads_intro split: option.split sum.split)

lemma reads_identity [reads_intro]: "reads (whoami_v2 ctx)" "reads (preupload ctx owner repo files)"
  unfolding whoami_v2_def preupload_def by (auto intro!: reads_intro split: option.split)

lemma reads_token [reads_intro]: "reads (xet_token H ctx owner repo acc ttl)"
  unfolding xet_token_def by (auto intro!: reads_intro split: option.split OpenWeightsAccess.split simp: Let_def)

lemma reads_batch [reads_intro]: "reads (lfs_objects_batch H ctx owner repo ah op trs objs)"
proof -
  have o: "reads (lfs_object_resp H up tr ah obj)" for up tr obj
    unfolding lfs_object_resp_def lfs_object_known_def by (cases obj) (auto intro!: reads_intro simp: Let_def)
  have "reads (lfs_object_resps H up tr ah objs)" for up tr
    by (induction objs) (auto intro!: reads_intro o)
  then show ?thesis unfolding lfs_objects_batch_def by (auto intro!: reads_intro simp: Let_def)
qed

end
