(* ===== verification/Hub_Read.thy ===== *)
theory Hub_Read
  imports Hub "HOL-Library.Char_ord" "HOL-Library.List_Lexorder"
begin

text \<open>
  The reading endpoints of \<^verbatim>\<open>handlers/hfapi.rs\<close>: the catalogue, model information, download trends, the
  objects of a model, the resolution of a path to an object, and the server-side reconstruction of
  a file from Sia. Text is ordered byte by byte, as a database with the C collation does.
\<close>

section \<open>Gate and shared queries\<close>

text \<open>The first lines of every endpoint about one repository.\<close>

definition readable_repo :: "'x auth_ext_scheme \<Rightarrow> string \<Rightarrow> string \<Rightarrow> string option \<Rightarrow> ('z, AppError, int) hub_io" where
  "readable_repo X owner repo auth_header =
     bindE (find_repo_id owner repo) (\<lambda>rid.
     bindE (optional_viewer_id X auth_header) (\<lambda>viewer.
     bindE (require_readable rid viewer) (\<lambda>_. ret rid)))"

definition head_of :: "'z hub_scheme \<Rightarrow> int \<Rightarrow> int option" where
  "head_of w rid = map_of (repo_refs w) (rid, ''main'')"

definition files_of :: "'z hub_scheme \<Rightarrow> int \<Rightarrow> (string \<times> file_row) list" where
  "files_of w cid = map (\<lambda>((_, p), f). (p, f)) (filter (\<lambda>((c, _), _). c = cid) (repo_files w))"

definition head_files :: "'z hub_scheme \<Rightarrow> int \<Rightarrow> (string \<times> file_row) list" where
  "head_files w rid = (case head_of w rid of None \<Rightarrow> [] | Some c \<Rightarrow> files_of w c)"

definition download_count :: "'z hub_scheme \<Rightarrow> int \<Rightarrow> int option \<Rightarrow> int" where
  "download_count w rid since =
     sum_list (map (\<lambda>(_, (c, _)). c) (filter (\<lambda>((r, d), _). r = rid \<and> (case since of None \<Rightarrow> True | Some s \<Rightarrow> d \<ge> s))
       (repo_downloads w)))"

record ModelDownloads =
  md_total :: int
  md_last_24h :: int
  md_last_7d :: int
  md_last_30d :: int

definition no_downloads :: ModelDownloads where
  "no_downloads = \<lparr>md_total = 0, md_last_24h = 0, md_last_7d = 0, md_last_30d = 0\<rparr>"

definition fetch_download_counters :: "int \<Rightarrow> ('z, AppError, ModelDownloads) hub_io" where
  "fetch_download_counters rid =
     bindE (attempt (db_query (\<lambda>w. let today = current_day (clock w) in
       \<lparr>md_total = download_count w rid None, md_last_24h = download_count w rid (Some (today - 1)),
        md_last_7d = download_count w rid (Some (today - 7)), md_last_30d = download_count w rid (Some (today - 30))\<rparr>))) (\<lambda>r.
     case r of Inr d \<Rightarrow> ret d | Inl _ \<Rightarrow> ret no_downloads)"

section \<open>Model information\<close>

record LfsSibling =
  ls_size :: int
  ls_sha256 :: string
  ls_pointer_size :: int

record ModelSibling =
  sb_rfilename :: string
  sb_size :: int
  sb_blob_id :: "string option"
  sb_lfs :: "LfsSibling option"

record ModelInfo =
  mi_id :: string
  mi_author :: string
  mi_sha :: string
  mi_last_modified :: string
  mi_private :: bool
  mi_siblings :: "ModelSibling list"
  mi_created_at :: string
  mi_downloads :: ModelDownloads

definition sibling :: "string \<times> file_row \<Rightarrow> ModelSibling" where
  "sibling pf = (case pf of (path, f) \<Rightarrow>
     let oid = (case (fl_xet_hash f, fl_lfs_oid f) of
           (Some h, _) \<Rightarrow> hex_encode h | (None, Some o') \<Rightarrow> hex_encode o' | _ \<Rightarrow> [])
     in \<lparr>sb_rfilename = path, sb_size = fl_size_bytes f, sb_blob_id = Some oid,
         sb_lfs = Some \<lparr>ls_size = fl_size_bytes f, ls_sha256 = oid, ls_pointer_size = 0\<rparr>\<rparr>)"

text \<open>The join of the ref, its commit and the repository.\<close>

definition ref_commit :: "'z hub_scheme \<Rightarrow> int \<Rightarrow> string \<Rightarrow> (int \<times> int \<times> int \<times> repo_visibility) option" where
  "ref_commit w rid ref_name =
     (case map_of (repo_refs w) (rid, ref_name) of None \<Rightarrow> None | Some cid \<Rightarrow>
     (case map_of (repo_commits w) cid of None \<Rightarrow> None | Some c \<Rightarrow>
     (case map_of (repos w) rid of None \<Rightarrow> None | Some r \<Rightarrow>
        Some (cid, cm_committed_at c, rp_created_at r, rp_visibility r))))"

definition build_model_info ::
  "hub_env \<Rightarrow> string \<Rightarrow> string \<Rightarrow> int \<Rightarrow> string \<Rightarrow> ('z, AppError, ModelInfo) hub_io" where
  "build_model_info H owner repo rid revision =
     bindE (db_query (\<lambda>w. ref_commit w rid revision)) (\<lambda>row.
     bindE (lift_res (ok_or NotFound row)) (\<lambda>(cid, committed_at, created_at, visibility).
     bindE (db_query (\<lambda>w. files_of w cid)) (\<lambda>files.
     bindE (fetch_download_counters rid) (\<lambda>downloads.
     ret \<lparr>mi_id = owner @ ''/'' @ repo, mi_author = owner, mi_sha = commit_oid_for H cid,
          mi_last_modified = h_time H committed_at, mi_private = (visibility \<noteq> Public),
          mi_siblings = map sibling files, mi_created_at = h_time H created_at, mi_downloads = downloads\<rparr>))))"

definition model_info :: "hub_env \<Rightarrow> string \<Rightarrow> string \<Rightarrow> string option \<Rightarrow> ('z, AppError, ModelInfo) hub_io" where
  "model_info H owner repo auth_header =
     bindE (readable_repo H owner repo auth_header) (\<lambda>rid. build_model_info H owner repo rid ''main'')"

text \<open>Lower case of ASCII letters; no other character is lowered to a hexadecimal digit.\<close>

definition lower_char :: "char \<Rightarrow> char" where
  "lower_char c = (let n = of_char c :: nat in if 65 \<le> n \<and> n \<le> 90 then char_of (n + 32) else c)"

definition to_lowercase :: "string \<Rightarrow> string" where
  "to_lowercase = map lower_char"

definition commits_of :: "'z hub_scheme \<Rightarrow> int \<Rightarrow> int list" where
  "commits_of w rid = map fst (filter (\<lambda>(_, c). cm_repo_id c = rid) (repo_commits w))"

definition commit_with_sha :: "'x auth_ext_scheme \<Rightarrow> string \<Rightarrow> int list \<Rightarrow> int option" where
  "commit_with_sha X revision ids = find (\<lambda>i. commit_oid_for X i = to_lowercase revision) ids"

definition model_info_rev ::
  "hub_env \<Rightarrow> string \<Rightarrow> string \<Rightarrow> string \<Rightarrow> string option \<Rightarrow> ('z, AppError, ModelInfo) hub_io" where
  "model_info_rev H owner repo revision auth_header =
     bindE (readable_repo H owner repo auth_header) (\<lambda>rid.
     if revision = ''main'' then build_model_info H owner repo rid revision
     else
     bindE (db_query (\<lambda>w. commits_of w rid)) (\<lambda>ids.
     case commit_with_sha H revision ids of
       None \<Rightarrow> raise NotFound
     | Some _ \<Rightarrow> build_model_info H owner repo rid revision))"

section \<open>Catalogue and statistics\<close>

record ModelListItem =
  ml_id :: string
  ml_author :: string
  ml_name :: string
  ml_description :: "string option"
  ml_last_modified :: string
  ml_size :: int
  ml_files :: int
  ml_downloads_total :: int
  ml_downloads_30d :: int

definition total_size_of :: "(string \<times> file_row) list \<Rightarrow> int" where
  "total_size_of fs = sum_list (map (fl_size_bytes \<circ> snd) fs)"

definition last_modified :: "'z hub_scheme \<Rightarrow> int \<Rightarrow> repo_row \<Rightarrow> int" where
  "last_modified w rid r =
     (case head_of w rid of None \<Rightarrow> rp_updated_at r | Some c \<Rightarrow>
     (case map_of (repo_commits w) c of None \<Rightarrow> rp_updated_at r | Some cm \<Rightarrow> cm_committed_at cm))"

definition list_item :: "hub_env \<Rightarrow> 'z hub_scheme \<Rightarrow> int \<times> repo_row \<times> user_row \<Rightarrow> ModelListItem" where
  "list_item H w row = (case row of (rid, r, u) \<Rightarrow>
     \<lparr>ml_id = usr_github_login u @ ''/'' @ rp_name r, ml_author = usr_github_login u, ml_name = rp_name r,
      ml_description = rp_description r, ml_last_modified = h_time H (last_modified w rid r),
      ml_size = total_size_of (head_files w rid), ml_files = int (length (head_files w rid)),
      ml_downloads_total = download_count w rid None,
      ml_downloads_30d = download_count w rid (Some (current_day (clock w) - 30))\<rparr>)"

definition public_repos :: "'z hub_scheme \<Rightarrow> (int \<times> repo_row) list" where
  "public_repos w = filter (\<lambda>(_, r). rp_visibility r = Public) (repos w)"

definition with_owner :: "'z hub_scheme \<Rightarrow> (int \<times> repo_row) list \<Rightarrow> (int \<times> repo_row \<times> user_row) list" where
  "with_owner w rs = List.map_filter (\<lambda>(i, r). map_option (\<lambda>u. (i, r, u)) (map_of (users w) (rp_owner_user_id r))) rs"

definition catalogue :: "hub_env \<Rightarrow> 'z hub_scheme \<Rightarrow> ModelListItem list" where
  "catalogue H w = map (list_item H w)
     (take 200 (sort_key (\<lambda>(_, r, _). - rp_updated_at r) (with_owner w (public_repos w))))"

definition list_models :: "hub_env \<Rightarrow> ('z, AppError, ModelListItem list) hub_io" where
  "list_models H = db_query (catalogue H)"

record PlatformStats =
  ps_total_models :: int
  ps_total_users :: int
  ps_total_files :: int
  ps_total_size_bytes :: int
  ps_total_downloads :: int
  ps_total_bytes_served :: int
  ps_downloads_today :: int
  ps_bytes_served_today :: int
  ps_xorbs_pinned :: int
  ps_xorbs_total :: int
  ps_bytes_on_sia :: int

definition pinned_on_sia :: "'z world_scheme \<Rightarrow> xorb_row list" where
  "pinned_on_sia w = filter (\<lambda>x. pin_state x = Pinned \<and> sia_object_id x \<noteq> None) (map snd (xorbs w))"

definition platform_stats :: "('z, AppError, PlatformStats) hub_io" where
  "platform_stats = db_query (\<lambda>w.
     let pub = public_repos w; files = concat (map (\<lambda>(i, _). head_files w i) pub);
         today = current_day (clock w); midnight = today * DAY_MS;
         served = (\<lambda>ds. sum_list (map dl_bytes ds)) in
     \<lparr>ps_total_models = int (length pub),
      ps_total_users = int (length (remdups (map (\<lambda>(_, r, _). rp_owner_user_id r) (with_owner w pub)))),
      ps_total_files = int (length files), ps_total_size_bytes = total_size_of files,
      ps_total_downloads = sum_list (map (\<lambda>(i, _). download_count w i None) pub),
      ps_total_bytes_served = served (download_log w),
      ps_downloads_today = sum_list (map (\<lambda>(i, _). download_count w i (Some today)) pub),
      ps_bytes_served_today = served (filter (\<lambda>d. dl_occurred_at d \<ge> midnight) (download_log w)),
      ps_xorbs_pinned = int (length (pinned_on_sia w)), ps_xorbs_total = int (length (xorbs w)),
      ps_bytes_on_sia = sum_list (map size_bytes (pinned_on_sia w))\<rparr>)"

record TrendPoint =
  tp_day :: string
  tp_count :: int
  tp_bytes :: int

definition recent_downloads :: "'z hub_scheme \<Rightarrow> int \<Rightarrow> (int \<times> int \<times> int) list" where
  "recent_downloads w rid =
     sort_key fst (map (\<lambda>((_, d), cb). (d, cb))
       (filter (\<lambda>((r, d), _). r = rid \<and> d \<ge> current_day (clock w) - 13) (repo_downloads w)))"

definition trend_point :: "hub_env \<Rightarrow> (int \<times> int \<times> int) list \<Rightarrow> int \<Rightarrow> TrendPoint" where
  "trend_point H by_day d =
     (case (case map_of by_day d of Some cb \<Rightarrow> cb | None \<Rightarrow> (0, 0)) of
        (c, b) \<Rightarrow> \<lparr>tp_day = h_day H d, tp_count = c, tp_bytes = b\<rparr>)"

definition model_downloads_trend ::
  "hub_env \<Rightarrow> string \<Rightarrow> string \<Rightarrow> string option \<Rightarrow> ('z, AppError, TrendPoint list) hub_io" where
  "model_downloads_trend H owner repo auth_header =
     bindE (readable_repo H owner repo auth_header) (\<lambda>rid.
     bindE (db_query (\<lambda>w. recent_downloads w rid)) (\<lambda>by_day.
     bindE (gets (\<lambda>w. current_day (clock w))) (\<lambda>today.
     ret (map (\<lambda>i. trend_point H by_day (today - int i)) (rev [0..<14])))))"

record ModelObject =
  mo_hash :: string
  mo_kind :: string
  mo_size_bytes :: int
  mo_pin_state :: string
  mo_sia_object_id :: "string option"
  mo_files :: "string list"

fun pin_state_text :: "XorbPinState \<Rightarrow> string" where
  "pin_state_text Uploading = ''uploading''"
| "pin_state_text Pinning = ''pinning''"
| "pin_state_text Pinned = ''pinned''"
| "pin_state_text Orphaned = ''orphaned''"

text \<open>The paths of the head commit whose reconstruction uses the xorb, and those that are the object.\<close>

definition xorb_paths :: "'z hub_scheme \<Rightarrow> (string \<times> file_row) list \<Rightarrow> hash \<Rightarrow> string list" where
  "xorb_paths w hf x = sort (remdups (map fst (filter
     (\<lambda>(_, f). case fl_xet_hash f of None \<Rightarrow> False | Some fid \<Rightarrow>
        map_of (reconstruction_files w) fid \<noteq> None
        \<and> list_ex (\<lambda>((fid', _), t). fid' = fid \<and> pt_xorb_hash t = x) (reconstruction_terms w)) hf)))"

definition lfs_paths :: "(string \<times> file_row) list \<Rightarrow> byte list \<Rightarrow> string list" where
  "lfs_paths hf oid = sort (remdups (map fst (filter (\<lambda>(_, f). fl_lfs_oid f = Some oid) hf)))"

definition xorb_objects :: "'z hub_scheme \<Rightarrow> (string \<times> file_row) list \<Rightarrow> ModelObject list" where
  "xorb_objects w hf = map (\<lambda>(h, x).
     \<lparr>mo_hash = hex_encode h, mo_kind = ''xorb'', mo_size_bytes = size_bytes x, mo_pin_state = pin_state_text (pin_state x),
      mo_sia_object_id = map_option hex_encode (sia_object_id x), mo_files = xorb_paths w hf h\<rparr>)
     (filter (\<lambda>(h, _). xorb_paths w hf h \<noteq> []) (xorbs w))"

definition inline_objects :: "'z hub_scheme \<Rightarrow> (string \<times> file_row) list \<Rightarrow> ModelObject list" where
  "inline_objects w hf = map (\<lambda>(oid, o').
     \<lparr>mo_hash = hex_encode oid, mo_kind = ''inline'', mo_size_bytes = lo_size_bytes o', mo_pin_state = ''inline'',
      mo_sia_object_id = None, mo_files = lfs_paths hf oid\<rparr>)
     (filter (\<lambda>(oid, _). lfs_paths hf oid \<noteq> []) (lfs_objects w))"

definition model_objects ::
  "'x auth_ext_scheme \<Rightarrow> string \<Rightarrow> string \<Rightarrow> string option \<Rightarrow> ('z, AppError, ModelObject list) hub_io" where
  "model_objects X owner repo auth_header =
     bindE (readable_repo X owner repo auth_header) (\<lambda>rid.
     db_query (\<lambda>w. let hf = head_files w rid in
       sort_key (\<lambda>m. - mo_size_bytes m) (xorb_objects w hf @ inline_objects w hf)))"

section \<open>Resolving a path\<close>

datatype ResolvedBackend = LfsBackend "byte list" | XetBackend "byte list"

record ResolvedInfo =
  ri_size :: int
  ri_oid_hex :: string
  ri_commit_sha :: string
  ri_backend :: ResolvedBackend
  ri_repo_id :: int

text \<open>\<^verbatim>\<open>{:040x}\<close> of an \<^verbatim>\<open>i64\<close>.\<close>

definition padded_hex :: "int \<Rightarrow> string" where
  "padded_hex i = replicate 24 (CHR ''0'') @ hex_of (i64_be_bytes i)"

definition resolve_lookup ::
  "'x auth_ext_scheme \<Rightarrow> string \<Rightarrow> string \<Rightarrow> string \<Rightarrow> string \<Rightarrow> string option \<Rightarrow> ('z, AppError, ResolvedInfo) hub_io" where
  "resolve_lookup X owner repo revision file_path auth_header =
     bindE (readable_repo X owner repo auth_header) (\<lambda>rid.
     bindE
       (if revision = ''main''
        then db_query (\<lambda>w. case head_of w rid of None \<Rightarrow> None | Some c \<Rightarrow> map_of (repo_files w) (c, file_path))
        else
          bindE (db_query (\<lambda>w. commits_of w rid)) (\<lambda>ids.
          bindE (lift_res (ok_or NotFound (commit_with_sha X revision ids))) (\<lambda>cid.
          db_query (\<lambda>w. map_of (repo_files w) (cid, file_path))))) (\<lambda>file_row.
     bindE (db_query (\<lambda>w. head_of w rid)) (\<lambda>head.
     bindE (lift_res (ok_or NotFound file_row)) (\<lambda>f.
     let sha = padded_hex (case head of Some c \<Rightarrow> c | None \<Rightarrow> 0) in
     case (fl_xet_hash f, fl_lfs_oid f) of
       (Some h, _) \<Rightarrow> ret \<lparr>ri_size = fl_size_bytes f, ri_oid_hex = hex_encode h, ri_commit_sha = sha,
                          ri_backend = XetBackend h, ri_repo_id = rid\<rparr>
     | (None, Some o') \<Rightarrow> ret \<lparr>ri_size = fl_size_bytes f, ri_oid_hex = hex_encode o', ri_commit_sha = sha,
                          ri_backend = LfsBackend o', ri_repo_id = rid\<rparr>
     | (None, None) \<Rightarrow> raise NotFound))))"

type_synonym headers = "(string \<times> string) list"

definition xet_resolve_headers :: "hub_env \<Rightarrow> string \<Rightarrow> string \<Rightarrow> string \<Rightarrow> string \<Rightarrow> headers" where
  "xet_resolve_headers H owner repo revision xet_hash_hex =
     (let route = trim_end_slashes (h_cas_public_url H) @ ''/api/models/'' @ owner @ ''/'' @ repo @ ''/xet-read-token/'' @ revision
      in filter (\<lambda>(_, v). h_header_ok H v) [(''X-Xet-Hash'', xet_hash_hex), (''X-Xet-Refresh-Route'', route)])"

definition gateway_headers :: "hub_env \<Rightarrow> string \<Rightarrow> string \<Rightarrow> string \<Rightarrow> ResolvedInfo \<Rightarrow> headers" where
  "gateway_headers H owner repo revision info =
     (if h_gateway_reads H
      then (case ri_backend info of
              XetBackend _ \<Rightarrow> xet_resolve_headers H owner repo revision (ri_oid_hex info) | LfsBackend _ \<Rightarrow> [])
      else [])"

definition resolve_head ::
  "hub_env \<Rightarrow> string \<Rightarrow> string \<Rightarrow> string \<Rightarrow> string \<Rightarrow> string option \<Rightarrow> ('z, AppError, headers) hub_io" where
  "resolve_head H owner repo revision file_path auth_header =
     bindE (resolve_lookup H owner repo revision file_path auth_header) (\<lambda>info.
     ret ([(''content-length'', show_int (ri_size info)), (''x-linked-size'', show_int (ri_size info)),
           (''etag'', [CHR 34] @ ri_oid_hex info @ [CHR 34]), (''x-repo-commit'', ri_commit_sha info),
           (''x-linked-etag'', ''sha256:'' @ ri_oid_hex info)]
          @ gateway_headers H owner repo revision info))"

definition redirect_target :: "hub_env \<Rightarrow> ResolvedInfo \<Rightarrow> string" where
  "redirect_target H info =
     (let base = trim_end_slashes (h_cas_public_url H) in
      case ri_backend info of
        LfsBackend o' \<Rightarrow> base @ ''/lfs/objects/'' @ hex_encode o' @ ''?r='' @ show_int (ri_repo_id info)
      | XetBackend h \<Rightarrow> base @ ''/xet/files/'' @ hex_encode h @ ''?r='' @ show_int (ri_repo_id info))"

text \<open>\<^verbatim>\<open>redirect_to.parse().unwrap()\<close> panics when the configured URL is not a header value.\<close>

definition resolve_get ::
  "hub_env \<Rightarrow> string \<Rightarrow> string \<Rightarrow> string \<Rightarrow> string \<Rightarrow> string option \<Rightarrow> ('z, hub_error, headers) hub_io" where
  "resolve_get H owner repo revision file_path auth_header =
     bindE (app (resolve_lookup H owner repo revision file_path auth_header)) (\<lambda>info.
     let redirect_to = redirect_target H info in
     if \<not> h_header_ok H redirect_to then raise Panicked
     else
     ret ([(''location'', redirect_to), (''x-linked-size'', show_int (ri_size info)),
           (''x-linked-etag'', ''sha256:'' @ ri_oid_hex info)]
          @ gateway_headers H owner repo revision info))"

section \<open>Reconstructing a file from Sia\<close>

text \<open>The loop over the chunks of one xorb body: the cursor is the bytes that are left. Chunks below
  \<open>want_start\<close> are read and thrown away. The result is the index reached and the output.\<close>

function (sequential) take_chunks ::
  "(byte list \<Rightarrow> string + (byte list \<times> byte list)) \<Rightarrow> nat \<Rightarrow> nat \<Rightarrow> nat \<Rightarrow> byte list \<Rightarrow> byte list \<Rightarrow> AppError + (nat \<times> byte list)" where
  "take_chunks ck ws we idx cur out =
     (if cur \<noteq> [] \<and> idx < we then
        (case ck cur of
           Inl e \<Rightarrow> Inl (Other ((if idx \<ge> ws then ''decompress chunk '' else ''skip chunk '') @ show_nat idx @ '': '' @ e))
         | Inr (d, rest) \<Rightarrow> take_chunks ck ws we (idx + 1) rest (if idx \<ge> ws then out @ d else out))
      else Inr (idx, out))"
  by pat_completeness auto
termination
  by (relation "measure (\<lambda>(ck, ws, we, idx, cur, out). we - idx)") auto

declare take_chunks.simps [simp del]

text \<open>The pinned xorb of a term and its Sia object.\<close>

definition xorb_meta :: "'z world_scheme \<Rightarrow> hash \<Rightarrow> (byte list option \<times> int) option" where
  "xorb_meta w h = (case map_of (xorbs w) h of None \<Rightarrow> None | Some x \<Rightarrow>
     if pin_state x = Pinned then Some (sia_object_id x, size_bytes x) else None)"

definition decode_term :: "hub_env \<Rightarrow> byte list \<Rightarrow> ParsedTerm \<Rightarrow> byte list \<Rightarrow> AppError + byte list" where
  "decode_term H body t out =
     (let want_start = unat (as_u64 (pt_xorb_start t)); want_end = unat (as_u64 (pt_xorb_end t)) in
      case take_chunks (h_chunk H) want_start want_end 0 body out of
        Inl e \<Rightarrow> Inl e
      | Inr (idx, out') \<Rightarrow>
          if idx < want_end then Inl (Other (''xorb ran out at chunk '' @ show_nat idx @ '', term wanted ['' @ show_nat want_start @ ''..''
              @ show_nat want_end @ '')'')) else Inr out')"

fun serve_terms :: "hub_env \<Rightarrow> ParsedTerm list \<Rightarrow> byte list \<Rightarrow> ('z, AppError, byte list) hub_io" where
  "serve_terms H [] out = ret out"
| "serve_terms H (t # ts) out =
     bindE (db_query (\<lambda>w. xorb_meta w (pt_xorb_hash t))) (\<lambda>meta.
     case meta of
       Some (Some sia_id, sz) \<Rightarrow>
         (case h_sia_read H sia_id 0 (as_u64 sz) of
            Inl e \<Rightarrow> raise (Other (''sia read xorb: '' @ e))
          | Inr body \<Rightarrow> bindE (lift_res (decode_term H body t out)) (\<lambda>out'. serve_terms H ts out'))
     | _ \<Rightarrow> raise NotFound)"

definition terms_of :: "'z world_scheme \<Rightarrow> hash \<Rightarrow> ParsedTerm list" where
  "terms_of w fid = map snd (sort_key (snd \<circ> fst) (filter (\<lambda>((f, _), _). f = fid) (reconstruction_terms w)))"

text \<open>\<^verbatim>\<open>Vec::with_capacity\<close> panics above \<^verbatim>\<open>isize::MAX\<close> bytes, which a negative size is as a \<^verbatim>\<open>usize\<close>.\<close>

definition xet_file_serve ::
  "hub_env \<Rightarrow> string \<Rightarrow> int option \<Rightarrow> string option \<Rightarrow> ('z, hub_error, byte list) hub_io" where
  "xet_file_serve H xet_hash_hex rid auth_header =
     bindE (lift_res (hex_arg ''bad_xet_hash'' xet_hash_hex)) (\<lambda>fid.
     bindE (app (db_query (\<lambda>w. map_option rf_total_size (map_of (reconstruction_files w) fid)))) (\<lambda>file_row.
     bindE (lift_res (ok_or (App NotFound) file_row)) (\<lambda>total_size.
     bindE (app (db_query (\<lambda>w. terms_of w fid))) (\<lambda>terms.
     if terms = [] then raise (App NotFound)
     else if unat (as_u64 total_size) \<ge> 2 ^ 63 then raise Panicked
     else
     bindE (app (serve_terms H terms [])) (\<lambda>out.
     if int (length out) \<noteq> total_size then raise (App (Other (''reconstruction size mismatch: got '' @ show_nat (length out) @ '', expected '' @ show_int total_size)))
     else
     bindE (app (optional_api_key_id H auth_header)) (\<lambda>key_id.
     bindE (app (record_download rid key_id (int (length out)) (Some fid) None)) (\<lambda>_.
     ret out)))))))"

lemma to_lowercase_hex: "to_lowercase (hex_of bs) = hex_of bs"
proof -
  have "lower_char c = c" if "c \<in> set (hex_of bs)" for c
    using lower_hex_char_code [OF hex_of_chars [OF that]] by (auto simp: lower_char_def Let_def)
  then show ?thesis by (simp add: to_lowercase_def map_idI)
qed


section \<open>The endpoints only read\<close>

lemma reads_gate [reads_intro]: "reads (readable_repo X owner repo ah)"
  unfolding readable_repo_def by (intro reads_intro)

lemma reads_info [reads_intro]: "reads (build_model_info H owner repo rid rv)"
  unfolding build_model_info_def fetch_download_counters_def
  by (auto intro!: reads_intro split: prod.split sum.split)

lemma reads_models [reads_intro]: "reads (model_info H owner repo ah)" "reads (model_info_rev H owner repo rv ah)"
    "reads (list_models H)" "reads platform_stats" "reads (model_downloads_trend H owner repo ah)" "reads (model_objects X owner repo ah)"
  unfolding model_info_def model_info_rev_def list_models_def platform_stats_def model_downloads_trend_def model_objects_def
  by (auto intro!: reads_intro split: option.split)

lemma reads_lookup [reads_intro]: "reads (resolve_lookup X owner repo rv p ah)"
  unfolding resolve_lookup_def Let_def by (auto intro!: reads_intro split: option.split)

lemma reads_resolve [reads_intro]: "reads (resolve_head H owner repo rv p ah)" "reads (resolve_get H owner repo rv p ah)"
  unfolding resolve_head_def resolve_get_def Let_def by (auto intro!: reads_intro)

lemma reads_serve_terms: "reads (serve_terms H ts out)"
  by (induction ts arbitrary: out) (auto intro!: reads_intro split: option.split sum.split prod.split)

section \<open>Who may read\<close>

text \<open>The viewer the tables give for a header; a failing lookup gives nobody.\<close>

definition viewer_of :: "'x auth_ext_scheme \<Rightarrow> 'z hub_scheme \<Rightarrow> string option \<Rightarrow> int option" where
  "viewer_of X w ah = (case bearer_of ah of None \<Rightarrow> None | Some t \<Rightarrow>
     if looks_like_jwt t
     then (case decode_and_validate X (clock w) t of Inl _ \<Rightarrow> None | Inr c \<Rightarrow> parse_i64 (user_id c))
     else map_option (\<lambda>p. ak_user_id (snd p)) (live_key w (x_digest X (as_bytes t))))"

lemma viewer_outcome:
  "\<exists>fs v. optional_viewer_id X ah w = (Inr v, w\<lparr>faults := fs\<rparr>) \<and> (v = None \<or> v = viewer_of X w ah)
     \<and> (faults w = [] \<longrightarrow> v = viewer_of X w ah \<and> fs = [])"
proof (cases "bearer_of ah")
  case None
  then show ?thesis
    by (intro exI [of _ "faults w"]) (simp add: optional_viewer_id_def viewer_of_def ret_def)
next
  case (Some t)
  show ?thesis
  proof (cases "looks_like_jwt t")
    case True
    with Some show ?thesis by (intro exI [of _ "faults w"]) (simp add: optional_viewer_id_def viewer_of_def gets_def)
  next
    case False
    with Some show ?thesis
      by (auto simp: optional_viewer_id_def viewer_of_def or_none_def live_key_def db_query_def io_step_def io_defs
          world_faults_self split: list.split)
  qed
qed

text \<open>What a reader who is refused sees: the answer for a repository that does not exist, or a failing
  database.\<close>

definition denied :: "'z world_scheme \<Rightarrow> AppError + 'a \<Rightarrow> bool" where
  "denied w r \<longleftrightarrow> r = Inl NotFound \<or> (faults w \<noteq> [] \<and> r = Inl db_error)"

lemma denied_bind: "denied w (fst (m w)) \<Longrightarrow> denied w (fst (bindE m f w))"
  by (auto simp: denied_def bindE_def split: prod.splits sum.splits)

lemma db_query_run:
  obtains (fault) fs where "faults w \<noteq> []" "db_query f w = (Inl db_error, w\<lparr>faults := fs\<rparr>)"
  | (ran) fs where "db_query f w = (Inr (f (w\<lparr>faults := fs\<rparr>)), w\<lparr>faults := fs\<rparr>)" "faults w = [] \<longrightarrow> fs = []"
proof (cases "faults w")
  case Nil
  then have "db_query f w = (Inr (f (w\<lparr>faults := []\<rparr>)), w\<lparr>faults := []\<rparr>)"
    unfolding world_faults_self [OF Nil] by (simp add: db_query_def io_step_no_fault)
  then show ?thesis by (rule ran) simp
next
  case (Cons b bs)
  then show ?thesis using that by (cases b) (auto simp: db_query_def io_step_def)
qed

lemma viewer_of_faults [simp]: "viewer_of X (w\<lparr>faults := f\<rparr>) = viewer_of X w"
  by (auto simp: viewer_of_def live_key_def fun_eq_iff split: option.split)

lemma repo_named_faults [simp]: "repo_named (w\<lparr>faults := f\<rparr>) = repo_named w"
  by (simp add: repo_named_def fun_eq_iff)

lemma gate_outcome:
  assumes "repo_named w owner repo = Some rid" and "map_of (repos w) rid = Some r"
  obtains (failed) "faults w \<noteq> []" "fst (readable_repo X owner repo ah w) = Inl db_error"
  | (answered) fs v where "v = None \<or> v = viewer_of X w ah" "faults w = [] \<longrightarrow> v = viewer_of X w ah \<and> fs = []"
      "readable_repo X owner repo ah w =
         (if v = Some (rp_owner_user_id r) \<or> rp_visibility r \<noteq> Private then Inr rid else Inl NotFound, w\<lparr>faults := fs\<rparr>)"
proof (cases rule: db_query_run [of w "\<lambda>w. repo_named w owner repo"])
  case (fault fs)
  then show ?thesis by (intro failed) (simp_all add: readable_repo_def find_repo_id_def bindE_def)
next
  case (ran f1)
  with assms have 1: "find_repo_id owner repo w = (Inr rid, w\<lparr>faults := f1\<rparr>)"
    by (simp add: find_repo_id_def bindE_def lift_res_def ok_or_def)
  obtain f2 v where 2: "optional_viewer_id X ah (w\<lparr>faults := f1\<rparr>) = (Inr v, w\<lparr>faults := f2\<rparr>)"
    and v: "v = None \<or> v = viewer_of X w ah" "f1 = [] \<longrightarrow> v = viewer_of X w ah \<and> f2 = []"
    using viewer_outcome [of X ah "w\<lparr>faults := f1\<rparr>"] by auto
  show ?thesis
  proof (cases rule: db_query_run [of "w\<lparr>faults := f2\<rparr>" "\<lambda>w. map_option (\<lambda>r. (rp_owner_user_id r, rp_visibility r)) (map_of (repos w) rid)"])
    case (fault f3)
    with 1 2 v ran(2) show ?thesis
      by (intro failed) (auto simp: readable_repo_def require_readable_def bindE_def)
  next
    case (ran f3)
    with 1 2 assms(2) have "readable_repo X owner repo ah w =
         (if v = Some (rp_owner_user_id r) \<or> rp_visibility r \<noteq> Private then Inr rid else Inl NotFound, w\<lparr>faults := f3\<rparr>)"
      by (cases "rp_visibility r") (auto simp: readable_repo_def require_readable_def bindE_def ret_def raise_def)
    with v ran(2) \<open>faults w = [] \<longrightarrow> f1 = []\<close> show ?thesis by (intro answered) auto
  qed
qed

lemma hidden_gate:
  assumes "repo_named w owner repo = Some rid" and "map_of (repos w) rid = Some r" and "rp_visibility r = Private"
    and "viewer_of X w ah \<noteq> Some (rp_owner_user_id r)"
  shows "denied w (fst (readable_repo X owner repo ah w))"
  using assms(3,4) by (cases rule: gate_outcome [OF assms(1,2), of X ah]) (auto simp: denied_def)

lemma open_gate:
  assumes "repo_named w owner repo = Some rid" and "map_of (repos w) rid = Some r" and "faults w = []"
    and "viewer_of X w ah = Some (rp_owner_user_id r) \<or> rp_visibility r \<noteq> Private"
  shows "readable_repo X owner repo ah w = (Inr rid, w)"
  using assms(3,4) world_faults_self [OF assms(3)]
  by (cases rule: gate_outcome [OF assms(1,2), of X ah]) auto


section \<open>The catalogue\<close>

definition without_private :: "'z hub_scheme \<Rightarrow> 'z hub_scheme" where
  "without_private w = w\<lparr>repos := filter (\<lambda>(_, r). rp_visibility r \<noteq> Private) (repos w)\<rparr>"

lemma files_of_upd [simp]: "files_of (w\<lparr>repos := rs\<rparr>) = files_of w" "files_of (w\<lparr>faults := f\<rparr>) = files_of w"
  by (simp_all add: files_of_def fun_eq_iff)

lemma head_files_upd [simp]: "head_files (w\<lparr>repos := rs\<rparr>) = head_files w" "head_files (w\<lparr>faults := f\<rparr>) = head_files w"
  by (auto simp: head_files_def head_of_def fun_eq_iff split: option.split)

lemma list_item_upd: "list_item H (w\<lparr>repos := rs\<rparr>) = list_item H w" "list_item H (w\<lparr>faults := f\<rparr>) = list_item H w"
  by (auto simp: list_item_def last_modified_def head_of_def download_count_def fun_eq_iff split: option.split)

lemma catalogue_faults [simp]: "catalogue H (w\<lparr>faults := f\<rparr>) = catalogue H w"
  by (simp add: catalogue_def list_item_upd with_owner_def public_repos_def)

lemma catalogue_without_private: "catalogue H (without_private w) = catalogue H w"
proof -
  have "public_repos (without_private w) = public_repos w"
    by (auto simp: public_repos_def without_private_def intro!: filter_cong)
  then show ?thesis by (simp add: catalogue_def without_private_def list_item_upd with_owner_def)
qed

lemma list_models_without_private: "fst (list_models H (without_private w)) = fst (list_models H w)"
proof -
  have "catalogue H ((without_private w)\<lparr>faults := f\<rparr>) = catalogue H (w\<lparr>faults := f\<rparr>)" for f
    by (simp add: catalogue_without_private)
  then show ?thesis
    by (simp add: list_models_def db_query_def io_step_def catalogue_without_private split: list.split) (simp add: without_private_def)
qed

section \<open>Properties: visibility\<close>

text \<open>C12: a private repository is hidden from everybody but its owner. Whoever the bearer header stands for,
  if that is not the owner, model information, revisions, objects, trends and paths are answered as
  for a repository that does not exist, whatever the database does; and the catalogue is the one of
  a server without the repository.\<close>

theorem private_repo_is_hidden:
  assumes "repo_named w owner repo = Some rid" and "map_of (repos w) rid = Some r" and "rp_visibility r = Private"
    and "viewer_of H w ah \<noteq> Some (rp_owner_user_id r)"
  shows "denied w (fst (model_info H owner repo ah w)) \<and> denied w (fst (model_info_rev H owner repo revision ah w))
    \<and> denied w (fst (model_objects H owner repo ah w)) \<and> denied w (fst (model_downloads_trend H owner repo ah w))
    \<and> denied w (fst (resolve_head H owner repo revision p ah w))
    \<and> (\<exists>e. fst (resolve_get H owner repo revision p ah w) = Inl (App e) \<and> denied w (Inl e :: AppError + headers))
    \<and> fst (list_models H w) = fst (list_models H (without_private w))"
proof -
  note g = hidden_gate [OF assms]
  have l: "denied w (fst (resolve_lookup H owner repo revision p ah w))"
    unfolding resolve_lookup_def by (rule denied_bind, rule g)
  then have rg: "\<exists>e. fst (resolve_get H owner repo revision p ah w) = Inl (App e) \<and> denied w (Inl e :: AppError + headers)"
    by (auto simp: resolve_get_def app_def bindE_def denied_def split: prod.splits sum.splits)
  show ?thesis
    unfolding model_info_def model_info_rev_def model_objects_def model_downloads_trend_def resolve_head_def
    by (intro conjI rg list_models_without_private [symmetric]; rule denied_bind; rule g l)
qed

text \<open>C35: but anybody can claim to be the owner. The viewer of a reading endpoint is taken from the payload of a
  token whose signature is not looked at: with the owner's id in the payload, every signature opens
  the private repository.\<close>

theorem forged_token_reads_private_repo:
  assumes "repo_named w owner repo = Some rid" and "map_of (repos w) rid = Some r" and "faults w = []"
    and "decode_and_validate H (clock w) (h @ ''.'' @ p @ ''.'' @ sig) = Inr claims"
    and "parse_i64 (user_id claims) = Some (rp_owner_user_id r)"
    and "CHR ''.'' \<notin> set (h @ p @ sig)" and "strip_prefix ''eyJ'' h \<noteq> None" and "p \<noteq> []"
    and "CHR ''.'' \<notin> set sig'" and "header_to_str (''Bearer '' @ h @ ''.'' @ p @ ''.'' @ sig') \<noteq> None"
  shows "fst (model_info H owner repo (Some (''Bearer '' @ h @ ''.'' @ p @ ''.'' @ sig')) w)
    = fst (build_model_info H owner repo rid ''main'' w)"
proof -
  let ?t = "h @ ''.'' @ p @ ''.'' @ sig'"
  have s: "split_on (CHR ''.'') (h @ ''.'' @ p @ ''.'' @ x) = [h, p, x]" if "CHR ''.'' \<notin> set x" for x
    using assms(6) that by (simp add: split_on_append split_on_no_sep)
  have b: "bearer_of (Some (''Bearer '' @ ?t)) = Some ?t"
    using assms(10) by (auto simp: bearer_of_def header_to_str_def split: if_splits)
  have j: "looks_like_jwt ?t"
    using s [OF assms(9)] assms(7,8) by (simp add: looks_like_jwt_def)
  have "decode_and_validate H (clock w) ?t = Inr claims"
    using assms(4,6) s [OF assms(9)] s [of sig] by (simp add: decode_and_validate_def segments3_def)
  with b j assms(5) have "viewer_of H w (Some (''Bearer '' @ ?t)) = Some (rp_owner_user_id r)"
    by (simp add: viewer_of_def del: append_Cons)
  then have "readable_repo H owner repo (Some (''Bearer '' @ ?t)) w = (Inr rid, w)"
    by (intro open_gate [OF assms(1,2,3)] disjI1)
  then show ?thesis by (simp add: model_info_def bindE_def del: append_Cons)
qed

section \<open>Serving a file\<close>

text \<open>The reference: the first \<open>n\<close> chunks of a body, the bytes of a term, the bytes of a file.\<close>

fun read_chunks :: "(byte list \<Rightarrow> string + (byte list \<times> byte list)) \<Rightarrow> nat \<Rightarrow> byte list \<Rightarrow> byte list list option" where
  "read_chunks ck 0 cur = Some []"
| "read_chunks ck (Suc n) cur =
     (if cur = [] then None
      else case ck cur of Inl _ \<Rightarrow> None | Inr (d, rest) \<Rightarrow> map_option ((#) d) (read_chunks ck n rest))"

definition term_content :: "hub_env \<Rightarrow> 'z world_scheme \<Rightarrow> ParsedTerm \<Rightarrow> byte list option" where
  "term_content H w t =
     (case xorb_meta w (pt_xorb_hash t) of
        Some (Some sia_id, sz) \<Rightarrow>
          (case h_sia_read H sia_id 0 (as_u64 sz) of
             Inl _ \<Rightarrow> None
           | Inr body \<Rightarrow> map_option (\<lambda>ds. concat (drop (unat (as_u64 (pt_xorb_start t))) ds))
               (read_chunks (h_chunk H) (unat (as_u64 (pt_xorb_end t))) body))
      | _ \<Rightarrow> None)"

fun file_content :: "hub_env \<Rightarrow> 'z world_scheme \<Rightarrow> ParsedTerm list \<Rightarrow> byte list option" where
  "file_content H w [] = Some []"
| "file_content H w (t # ts) =
     (case term_content H w t of None \<Rightarrow> None | Some b \<Rightarrow> map_option ((@) b) (file_content H w ts))"

lemma take_chunks_exact:
  assumes "idx \<le> we"
  shows "(case take_chunks ck ws we idx cur out of Inl _ \<Rightarrow> None | Inr (i, out') \<Rightarrow> if i < we then None else Some out')
    = map_option (\<lambda>ds. out @ concat (drop (ws - idx) ds)) (read_chunks ck (we - idx) cur)"
  using assms
proof (induction "we - idx" arbitrary: idx cur out)
  case 0
  then show ?case by (simp add: take_chunks.simps)
next
  case (Suc n)
  then have lt: "idx < we" and n: "n = we - (idx + 1)" "we - idx = Suc (we - (idx + 1))" by simp_all
  note IH = Suc.hyps(1) [OF n(1)]
  show ?case
  proof (cases "cur = [] \<or> (\<exists>e. ck cur = Inl e)")
    case True
    with lt n(2) show ?thesis by (auto simp: take_chunks.simps [of ck ws we idx])
  next
    case False
    then obtain d rest where c: "cur \<noteq> []" "ck cur = Inr (d, rest)" by (metis obj_sumE surj_pair)
    have "take_chunks ck ws we idx cur out = take_chunks ck ws we (idx + 1) rest (if idx \<ge> ws then out @ d else out)"
      using c lt by (simp add: take_chunks.simps [of ck ws we idx])
    with IH [of rest "if idx \<ge> ws then out @ d else out"] lt c n(2) show ?thesis
      by (cases "ws \<le> idx") (auto simp: option.map_comp comp_def Suc_diff_le drop_Cons' intro!: option.map_cong)
  qed
qed

lemma decode_term_exact:
  "(case decode_term H body t out of Inl _ \<Rightarrow> None | Inr out' \<Rightarrow> Some out')
    = map_option (\<lambda>ds. out @ concat (drop (unat (as_u64 (pt_xorb_start t))) ds))
        (read_chunks (h_chunk H) (unat (as_u64 (pt_xorb_end t))) body)"
  using take_chunks_exact [of 0 "unat (as_u64 (pt_xorb_end t))" "h_chunk H" "unat (as_u64 (pt_xorb_start t))" body out]
  by (auto simp: decode_term_def Let_def split: sum.splits prod.splits if_splits)

lemma serve_terms_exact:
  assumes "faults w = []"
  shows "snd (serve_terms H ts out w) = w \<and> (case fst (serve_terms H ts out w) of Inl _ \<Rightarrow> None | Inr out' \<Rightarrow> Some out')
    = map_option ((@) out) (file_content H w ts)"
proof (induction ts arbitrary: out)
  case (Cons t ts)
  note q = io_step_no_fault [OF assms]
  show ?case
  proof (cases "\<exists>sid sz body. xorb_meta w (pt_xorb_hash t) = Some (Some sid, sz) \<and> h_sia_read H sid 0 (as_u64 sz) = Inr body")
    case True
    then obtain sid sz body where m: "xorb_meta w (pt_xorb_hash t) = Some (Some sid, sz)" "h_sia_read H sid 0 (as_u64 sz) = Inr body" by blast
    show ?thesis
    proof (cases "decode_term H body t out")
      case (Inl e)
      with m decode_term_exact [of H body t out] show ?thesis
        by (auto simp: db_query_def q bindE_def lift_res_def term_content_def)
    next
      case (Inr out')
      with decode_term_exact [of H body t out] obtain b where "term_content H w t = Some b" "out' = out @ b"
        using m Inr by (cases "read_chunks (h_chunk H) (unat (as_u64 (pt_xorb_end t))) body") (auto simp: term_content_def)
      with m Inr Cons.IH [of out'] show ?thesis
        by (simp add: db_query_def q bindE_def lift_res_def option.map_comp comp_def)
    qed
  next
    case False
    then show ?thesis
      by (auto simp: db_query_def q bindE_def raise_def term_content_def split: option.split sum.split)
  qed
qed (simp add: ret_def)

lemma fst_app: "fst (app m w) = map_sum App id (fst (m w))"
  by (auto simp: app_def split: prod.split sum.split)

lemma discard_Inr [simp]: "fst (discard m w) = Inr ()"
  by (simp add: io_defs case_prod_beta)

lemma bind_discard: "bindE (discard m) f w = f () (snd (m w))"
  by (simp add: bindE_def discard_def case_prod_beta)

lemma record_download_Inr [simp]: "fst (record_download rid k n fid oid w) = Inr ()"
  by (cases rid) (simp_all add: record_download_def bind_discard bind_run(1) [OF ret_def])

lemma optional_key_Inr: "\<exists>k. fst (optional_api_key_id X ah w) = Inr k"
  by (auto simp: optional_api_key_id_def or_none_def io_defs split: option.split prod.split sum.split)

text \<open>Recording the download never spoils a reply.\<close>

lemma recorded_reply:
  "fst (bindE (app (optional_api_key_id X ah)) (\<lambda>k. bindE (app (record_download rid k n fid oid)) (\<lambda>_. ret out)) w) = Inr out"
proof -
  obtain k w1 where "optional_api_key_id X ah w = (Inr k, w1)" using optional_key_Inr [of X ah w] by (metis prod.collapse)
  moreover obtain w2 where "record_download rid k n fid oid w1 = (Inr (), w2)"
    using record_download_Inr [of rid k n fid oid w1] by (metis prod.collapse)
  ultimately show ?thesis by (simp add: bindE_def app_def ret_def)
qed

text \<open>C15: the server rebuilds exactly the file. When the database answers, the reply is a body precisely if the
  file is known, every term's xorb is pinned and can be read back from Sia, its chunks decode, and
  the chunks of the terms, in term order, add up to the registered size; the body is then those bytes.\<close>

theorem served_file_is_reconstruction:
  assumes "faults w = []" and "hex_decode hx = Inr (Some fid)"
  shows "fst (xet_file_serve H hx rid ah w) = Inr out \<longleftrightarrow>
    (\<exists>f. map_of (reconstruction_files w) fid = Some f \<and> terms_of w fid \<noteq> []
       \<and> file_content H w (terms_of w fid) = Some out \<and> int (length out) = rf_total_size f
       \<and> unat (as_u64 (rf_total_size f)) < 2 ^ 63)"
proof -
  note q = io_step_no_fault [OF assms(1)]
  have "map_option ((@) []) x = x" for x :: "byte list option" by (cases x) simp_all
  then obtain r where s: "serve_terms H (terms_of w fid) [] w = (r, w)"
    and r: "(case r of Inl _ \<Rightarrow> None | Inr out' \<Rightarrow> Some out') = file_content H w (terms_of w fid)"
    using serve_terms_exact [OF assms(1), of H "terms_of w fid" "[]"]
    by (cases "serve_terms H (terms_of w fid) [] w") auto
  show ?thesis
  proof (cases "map_of (reconstruction_files w) fid")
    case None
    then show ?thesis
      by (simp add: xet_file_serve_def hex_arg_def assms(2) bindE_def lift_res_def app_def db_query_def q ok_or_def)
  next
    case (Some f)
    have "fst (xet_file_serve H hx rid ah w) =
       (if terms_of w fid = [] then Inl (App NotFound)
        else if unat (as_u64 (rf_total_size f)) \<ge> 2 ^ 63 then Inl Panicked
        else case r of Inl e \<Rightarrow> Inl (App e)
          | Inr out' \<Rightarrow> if int (length out') \<noteq> rf_total_size f then Inl (App (Other (''reconstruction size mismatch: got '' @ show_nat (length out') @ '', expected '' @ show_int (rf_total_size f)))) else Inr out')"
      using recorded_reply [of H ah rid _ "Some fid" None _ w] Some s
      by (auto simp: xet_file_serve_def hex_arg_def assms(2) lift_res_def app_def db_query_def q ok_or_def raise_def bind_run split: sum.split)
    with Some r show ?thesis by (auto split: sum.splits)
  qed
qed


section \<open>Witnesses\<close>

text \<open>Chunks of one byte, a network that returns an object's id as its bytes, one JSON value and one file entry.\<close>

definition toy_henv :: "XetJwtClaims \<Rightarrow> CommitFile \<Rightarrow> hub_env" where
  "toy_henv c f = auth_ext.extend (toy_aext c)
     \<lparr>h_signing_key = [1], h_cas_public_url = ''u'', h_gateway_reads = False,
      h_json = (\<lambda>_. Some (JObj [(''key'', JStr ''file'')])), h_commit_header = (\<lambda>_. None), h_commit_file = (\<lambda>_. Some f),
      h_chunk = (\<lambda>b. Inr ([hd b], tl b)), h_sia_read = (\<lambda>i _ _. Inr i), h_time = show_int, h_day = show_int,
      h_header_ok = (\<lambda>_. True)\<rparr>"

definition toy_file :: CommitFile where
  "toy_file = \<lparr>cf_path = ''a'', cf_content = Some '''', cf_oid = None, cf_size = None, cf_xet_hash = None\<rparr>"

definition toy_user :: user_row where
  "toy_user = \<lparr>usr_github_login = ''o'', usr_email = None, usr_avatar_url = None, usr_is_admin = False, usr_hf_user_id = None,
     usr_revoked_at = None\<rparr>"

text \<open>One private repository of user 69 with one commit; one file, of two chunks of one pinned xorb.\<close>

definition toy_hub :: hub where
  "toy_hub = accounts.extend (empty_accounts\<lparr>users := [(69, toy_user)],
     xorbs := [([9], \<lparr>sia_object_id = Some [7, 8], size_bytes = 2, owner_user_id = 69, owner_api_key_id = 1, uploaded_at = 0,
        pin_state = Pinned, pin_attempts = 0, last_pin_attempt_at = None, chunk_boundaries = None\<rparr>)],
     reconstruction_files := [([1], \<lparr>rf_shard_hash = [], rf_total_size = 2, rf_sha256 = None\<rparr>)],
     reconstruction_terms := [(([1], 0), \<lparr>pt_file_id = [1], pt_term_index = 0, pt_xorb_hash = [9], pt_xorb_start = 0,
        pt_xorb_end = 2, pt_xorb_byte_start = 0, pt_xorb_byte_end = 2, pt_unpacked_start = 0, pt_unpacked_end = 2\<rparr>)]\<rparr>)
     \<lparr>repos = [(1, \<lparr>rp_owner_user_id = 69, rp_name = ''m'', rp_visibility = Private, rp_description = None,
        rp_created_at = 0, rp_updated_at = 0\<rparr>)],
      repo_commits = [(5, \<lparr>cm_repo_id = 1, cm_parent = None, cm_author_user_id = 69, cm_author_api_key_id = 1, cm_message = '''',
        cm_committed_at = 0\<rparr>)],
      repo_refs = [((1, ''main''), 5)], repo_files = [], lfs_objects = [], repo_downloads = [], download_log = []\<rparr>"

lemma toy_hub_sel:
  "faults toy_hub = []" "clock toy_hub = 0" "users toy_hub = [(69, toy_user)]" "api_keys toy_hub = []"
  "repo_refs toy_hub = [((1, ''main''), 5)]" "repo_files toy_hub = []" "lfs_objects toy_hub = []" "repo_downloads toy_hub = []"
  "map_of (repos toy_hub) 1 = Some \<lparr>rp_owner_user_id = 69, rp_name = ''m'', rp_visibility = Private, rp_description = None,
        rp_created_at = 0, rp_updated_at = 0\<rparr>"
  "repo_named toy_hub ''o'' ''m'' = Some 1" "map_of (repo_commits toy_hub) 5 \<noteq> None"
  by (simp_all add: toy_hub_def accounts.defs empty_accounts_def world.defs empty_world_def repo_named_def toy_user_def)

lemma toy_henv_sel: "x_b64_url_decode (toy_henv c f) = hex_pairs (\<lambda>hi lo. of_nat (16 * hi + lo))"
  "x_claims_from_slice (toy_henv c f) = (\<lambda>_. Some c)" "x_digest (toy_henv c f) = (\<lambda>bs. bs)"
  "h_chunk (toy_henv c f) = (\<lambda>b. Inr ([hd b], tl b))" "h_sia_read (toy_henv c f) = (\<lambda>i _ _. Inr i)"
  by (simp_all add: toy_henv_def auth_ext.defs toy_aext_def url_ext.defs toy_ext_def)

theorem private_repo_is_hidden_witness:
  "fst (model_info (toy_henv hf_claims toy_file) ''o'' ''m'' None toy_hub) = Inl NotFound"
  using private_repo_is_hidden [OF toy_hub_sel(10,9), of "toy_henv hf_claims toy_file" None]
  by (simp add: viewer_of_def bearer_of_def denied_def toy_hub_sel(1))

theorem forged_token_reads_private_repo_witness:
  "\<exists>i. fst (model_info (toy_henv hf_claims toy_file) ''o'' ''m'' (Some ''Bearer eyJ.00.ff'') toy_hub) = Inr i"
proof -
  let ?H = "toy_henv hf_claims toy_file"
  have d: "decode_and_validate ?H (clock toy_hub) (''eyJ'' @ ''.'' @ ''00'' @ ''.'' @ ''00'') = Inr hf_claims"
    by (simp add: decode_and_validate_def segments3_def hf_claims_def EXPECTED_ISSUERS_def now_secs_def MAX_CLOCK_SKEW_SECS_def
      to_digit16_def toy_henv_sel toy_hub_sel)
  have "fst (model_info ?H ''o'' ''m'' (Some (''Bearer '' @ ''eyJ'' @ ''.'' @ ''00'' @ ''.'' @ ''ff'')) toy_hub)
      = fst (build_model_info ?H ''o'' ''m'' 1 ''main'' toy_hub)"
    by (rule forged_token_reads_private_repo [OF toy_hub_sel(10,9,1) d])
      (simp_all add: hf_claims_def parse_i64_def parse_unsigned_def char_digit_def header_to_str_def)
  moreover obtain c where "map_of (repo_commits toy_hub) 5 = Some c" using toy_hub_sel(11) by blast
  then have "\<exists>i. fst (build_model_info ?H ''o'' ''m'' 1 ''main'' toy_hub) = Inr i"
    by (simp add: build_model_info_def fetch_download_counters_def io_defs db_query_def io_step_no_fault toy_hub_sel ref_commit_def
        ok_or_def Let_def)
  ultimately show ?thesis by simp
qed

theorem served_file_is_reconstruction_witness:
  "fst (xet_file_serve (toy_henv hf_claims toy_file) ''01'' None None toy_hub) = Inr [7, 8]"
proof -
  have h: "hex_decode ''01'' = Inr (Some [1])"
    by (simp add: hex_decode_def continuation_byte_def u8_from_str_radix16_def to_digit16_def)
  have t: "terms_of toy_hub [1] = [\<lparr>pt_file_id = [1], pt_term_index = 0, pt_xorb_hash = [9], pt_xorb_start = 0,
        pt_xorb_end = 2, pt_xorb_byte_start = 0, pt_xorb_byte_end = 2, pt_unpacked_start = 0, pt_unpacked_end = 2\<rparr>]"
    "map_of (reconstruction_files toy_hub) [1] = Some \<lparr>rf_shard_hash = [], rf_total_size = 2, rf_sha256 = None\<rparr>"
    "xorb_meta toy_hub [9] = Some (Some [7, 8], 2)"
    by (simp_all add: terms_of_def xorb_meta_def toy_hub_def accounts.defs empty_accounts_def world.defs empty_world_def)
  have n: "unat (as_u64 2) = Suc (Suc 0)" "unat (as_u64 0) = 0" by (simp_all add: as_u64_def)
  from t have "file_content (toy_henv hf_claims toy_file) toy_hub (terms_of toy_hub [1]) = Some [7, 8]"
    by (simp add: term_content_def toy_henv_sel n)
  with t show ?thesis
    using served_file_is_reconstruction [OF toy_hub_sel(1) h, of "toy_henv hf_claims toy_file" None None "[7, 8]"]
    by (simp add: as_u64_def)
qed

end
