(* ===== verification/Sia_Adapter.thy ===== *)
theory Sia_Adapter
  imports Reconciler Hub_Read
begin

text \<open>
  The two implementations of the Sia boundary (\<^verbatim>\<open>openweights-cas-storage\<close>): the in-memory adapter of
  \<^verbatim>\<open>mock.rs\<close> and the adapter over the SDK of \<^verbatim>\<open>sia.rs\<close>. Elsewhere Sia is the script of its answers; here the
  answers are computed. The SDK and SHA-256 are parameters. The locale \<open>object_store\<close> is what the rest of the
  system expects of Sia; the in-memory adapter keeps it.
\<close>

section \<open>The in-memory adapter\<close>

record MockSiaAdapter =
  mk_store :: "(byte list \<times> byte list) list"
  mk_upload_calls :: u64
  mk_pin_calls :: u64
  mk_download_calls :: u64
  mk_inject_fail :: bool
  mk_inject_perm :: bool

definition mock_new :: MockSiaAdapter where
  "mock_new = \<lparr>mk_store = [], mk_upload_calls = 0, mk_pin_calls = 0, mk_download_calls = 0, mk_inject_fail = False,
     mk_inject_perm = False\<rparr>"

definition inject_unavailable :: "bool \<Rightarrow> MockSiaAdapter \<Rightarrow> MockSiaAdapter" where
  "inject_unavailable on m = m\<lparr>mk_inject_fail := on\<rparr>"

definition inject_permanent :: "bool \<Rightarrow> MockSiaAdapter \<Rightarrow> MockSiaAdapter" where
  "inject_permanent on m = m\<lparr>mk_inject_perm := on\<rparr>"

definition fail_if_injected :: "MockSiaAdapter \<Rightarrow> SiaAdapterError + unit" where
  "fail_if_injected m =
     (if mk_inject_perm m then Inl (SiaOther ''mock: injected permanent failure'')
      else if mk_inject_fail m then Inl (Unavailable ''mock sia unavailable (injected failure)'')
      else Inr ())"

definition mock_upload_and_pin ::
  "(byte list \<Rightarrow> byte list) \<Rightarrow> byte list \<Rightarrow> MockSiaAdapter \<Rightarrow> (SiaAdapterError + byte list) \<times> MockSiaAdapter" where
  "mock_upload_and_pin sha bytes m =
     (case fail_if_injected m of
        Inl e \<Rightarrow> (Inl e, m)
      | Inr _ \<Rightarrow>
          let i = sha bytes in
          (Inr i, m\<lparr>mk_upload_calls := mk_upload_calls m + 1, mk_store := insert_row i bytes (mk_store m),
             mk_pin_calls := mk_pin_calls m + 1\<rparr>))"

definition mock_pin_only :: "byte list \<Rightarrow> MockSiaAdapter \<Rightarrow> (SiaAdapterError + unit) \<times> MockSiaAdapter" where
  "mock_pin_only oid m =
     (case fail_if_injected m of
        Inl e \<Rightarrow> (Inl e, m)
      | Inr _ \<Rightarrow>
          (if length oid \<noteq> 32 then Inl (SiaOther ''sia_object_id must be 32 bytes'')
           else if map_of (mk_store m) oid = None then Inl (SiaOther ''mock: pin_only called on unknown sia_object_id'')
           else Inr (),
           m\<lparr>mk_pin_calls := mk_pin_calls m + 1\<rparr>))"

definition mock_slice :: "u64 \<Rightarrow> u64 \<Rightarrow> byte list \<Rightarrow> SiaAdapterError + byte list" where
  "mock_slice offset len bytes =
     (let start = unat offset; finish = unat (saturating_add offset len) in
      if finish > length bytes then Inl (SiaOther ''mock: download_range out of bounds'')
      else Inr (take (finish - start) (drop start bytes)))"

definition mock_download_range ::
  "byte list \<Rightarrow> u64 \<Rightarrow> u64 \<Rightarrow> MockSiaAdapter \<Rightarrow> (SiaAdapterError + byte list) \<times> MockSiaAdapter" where
  "mock_download_range oid offset len m =
     (case fail_if_injected m of
        Inl e \<Rightarrow> (Inl e, m)
      | Inr _ \<Rightarrow>
          (if length oid \<noteq> 32 then Inl (SiaOther ''sia_object_id must be 32 bytes'')
           else (case map_of (mk_store m) oid of
                   None \<Rightarrow> Inl (SiaOther ''mock: download_range on unknown sia_object_id'')
                 | Some bytes \<Rightarrow> mock_slice offset len bytes),
           m\<lparr>mk_download_calls := mk_download_calls m + 1\<rparr>))"

section \<open>The adapter over the SDK\<close>

datatype sdk_read = Refused string | ReadFailed string | ReadBytes "byte list"

text \<open>What the adapter calls of the SDK, over the state \<open>'n\<close> of the network: uploading with a number of data and
  parity shards, pinning, resolving an id, and reading a range of an object.\<close>

record ('o, 'n) sdk =
  sdk_upload :: "byte \<times> byte \<Rightarrow> byte list \<Rightarrow> 'n \<Rightarrow> (string + 'o) \<times> 'n"
  sdk_pin_object :: "'o \<Rightarrow> 'n \<Rightarrow> (string + unit) \<times> 'n"
  sdk_object :: "byte list \<Rightarrow> 'n \<Rightarrow> string + 'o"
  sdk_download :: "'o \<Rightarrow> u64 \<Rightarrow> u64 \<Rightarrow> 'n \<Rightarrow> sdk_read"
  sdk_object_id :: "'o \<Rightarrow> byte list"

record RedundancyConfig =
  data_shards :: byte
  parity_shards :: byte

definition default_redundancy :: RedundancyConfig where
  "default_redundancy = \<lparr>data_shards = 10, parity_shards = 20\<rparr>"

definition unavailable :: "string + 'a \<Rightarrow> SiaAdapterError + 'a" where
  "unavailable r = (case r of Inl e \<Rightarrow> Inl (Unavailable e) | Inr a \<Rightarrow> Inr a)"

definition object_for :: "('o, 'n, 'x) sdk_scheme \<Rightarrow> byte list \<Rightarrow> 'n \<Rightarrow> SiaAdapterError + 'o" where
  "object_for S oid n =
     (if length oid \<noteq> 32 then Inl (SiaOther ''sia_object_id must be 32 bytes'') else unavailable (sdk_object S oid n))"

definition rust_upload_and_pin ::
  "('o, 'n, 'x) sdk_scheme \<Rightarrow> RedundancyConfig \<Rightarrow> byte list \<Rightarrow> 'n \<Rightarrow> (SiaAdapterError + byte list) \<times> 'n" where
  "rust_upload_and_pin S R bytes n =
     (case sdk_upload S (data_shards R, parity_shards R) bytes n of
        (Inl e, n1) \<Rightarrow> (Inl (Unavailable e), n1)
      | (Inr obj, n1) \<Rightarrow>
          (case sdk_pin_object S obj n1 of
             (Inl e, n2) \<Rightarrow> (Inl (Unavailable e), n2)
           | (Inr _, n2) \<Rightarrow> (Inr (sdk_object_id S obj), n2)))"

definition rust_pin_only :: "('o, 'n, 'x) sdk_scheme \<Rightarrow> byte list \<Rightarrow> 'n \<Rightarrow> (SiaAdapterError + unit) \<times> 'n" where
  "rust_pin_only S oid n =
     (case object_for S oid n of
        Inl e \<Rightarrow> (Inl e, n)
      | Inr obj \<Rightarrow> (case sdk_pin_object S obj n of (r, n1) \<Rightarrow> (unavailable r, n1)))"

definition rust_download_range ::
  "('o, 'n, 'x) sdk_scheme \<Rightarrow> byte list \<Rightarrow> u64 \<Rightarrow> u64 \<Rightarrow> 'n \<Rightarrow> SiaAdapterError + byte list" where
  "rust_download_range S oid offset len n =
     (case object_for S oid n of
        Inl e \<Rightarrow> Inl e
      | Inr obj \<Rightarrow>
          (case sdk_download S obj offset len n of
             Refused e \<Rightarrow> Inl (Unavailable e)
           | ReadFailed e \<Rightarrow> Inl (SiaOther (''sia download copy: '' @ e))
           | ReadBytes b \<Rightarrow> Inr b))"

section \<open>The contract of an object store\<close>

datatype store_call = CallUpload "byte list" | CallPin "byte list" | CallDownload "byte list" u64 u64

fun store_calls ::
  "(byte list \<Rightarrow> 's \<Rightarrow> (SiaAdapterError + byte list) \<times> 's) \<Rightarrow> (byte list \<Rightarrow> 's \<Rightarrow> (SiaAdapterError + unit) \<times> 's)
    \<Rightarrow> (byte list \<Rightarrow> u64 \<Rightarrow> u64 \<Rightarrow> 's \<Rightarrow> (SiaAdapterError + byte list) \<times> 's) \<Rightarrow> store_call list \<Rightarrow> 's \<Rightarrow> 's" where
  "store_calls up pn dn [] s = s"
| "store_calls up pn dn (CallUpload b # cs) s = store_calls up pn dn cs (snd (up b s))"
| "store_calls up pn dn (CallPin j # cs) s = store_calls up pn dn cs (snd (pn j s))"
| "store_calls up pn dn (CallDownload j off len # cs) s = store_calls up pn dn cs (snd (dn j off len s))"

definition keyed_by :: "(byte list \<Rightarrow> byte list) \<Rightarrow> (byte list \<Rightarrow> byte list option) \<Rightarrow> bool" where
  "keyed_by name h \<longleftrightarrow> (\<forall>i b. h i = Some b \<longrightarrow> i = name b)"

lemma store_calls_keep:
  assumes "\<And>b s. P s \<Longrightarrow> P (snd (up b s))" and "\<And>j s. P s \<Longrightarrow> P (snd (pn j s))" and "\<And>j off len s. P s \<Longrightarrow> P (snd (dn j off len s))"
  shows "P s \<Longrightarrow> P (store_calls up pn dn cs s)"
proof (induction cs arbitrary: s)
  case (Cons c cs)
  then show ?case by (cases c) (auto intro: assms)
qed simp

text \<open>\<open>holds s i\<close> is the object stored under an id. \<open>ready s\<close>: the store answers.\<close>

locale object_store =
  fixes upload :: "byte list \<Rightarrow> 's \<Rightarrow> (SiaAdapterError + byte list) \<times> 's"
    and pin :: "byte list \<Rightarrow> 's \<Rightarrow> (SiaAdapterError + unit) \<times> 's"
    and download :: "byte list \<Rightarrow> u64 \<Rightarrow> u64 \<Rightarrow> 's \<Rightarrow> (SiaAdapterError + byte list) \<times> 's"
    and holds :: "'s \<Rightarrow> byte list \<Rightarrow> byte list option"
    and ready :: "'s \<Rightarrow> bool"
    and name :: "byte list \<Rightarrow> byte list"
  assumes upload_holds: "upload b s = (Inr i, s') \<Longrightarrow>
      i = name b \<and> holds s' = (case holds s i of None \<Rightarrow> (holds s)(i \<mapsto> b) | Some _ \<Rightarrow> holds s)"
    and upload_fails: "upload b s = (Inl e, s') \<Longrightarrow> holds s' = holds s"
    and others: "holds (snd (pin j s)) = holds s" "holds (snd (download j off len s)) = holds s"
    and ready_kept: "ready s \<Longrightarrow> ready (snd (upload b s))" "ready s \<Longrightarrow> ready (snd (pin j s))"
      "ready s \<Longrightarrow> ready (snd (download j off len s))"
    and upload_ready: "ready s \<Longrightarrow> \<exists>i. fst (upload b s) = Inr i"
    and download_ready: "ready s \<Longrightarrow> length j = 32 \<Longrightarrow> holds s j = Some b \<Longrightarrow> unat off + unat len \<le> length b \<Longrightarrow>
      length b < 2 ^ 64 \<Longrightarrow> fst (download j off len s) = Inr (take (unat len) (drop (unat off) b))"
begin

lemma upload_extends: "holds s i = Some b \<Longrightarrow> holds (snd (upload c s)) i = Some b"
proof (cases "upload c s")
  case (Pair r s')
  moreover assume "holds s i = Some b"
  ultimately show ?thesis
    using upload_fails [of c s _ s'] upload_holds [of c s _ s'] by (cases r) (auto split: option.splits)
qed

lemma upload_keyed: "keyed_by name (holds s) \<Longrightarrow> keyed_by name (holds (snd (upload c s)))"
proof (cases "upload c s")
  case (Pair r s')
  moreover assume "keyed_by name (holds s)"
  ultimately show ?thesis
    using upload_fails [of c s _ s'] upload_holds [of c s _ s']
    by (cases r) (auto simp: keyed_by_def split: option.splits if_splits)
qed

lemma stored_stays: "holds s i = Some b \<Longrightarrow> holds (store_calls upload pin download cs s) i = Some b"
  by (rule store_calls_keep) (auto simp: upload_extends others)

lemma calls_keyed: "keyed_by name (holds s) \<Longrightarrow> keyed_by name (holds (store_calls upload pin download cs s))"
  by (rule store_calls_keep) (auto simp: upload_keyed others)

lemma calls_ready: "ready s \<Longrightarrow> ready (store_calls upload pin download cs s)"
  by (rule store_calls_keep) (auto simp: ready_kept)

lemma upload_source: "holds (snd (upload c s)) i = Some b \<Longrightarrow> holds s i = Some b \<or> b = c"
proof (cases "upload c s")
  case (Pair r s')
  moreover assume "holds (snd (upload c s)) i = Some b"
  ultimately show ?thesis
    using upload_fails [of c s _ s'] upload_holds [of c s _ s'] by (cases r) (auto split: option.splits if_splits)
qed

lemma calls_source: "holds (store_calls upload pin download cs s) i = Some b \<Longrightarrow> holds s i = Some b \<or> CallUpload b \<in> set cs"
proof (induction cs arbitrary: s)
  case (Cons c cs)
  then show ?case by (cases c) (auto simp: others dest!: Cons.IH upload_source)
qed simp

text \<open>What was uploaded is read back, whatever calls come before and after; or another object had its name.\<close>

lemma reads_back:
  assumes "keyed_by name (holds s)" and "ready s" and "length (name b) = 32" and "unat off + unat len \<le> length b" and "length b < 2 ^ 64"
  shows "\<exists>s'. upload b s = (Inr (name b), s') \<and>
    (fst (download (name b) off len (store_calls upload pin download cs s')) = Inr (take (unat len) (drop (unat off) b))
     \<or> (\<exists>b'. b' \<noteq> b \<and> name b' = name b \<and> holds s (name b) = Some b'))"
proof -
  obtain i s' where u: "upload b s = (Inr i, s')" using upload_ready [OF assms(2), of b] by (cases "upload b s") auto
  then have i: "i = name b" using upload_holds by blast
  obtain b' where b': "holds s' i = Some b'" using upload_holds [OF u] by (auto split: option.splits)
  have "name b' = name b" using upload_keyed [OF assms(1), of b] u b' i by (auto simp: keyed_by_def)
  moreover have "holds s i = Some b' \<or> b' = b" using upload_source [of b s i b'] u b' by simp
  moreover have "ready s'" using ready_kept(1) [OF assms(2), of b] u by simp
  with b' have "holds (store_calls upload pin download cs s') i = Some b'" "ready (store_calls upload pin download cs s')"
    using stored_stays calls_ready by blast+
  ultimately show ?thesis using u assms(3-5) i download_ready [of _ i b' off len] by (cases "b' = b") auto
qed

end

section \<open>The in-memory adapter keeps the contract\<close>

definition mock_ready :: "MockSiaAdapter \<Rightarrow> bool" where
  "mock_ready m \<longleftrightarrow> \<not> mk_inject_fail m \<and> \<not> mk_inject_perm m"

lemma mock_ready_not_injected: "mock_ready m \<Longrightarrow> fail_if_injected m = Inr ()"
  by (simp add: mock_ready_def fail_if_injected_def)

lemma mock_slice_run:
  assumes "unat off + unat len \<le> length b" and "length b < 2 ^ 64"
  shows "mock_slice off len b = Inr (take (unat len) (drop (unat off) b))"
  using assms by (simp add: mock_slice_def unat_saturating_add)

interpretation mock: object_store "mock_upload_and_pin sha" mock_pin_only mock_download_range "\<lambda>m. map_of (mk_store m)" mock_ready sha
proof
  show "i = sha b \<and> map_of (mk_store s') = (case map_of (mk_store s) i of None \<Rightarrow> (map_of (mk_store s))(i \<mapsto> b) | Some _ \<Rightarrow> map_of (mk_store s))"
    if "mock_upload_and_pin sha b s = (Inr i, s')" for b s i s'
    using that by (auto simp: mock_upload_and_pin_def Let_def map_of_insert_row fun_eq_iff split: sum.splits option.splits)
  show "fst (mock_download_range j off len s) = Inr (take (unat len) (drop (unat off) b))"
    if "mock_ready s" "length j = 32" "map_of (mk_store s) j = Some b" "unat off + unat len \<le> length b" "length b < 2 ^ 64" for j s b off len
    using that by (simp add: mock_download_range_def mock_ready_not_injected mock_slice_run)
qed (auto simp: mock_upload_and_pin_def mock_pin_only_def mock_download_range_def mock_ready_def fail_if_injected_def Let_def
    split: sum.splits if_splits)

text \<open>C25: the in-memory store gives back what was stored. After any calls, an upload succeeds and returns the digest of the bytes;
  after any further calls every range of the object reads as that range of the bytes, unless different bytes with the
  same digest had been uploaded before.\<close>

theorem mock_store_reads_back:
  assumes "length (sha b) = 32" and "unat off + unat len \<le> length b" and "length b < 2 ^ 64"
  shows "\<exists>m. mock_upload_and_pin sha b (store_calls (mock_upload_and_pin sha) mock_pin_only mock_download_range before mock_new) = (Inr (sha b), m)
    \<and> (fst (mock_download_range (sha b) off len (store_calls (mock_upload_and_pin sha) mock_pin_only mock_download_range after m))
         = Inr (take (unat len) (drop (unat off) b))
       \<or> (\<exists>b'. b' \<noteq> b \<and> sha b' = sha b \<and> CallUpload b' \<in> set before))"
proof -
  let ?m = "store_calls (mock_upload_and_pin sha) mock_pin_only mock_download_range before mock_new"
  have "keyed_by sha (map_of (mk_store ?m))"
    by (rule mock.calls_keyed) (simp add: keyed_by_def mock_new_def)
  moreover have "mock_ready ?m" by (rule mock.calls_ready) (simp add: mock_ready_def mock_new_def)
  moreover have "CallUpload b' \<in> set before" if "map_of (mk_store ?m) i = Some b'" for i b'
    using mock.calls_source [OF that] by (simp add: mock_new_def)
  ultimately show ?thesis using mock.reads_back [where sha = sha and s = ?m and cs = after, OF _ _ assms] by blast
qed

section \<open>Failures of the SDK are transient\<close>

lemma unavailable_Inl: "unavailable r = Inl e \<longleftrightarrow> (\<exists>m. r = Inl m \<and> e = Unavailable m)"
  by (auto simp: unavailable_def split: sum.split)

lemma rust_upload_error: "fst (rust_upload_and_pin S R b n) = Inl e \<Longrightarrow> \<exists>m. e = Unavailable m"
  by (auto simp: rust_upload_and_pin_def split: prod.splits sum.splits)

lemma rust_pin_error: "length oid = 32 \<Longrightarrow> fst (rust_pin_only S oid n) = Inl e \<Longrightarrow> \<exists>m. e = Unavailable m"
  by (auto simp: rust_pin_only_def object_for_def unavailable_Inl split: prod.splits sum.splits)

text \<open>C34: whatever the SDK reports, a row is never given up for it. Every error of an upload or of a pin through the adapter is
  reported as an unavailable network, also one that no retry can mend; so the reconciler, which counts only other
  errors, leaves state, count and object id of the row as they were, and the row never reaches the alert.\<close>

theorem sdk_errors_are_never_counted:
  assumes "s_pin_state row = Pinning" and "map_of (xorbs w) (s_hash row) = Some r" and "sia_script w = SiaErr e # rs"
    and "(case s_sia_object_id row of
        Some oid \<Rightarrow> length oid = 32 \<and> fst (rust_pin_only S oid n) = Inl e
      | None \<Rightarrow> (\<exists>b. map_of (xorb_bodies w) (s_hash row) = Some b \<and> fst (rust_upload_and_pin S R b n) = Inl e))"
  shows "\<exists>r'. map_of (xorbs (snd (reconcile_xorb_row row w))) (s_hash row) = Some r'
    \<and> pin_state r' = pin_state r \<and> pin_attempts r' = pin_attempts r \<and> sia_object_id r' = sia_object_id r"
proof (rule unavailable_keeps_xorb [OF assms(1) _ assms(2)])
  have "\<exists>m. e = Unavailable m" using assms(4) rust_upload_error rust_pin_error by (cases "s_sia_object_id row") auto
  with assms(3) show "sia_unavailable w" by (auto simp: sia_unavailable_def)
  show "s_sia_object_id row \<noteq> None \<or> map_of (xorb_bodies w) (s_hash row) \<noteq> None"
    using assms(4) by (cases "s_sia_object_id row") auto
qed

section \<open>Witnesses\<close>

definition toy_sdk :: "(byte list, unit) sdk" where
  "toy_sdk = \<lparr>sdk_upload = (\<lambda>_ _ n. (Inl ''not enough hosts'', n)), sdk_pin_object = (\<lambda>_ n. (Inr (), n)),
     sdk_object = (\<lambda>i _. Inr i), sdk_download = (\<lambda>o' _ _ _. ReadBytes o'), sdk_object_id = id\<rparr>"

theorem mock_store_reads_back_witness:
  "\<exists>m. mock_upload_and_pin (\<lambda>b. replicate 32 (hd b)) [7, 8] mock_new = (Inr (replicate 32 7), m)
    \<and> fst (mock_download_range (replicate 32 7) 1 1 m) = Inr [8]"
  using mock_store_reads_back [of "\<lambda>b. replicate 32 (hd b)" "[7, 8]" 1 1 "[]" "[]"] by simp

theorem sdk_errors_are_never_counted_witness:
  "\<exists>r'. map_of (xorbs (snd (reconcile_xorb_row (stuck_row (replicate 32 2, fresh_xorb_row 3 1 1 0 []))
       (ex_pending\<lparr>sia_script := [SiaErr (Unavailable ''not enough hosts'')]\<rparr>)))) (replicate 32 2) = Some r' \<and> pin_attempts r' = 0"
  using sdk_errors_are_never_counted [of "stuck_row (replicate 32 2, fresh_xorb_row 3 1 1 0 [])"
      "ex_pending\<lparr>sia_script := [SiaErr (Unavailable ''not enough hosts'')]\<rparr>" "fresh_xorb_row 3 1 1 0 []"
      "Unavailable ''not enough hosts''" "[]", where S = toy_sdk and n = "()" and R = default_redundancy]
  by (auto simp: ex_defs toy_sdk_def rust_upload_and_pin_def)

end
