(* ===== verification/Admin.thy ===== *)
theory Admin
  imports Hub_Read
begin

text \<open>
  The console pages that display tables (\<^verbatim>\<open>handlers/admin/xorbs.rs\<close>, \<^verbatim>\<open>stats.rs\<close>, \<^verbatim>\<open>me.rs\<close>): the listing and
  the detail of stored objects, and the statistics of the signed-in user. Where a query leaves the order
  of equal rows open, they come in table order; sums are taken to fit in 64 bits.
\<close>

section \<open>Stored objects\<close>

record XorbQuery =
  xq_hash_prefix :: "string option"
  xq_api_key_id :: "uuid option"

record XorbRow =
  xo_hash :: string
  xo_sia_object_id :: "string option"
  xo_size_bytes :: int
  xo_pin_state :: string
  xo_uploaded_at :: int
  xo_uploader_key_id :: uuid

text \<open>A row of the query both pages share: hash, Sia id, size, state, time, key.\<close>

type_synonym xorb_db_row = "byte list \<times> byte list option \<times> int \<times> string \<times> int \<times> uuid"

definition xorb_base :: "hash \<times> xorb_row \<Rightarrow> xorb_db_row" where
  "xorb_base x = (case x of (h, r) \<Rightarrow>
     (h, sia_object_id r, size_bytes r, pin_state_text (pin_state r), uploaded_at r, owner_api_key_id r))"

text \<open>Whether a commit of a repository of this user has a file that is this object.\<close>

definition owns_lfs :: "'z hub_scheme \<Rightarrow> byte list \<Rightarrow> int \<Rightarrow> bool" where
  "owns_lfs w oid uid \<longleftrightarrow>
     list_ex (\<lambda>((cid, _), f). fl_lfs_oid f = Some oid
       \<and> (case map_of (repo_commits w) cid of None \<Rightarrow> False | Some c \<Rightarrow>
         (case map_of (repos w) (cm_repo_id c) of None \<Rightarrow> False | Some r \<Rightarrow> rp_owner_user_id r = uid))) (repo_files w)"

definition NIL_UUID :: uuid where
  "NIL_UUID = 0"

text \<open>The key created last among those of the owners of the repositories that contain the object.\<close>

definition lfs_uploader :: "'z hub_scheme \<Rightarrow> byte list \<Rightarrow> uuid" where
  "lfs_uploader w oid =
     (case sort_key (\<lambda>(_, k). - ak_created_at k) (filter (\<lambda>(_, k). owns_lfs w oid (ak_user_id k)) (api_keys w)) of
        [] \<Rightarrow> NIL_UUID
      | (i, _) # _ \<Rightarrow> i)"

definition lfs_base :: "'z hub_scheme \<Rightarrow> byte list \<times> lfs_row \<Rightarrow> xorb_db_row" where
  "lfs_base w x = (case x of (oid, o') \<Rightarrow> (oid, None, lo_size_bytes o', ''inline'', lo_created_at o', lfs_uploader w oid))"

definition to_xorb_row :: "xorb_db_row \<Rightarrow> XorbRow" where
  "to_xorb_row d = (case d of (h, sia, sz, st, at, key) \<Rightarrow>
     \<lparr>xo_hash = lowercase_hex h, xo_sia_object_id = map_option lowercase_hex sia, xo_size_bytes = sz, xo_pin_state = st,
      xo_uploaded_at = at, xo_uploader_key_id = key\<rparr>)"

definition base_rows :: "'z hub_scheme \<Rightarrow> xorb_db_row list" where
  "base_rows w = map xorb_base (xorbs w) @ map (lfs_base w) (lfs_objects w)"

definition db_uploaded_at :: "xorb_db_row \<Rightarrow> int" where
  "db_uploaded_at d = (case d of (_, _, _, _, at, _) \<Rightarrow> at)"

definition matches_query :: "string option \<Rightarrow> uuid option \<Rightarrow> xorb_db_row \<Rightarrow> bool" where
  "matches_query prefix key d = (case d of (h, _, _, _, _, k) \<Rightarrow>
     (case prefix of None \<Rightarrow> True | Some p \<Rightarrow> take 8 (hex_encode h) = p)
     \<and> (case key of None \<Rightarrow> True | Some k' \<Rightarrow> k = k'))"

definition bad_prefix :: "string \<Rightarrow> bool" where
  "bad_prefix p \<longleftrightarrow> p \<noteq> [] \<and> (length p \<noteq> 8 \<or> \<not> list_all (\<lambda>c. to_digit16 c \<noteq> None) p)"

definition prefix_filter :: "string option \<Rightarrow> string option" where
  "prefix_filter p = (case p of Some s \<Rightarrow> if s = [] then None else Some (to_lowercase s) | None \<Rightarrow> None)"

definition list_xorbs :: "SessionUser \<Rightarrow> XorbQuery \<Rightarrow> ('z, AppError, XorbRow list) hub_io" where
  "list_xorbs user q =
     (if (case xq_hash_prefix q of Some p \<Rightarrow> bad_prefix p | None \<Rightarrow> False)
      then raise (BadRequest ''hash_prefix must be 8 hex chars'')
      else
      bindE (db_query (\<lambda>w. take 500 (sort_key (\<lambda>d. - db_uploaded_at d)
        (filter (matches_query (prefix_filter (xq_hash_prefix q)) (xq_api_key_id q)) (base_rows w))))) (\<lambda>rows.
      ret (map to_xorb_row rows)))"

section \<open>One object\<close>

record XorbDetail =
  xd_xorb :: XorbRow
  xd_referencing_repos :: "string list"

definition find_object :: "'z hub_scheme \<Rightarrow> byte list \<Rightarrow> xorb_db_row option" where
  "find_object w h =
     (case map_of (xorbs w) h of
        Some r \<Rightarrow> Some (xorb_base (h, r))
      | None \<Rightarrow> map_option (\<lambda>o'. lfs_base w (h, o')) (map_of (lfs_objects w) h))"

text \<open>The head commits of the main branches with the owner's login and the name of the repository.\<close>

definition main_heads :: "'z hub_scheme \<Rightarrow> (int \<times> string \<times> string) list" where
  "main_heads w = List.map_filter (\<lambda>((rid, ref), cid).
     if ref \<noteq> ''main'' then None else
     (case map_of (repos w) rid of None \<Rightarrow> None | Some r \<Rightarrow>
       map_option (\<lambda>u. (cid, usr_github_login u, rp_name r)) (map_of (users w) (rp_owner_user_id r)))) (repo_refs w)"

definition built_from :: "'z hub_scheme \<Rightarrow> byte list \<Rightarrow> file_row \<Rightarrow> bool" where
  "built_from w h f = (case fl_xet_hash f of None \<Rightarrow> False | Some fid \<Rightarrow>
     list_ex (\<lambda>((fid', _), t). fid' = fid \<and> pt_xorb_hash t = h) (reconstruction_terms w))"

definition is_object :: "byte list \<Rightarrow> file_row \<Rightarrow> bool" where
  "is_object h f \<longleftrightarrow> fl_lfs_oid f = Some h"

definition heads_with :: "'z hub_scheme \<Rightarrow> (file_row \<Rightarrow> bool) \<Rightarrow> (string \<times> string) list" where
  "heads_with w P = map snd (filter (\<lambda>(cid, _, _). list_ex (\<lambda>(_, f). P f) (files_of w cid)) (main_heads w))"

definition referencing_repos :: "'z hub_scheme \<Rightarrow> byte list \<Rightarrow> (string \<times> string) list" where
  "referencing_repos w h = remdups (heads_with w (built_from w h) @ heads_with w (is_object h))"

text \<open>The second query is best effort: its failure is an empty list.\<close>

definition get_xorb_detail :: "SessionUser \<Rightarrow> string \<Rightarrow> ('z, AppError, XorbDetail) hub_io" where
  "get_xorb_detail user hash_hex =
     bindE (lift_res (ok_or (BadRequest ''invalid_xorb_hash'') (decode_xorb_hash_hex (to_lowercase hash_hex)))) (\<lambda>h.
     bindE (db_query (\<lambda>w. find_object w h)) (\<lambda>row.
     bindE (lift_res (ok_or NotFound row)) (\<lambda>d.
     bindE (attempt (db_query (\<lambda>w. referencing_repos w h))) (\<lambda>rs.
     ret \<lparr>xd_xorb = to_xorb_row d,
          xd_referencing_repos = map (\<lambda>(owner, name). owner @ ''/'' @ name) (case rs of Inr l \<Rightarrow> l | Inl _ \<Rightarrow> [])\<rparr>))))"

section \<open>Statistics of a user\<close>

definition my_xorbs :: "'z hub_scheme \<Rightarrow> int \<Rightarrow> byte list list" where
  "my_xorbs w uid = map fst (filter (\<lambda>(_, r). owner_user_id r = uid) (xorbs w))"

text \<open>The files of all commits of the repositories of the user.\<close>

definition my_file_rows :: "'z hub_scheme \<Rightarrow> int \<Rightarrow> file_row list" where
  "my_file_rows w uid = map snd (filter (\<lambda>((cid, _), _).
     case map_of (repo_commits w) cid of None \<Rightarrow> False | Some c \<Rightarrow>
       (case map_of (repos w) (cm_repo_id c) of None \<Rightarrow> False | Some r \<Rightarrow> rp_owner_user_id r = uid)) (repo_files w))"

definition my_lfs :: "'z hub_scheme \<Rightarrow> int \<Rightarrow> byte list list" where
  "my_lfs w uid = remdups (List.map_filter fl_lfs_oid (my_file_rows w uid))"

definition my_files :: "'z hub_scheme \<Rightarrow> int \<Rightarrow> byte list list" where
  "my_files w uid = remdups (List.map_filter fl_xet_hash (my_file_rows w uid))"

text \<open>\<^verbatim>\<open>x IN (SELECT ...)\<close>, false for a null.\<close>

definition sql_in :: "'a option \<Rightarrow> 'a list \<Rightarrow> bool" where
  "sql_in x xs = (case x of None \<Rightarrow> False | Some a \<Rightarrow> a \<in> set xs)"

text \<open>The columns of \<^verbatim>\<open>usage_log\<close> the page reads, of the rows of the server and of the download rows alike.\<close>

record log_row =
  lg_event :: string
  lg_api_key_id :: "uuid option"
  lg_xorb_hash :: "byte list option"
  lg_shard_hash :: "byte list option"
  lg_file_id :: "byte list option"
  lg_bytes :: "int option"
  lg_cache_hit :: "bool option"
  lg_occurred_at :: int

fun event_text :: "UsageEvent \<Rightarrow> string" where
  "event_text XorbUpload = ''xorb_upload''"
| "event_text ShardUpload = ''shard_upload''"
| "event_text Reconstruction = ''reconstruction''"
| "event_text XorbServe = ''xorb_serve''"
| "event_text DedupQuery = ''dedup_query''"

definition usage_log_row :: "usage_row \<Rightarrow> log_row" where
  "usage_log_row u = \<lparr>lg_event = event_text (u_event u), lg_api_key_id = Some (u_api_key_id u), lg_xorb_hash = u_xorb_hash u,
     lg_shard_hash = u_shard_hash u, lg_file_id = u_file_id u, lg_bytes = u_bytes u, lg_cache_hit = None,
     lg_occurred_at = u_occurred_at u\<rparr>"

definition download_log_row :: "download_row \<Rightarrow> log_row" where
  "download_log_row d = \<lparr>lg_event = ''download'', lg_api_key_id = dl_api_key_id d, lg_xorb_hash = dl_xorb_hash d,
     lg_shard_hash = dl_shard_hash d, lg_file_id = dl_file_id d, lg_bytes = Some (dl_bytes d), lg_cache_hit = dl_cache_hit d,
     lg_occurred_at = dl_occurred_at d\<rparr>"

definition whole_log :: "'z hub_scheme \<Rightarrow> log_row list" where
  "whole_log w = map usage_log_row (usage_log w) @ map download_log_row (download_log w)"

definition on_my_content :: "'z hub_scheme \<Rightarrow> int \<Rightarrow> log_row \<Rightarrow> bool" where
  "on_my_content w uid l \<longleftrightarrow> sql_in (lg_xorb_hash l) (my_xorbs w uid) \<or> sql_in (lg_shard_hash l) (my_lfs w uid)
     \<or> sql_in (lg_file_id l) (my_files w uid)"

definition my_downloads :: "'z hub_scheme \<Rightarrow> int \<Rightarrow> log_row list" where
  "my_downloads w uid = filter (\<lambda>l. lg_event l = ''download'' \<and> on_my_content w uid l) (whole_log w)"

definition sum_bytes :: "log_row list \<Rightarrow> int" where
  "sum_bytes ls = sum_list (List.map_filter lg_bytes ls)"

definition counted_xorbs :: "'z world_scheme \<Rightarrow> xorb_row list" where
  "counted_xorbs w = filter (\<lambda>r. pin_state r = Pinning \<or> pin_state r = Pinned) (map snd (xorbs w))"

record PerKeyStats =
  pk_key_id :: uuid
  pk_bytes_served :: int
  pk_bytes_stored :: int

record ActivityRow =
  av_ts :: int
  av_hash :: "string option"
  av_event :: string
  av_bytes :: "int option"
  av_cache_hit :: "bool option"

text \<open>The average of the cache hits is kept as numerator and denominator, before it is rounded to a double.\<close>

record StatsResponse =
  st_total_bytes_stored :: int
  st_total_bytes_served :: int
  st_total_downloads :: int
  st_cache_hit_rate :: "(nat \<times> nat) option"
  st_provider_count :: int
  st_per_key :: "PerKeyStats list"
  st_recent_activity :: "ActivityRow list"

definition avg_hits :: "bool list \<Rightarrow> (nat \<times> nat) option" where
  "avg_hits hs = (if hs = [] then None else Some (length (filter id hs), length hs))"

definition totals :: "'z hub_scheme \<Rightarrow> int \<Rightarrow> int \<times> int \<times> int \<times> (nat \<times> nat) option \<times> int" where
  "totals w uid =
     (let ds = my_downloads w uid in
      (sum_list (map size_bytes (filter (\<lambda>r. owner_user_id r = uid) (counted_xorbs w)))
         + sum_list (map (\<lambda>(_, o'). lo_size_bytes o') (filter (\<lambda>(oid, _). oid \<in> set (my_lfs w uid)) (lfs_objects w))),
       sum_bytes ds, int (length ds), avg_hits (List.map_filter lg_cache_hit ds),
       int (length (remdups (List.map_filter lg_api_key_id ds)))))"

definition served_by :: "'z hub_scheme \<Rightarrow> int \<Rightarrow> uuid \<Rightarrow> int option" where
  "served_by w uid key =
     (let ls = filter (\<lambda>l. lg_bytes l \<noteq> None \<and> lg_api_key_id l = Some key) (my_downloads w uid)
      in if ls = [] then None else Some (sum_bytes ls))"

definition stored_by :: "'z world_scheme \<Rightarrow> uuid \<Rightarrow> int" where
  "stored_by w key = sum_list (map size_bytes (filter (\<lambda>r. owner_api_key_id r = key) (counted_xorbs w)))"

text \<open>\<^verbatim>\<open>ORDER BY served DESC NULLS LAST\<close>.\<close>

definition per_key_rows :: "'z hub_scheme \<Rightarrow> int \<Rightarrow> PerKeyStats list" where
  "per_key_rows w uid =
     (let keys = map fst (filter (\<lambda>(_, k). ak_user_id k = uid) (api_keys w));
          row = (\<lambda>key. \<lparr>pk_key_id = key, pk_bytes_served = (case served_by w uid key of Some b \<Rightarrow> b | None \<Rightarrow> 0),
                         pk_bytes_stored = stored_by w key\<rparr>)
      in sort_key (\<lambda>r. - pk_bytes_served r) (map row (filter (\<lambda>key. served_by w uid key \<noteq> None) keys))
         @ map row (filter (\<lambda>key. served_by w uid key = None) keys))"

definition activity_row :: "log_row \<Rightarrow> ActivityRow" where
  "activity_row l = \<lparr>av_ts = lg_occurred_at l,
     av_hash = map_option lowercase_hex (case lg_xorb_hash l of Some h \<Rightarrow> Some h | None \<Rightarrow>
       (case lg_shard_hash l of Some h \<Rightarrow> Some h | None \<Rightarrow> lg_file_id l)),
     av_event = lg_event l, av_bytes = lg_bytes l, av_cache_hit = lg_cache_hit l\<rparr>"

definition concerns_me :: "'z hub_scheme \<Rightarrow> int \<Rightarrow> log_row \<Rightarrow> bool" where
  "concerns_me w uid l \<longleftrightarrow>
     sql_in (lg_api_key_id l) (map fst (filter (\<lambda>(_, k). ak_user_id k = uid) (api_keys w))) \<or> on_my_content w uid l"

definition recent_activity :: "'z hub_scheme \<Rightarrow> int \<Rightarrow> log_row list" where
  "recent_activity w uid = take 20 (sort_key (\<lambda>l. - lg_occurred_at l) (filter (concerns_me w uid) (whole_log w)))"

definition get_stats :: "SessionUser \<Rightarrow> ('z, AppError, StatsResponse) hub_io" where
  "get_stats user =
     bindE (db_query (\<lambda>w. totals w (su_id user))) (\<lambda>(stored, served, downloads, rate, providers).
     bindE (db_query (\<lambda>w. per_key_rows w (su_id user))) (\<lambda>keys.
     bindE (db_query (\<lambda>w. recent_activity w (su_id user))) (\<lambda>rows.
     ret \<lparr>st_total_bytes_stored = stored, st_total_bytes_served = served, st_total_downloads = downloads,
          st_cache_hit_rate = rate, st_provider_count = providers, st_per_key = keys,
          st_recent_activity = map activity_row rows\<rparr>)))"

definition get_me :: "SessionUser \<Rightarrow> ('z, AppError, SessionUser) hub_io" where
  "get_me user = ret user"

section \<open>What the listing shows\<close>

lemma newest_rows:
  fixes f :: "'a \<Rightarrow> int"
  assumes "x \<in> set xs" and "x \<notin> set (take n (sort_key f xs))"
  shows "length (take n (sort_key f xs)) = n" and "y \<in> set (take n (sort_key f xs)) \<Longrightarrow> f y \<le> f x"
proof -
  let ?ys = "sort_key f xs"
  have "x \<in> set (take n ?ys @ drop n ?ys)" using assms(1) by simp
  with assms(2) have d: "x \<in> set (drop n ?ys)" by (metis Un_iff set_append)
  then show "length (take n ?ys) = n" by (cases "n < length ?ys") auto
  have "sorted (map f (take n ?ys) @ map f (drop n ?ys))" by (simp flip: map_append)
  with d show "y \<in> set (take n ?ys) \<Longrightarrow> f y \<le> f x" by (auto simp: sorted_append)
qed

lemma list_xorbs_run:
  assumes "faults w = []" and "fst (list_xorbs user q w) = Inr rows"
  obtains "rows = map to_xorb_row (take 500 (sort_key (\<lambda>d. - db_uploaded_at d)
      (filter (matches_query (prefix_filter (xq_hash_prefix q)) (xq_api_key_id q)) (base_rows w))))"
  using assms by (auto simp: list_xorbs_def raise_def bindE_def db_query_def io_step_no_fault ret_def split: if_splits option.splits)

lemma list_xorbs_rows:
  assumes "faults w = []" and "fst (list_xorbs user q w) = Inr rows"
  shows "set rows \<subseteq> to_xorb_row ` {d \<in> set (base_rows w). matches_query (prefix_filter (xq_hash_prefix q)) (xq_api_key_id q) d}"
  by (rule list_xorbs_run [OF assms]) (auto dest!: in_set_takeD)

lemma to_xorb_row_sel [simp]: "xo_uploaded_at (to_xorb_row d) = db_uploaded_at d" "xo_hash (to_xorb_row d) = lowercase_hex (fst d)"
  by (simp_all add: to_xorb_row_def db_uploaded_at_def split: prod.split)

lemma sorted_uminus: "sorted (map (\<lambda>x. - f x) xs) = sorted_wrt (\<ge>) (map f xs)" for f :: "'a \<Rightarrow> int"
  by (simp add: sorted_map sorted_wrt_map)

text \<open>The listing shows the newest stored objects that match, newest first, at most 500. Each is a stored xorb
  or a small object; one that matches and is not shown is not newer than any of the 500 that are.\<close>

lemma xorb_listing_shows_newest:
  assumes "faults w = []" and "fst (list_xorbs user q w) = Inr rows"
  shows "length rows \<le> 500 \<and> sorted_wrt (\<ge>) (map xo_uploaded_at rows)
    \<and> set rows \<subseteq> to_xorb_row ` {d \<in> set (base_rows w). matches_query (prefix_filter (xq_hash_prefix q)) (xq_api_key_id q) d}
    \<and> (\<forall>d\<in>set (base_rows w). matches_query (prefix_filter (xq_hash_prefix q)) (xq_api_key_id q) d \<longrightarrow> to_xorb_row d \<notin> set rows \<longrightarrow>
         length rows = 500 \<and> (\<forall>r\<in>set rows. db_uploaded_at d \<le> xo_uploaded_at r))"
proof -
  let ?ms = "filter (matches_query (prefix_filter (xq_hash_prefix q)) (xq_api_key_id q)) (base_rows w)"
  let ?ys = "sort_key (\<lambda>d. - db_uploaded_at d) ?ms"
  have rows: "rows = map to_xorb_row (take 500 ?ys)" using assms by (rule list_xorbs_run)
  have "sorted (map (\<lambda>d. - db_uploaded_at d) (take 500 ?ys) @ map (\<lambda>d. - db_uploaded_at d) (drop 500 ?ys))"
    by (simp flip: map_append)
  then have "sorted_wrt (\<ge>) (map xo_uploaded_at rows)"
    by (simp add: rows sorted_append sorted_uminus comp_def)
  moreover have "set rows \<subseteq> to_xorb_row ` set ?ms" using list_xorbs_rows [OF assms] by simp
  moreover have "length rows = 500 \<and> (\<forall>r\<in>set rows. db_uploaded_at d \<le> xo_uploaded_at r)"
    if "d \<in> set ?ms" "to_xorb_row d \<notin> set rows" for d
    using newest_rows [of d ?ms 500 "\<lambda>d. - db_uploaded_at d"] that unfolding rows by fastforce
  ultimately show ?thesis by (auto simp: rows)
qed

section \<open>From the listing to the detail\<close>

declare to_lowercase_hex [simp]

lemma find_object_base:
  assumes "distinct (map fst (base_rows w))" and "d \<in> set (base_rows w)"
  shows "find_object w (fst d) = Some d"
proof -
  have keys: "map fst (base_rows w) = map fst (xorbs w) @ map fst (lfs_objects w)"
    by (auto simp: base_rows_def xorb_base_def lfs_base_def split: prod.split)
  with assms(1) have dx: "distinct (map fst (xorbs w))" "distinct (map fst (lfs_objects w))"
    and disj: "h \<in> fst ` set (lfs_objects w) \<Longrightarrow> h \<notin> fst ` set (xorbs w)" for h by auto
  from assms(2) consider h r where "(h, r) \<in> set (xorbs w)" "d = xorb_base (h, r)"
    | h r where "(h, r) \<in> set (lfs_objects w)" "d = lfs_base w (h, r)"
    by (auto simp: base_rows_def)
  then show ?thesis
  proof cases
    case 1
    then show ?thesis using dx by (simp add: find_object_def xorb_base_def)
  next
    case (2 h r)
    then have "map_of (xorbs w) h = None" using disj [of h] by (force simp: map_of_eq_None_iff)
    then show ?thesis using dx 2 by (simp add: find_object_def lfs_base_def)
  qed
qed

lemma get_xorb_detail_run:
  assumes "faults w = []" and "decode_xorb_hash_hex (to_lowercase s) = Some h" and "find_object w h = Some d"
  shows "fst (get_xorb_detail user s w) = Inr \<lparr>xd_xorb = to_xorb_row d,
    xd_referencing_repos = map (\<lambda>(owner, name). owner @ ''/'' @ name) (referencing_repos w h)\<rparr>"
  using assms by (simp add: get_xorb_detail_def io_defs ok_or_def db_query_def io_step_no_fault)

text \<open>C26: what is listed can be opened. With the hash of a listed row as the path, the detail page shows exactly that
  row, together with the repositories whose main branch is built from it. A hash is a key of one table only and
  has 32 bytes.\<close>

theorem listed_xorb_opens:
  assumes "faults w = []" and "fst (list_xorbs user q w) = Inr rows" and "r \<in> set rows"
    and "distinct (map fst (base_rows w))" and "length (xo_hash r) = 64"
  shows "\<exists>d h. fst (get_xorb_detail user (xo_hash r) w) = Inr d \<and> xd_xorb d = r \<and> decode_xorb_hash_hex (xo_hash r) = Some h
    \<and> set (xd_referencing_repos d)
      = (\<lambda>(owner, name). owner @ ''/'' @ name) ` set (heads_with w (\<lambda>f. built_from w h f \<or> is_object h f))"
proof -
  from assms(3) obtain d where d: "d \<in> set (base_rows w)" "r = to_xorb_row d"
    using list_xorbs_rows [OF assms(1,2)] by auto
  have hex: "xo_hash r = hex_of (fst d)" by (simp add: d(2) lowercase_hex_eq_hex_of)
  with assms(5) have dec: "decode_xorb_hash_hex (to_lowercase (xo_hash r)) = Some (fst d)"
    by (simp add: decode_xorb_hash_hex_alt decode_hex32_hex_of hash32_def)
  have "decode_xorb_hash_hex (xo_hash r) = Some (fst d)" using dec hex by simp
  moreover have "set (heads_with w (\<lambda>f. P f \<or> Q f)) = set (heads_with w P) \<union> set (heads_with w Q)" for P Q
    by (force simp: heads_with_def list_ex_iff)
  ultimately show ?thesis
    by - (intro exI conjI, rule get_xorb_detail_run [OF assms(1) dec find_object_base [OF assms(4) d(1)]],
        simp_all add: d(2) referencing_repos_def)
qed

section \<open>The figures of the statistics page\<close>

lemma sum_bytes_simps [simp]: "sum_bytes [] = 0"
  "sum_bytes (l # ls) = (case lg_bytes l of None \<Rightarrow> 0 | Some b \<Rightarrow> b) + sum_bytes ls"
  by (auto simp: sum_bytes_def List.map_filter_def split: option.split)

lemma sum_bytes_append: "sum_bytes (xs @ ys) = sum_bytes xs + sum_bytes ys"
  by (induction xs) auto

lemma sum_bytes_partition: "sum_bytes (filter P ls) + sum_bytes (filter (\<lambda>l. \<not> P l) ls) = sum_bytes ls"
  by (induction ls) auto

lemma sum_bytes_nulls: "sum_bytes (filter (\<lambda>l. lg_bytes l \<noteq> None \<and> P l) ls) = sum_bytes (filter P ls)"
  by (induction ls) (auto split: option.split)

text \<open>Rows are counted under exactly one of the keys.\<close>

lemma sum_bytes_by_key:
  assumes "distinct keys"
  shows "sum_list (map (\<lambda>k. sum_bytes (filter (\<lambda>l. lg_api_key_id l = Some k) ls)) keys)
    = sum_bytes (filter (\<lambda>l. sql_in (lg_api_key_id l) keys) ls)"
  using assms
proof (induction keys)
  case Nil
  have "sum_bytes (filter (\<lambda>l. sql_in (lg_api_key_id l) []) ls) = 0"
    by (simp add: sql_in_def filter_False split: option.split)
  then show ?case by simp
next
  case (Cons k keys)
  let ?in = "\<lambda>l. sql_in (lg_api_key_id l) (k # keys)"
  have "sum_bytes (filter ?in ls) = sum_bytes (filter (\<lambda>l. lg_api_key_id l = Some k) (filter ?in ls))
      + sum_bytes (filter (\<lambda>l. lg_api_key_id l \<noteq> Some k) (filter ?in ls))"
    by (rule sum_bytes_partition [symmetric])
  moreover have "filter (\<lambda>l. lg_api_key_id l = Some k) (filter ?in ls) = filter (\<lambda>l. lg_api_key_id l = Some k) ls"
    by (auto simp: sql_in_def intro!: filter_cong)
  moreover have "filter (\<lambda>l. lg_api_key_id l \<noteq> Some k) (filter ?in ls) = filter (\<lambda>l. sql_in (lg_api_key_id l) keys) ls"
    using Cons.prems by (auto simp: sql_in_def intro!: filter_cong split: option.split)
  ultimately show ?case using Cons by simp
qed

definition my_keys :: "'z hub_scheme \<Rightarrow> int \<Rightarrow> uuid list" where
  "my_keys w uid = map fst (filter (\<lambda>(_, k). ak_user_id k = uid) (api_keys w))"

lemma served_by_bytes: "(case served_by w uid k of Some b \<Rightarrow> b | None \<Rightarrow> 0) = sum_bytes (filter (\<lambda>l. lg_api_key_id l = Some k) (my_downloads w uid))"
proof -
  have "sum_bytes (filter (\<lambda>l. lg_api_key_id l = Some k) (my_downloads w uid)) = 0"
    if "filter (\<lambda>l. lg_bytes l \<noteq> None \<and> lg_api_key_id l = Some k) (my_downloads w uid) = []"
    using that sum_bytes_nulls [of "\<lambda>l. lg_api_key_id l = Some k" "my_downloads w uid"] by (simp only: sum_bytes_simps)
  then show ?thesis
    by (simp add: served_by_def Let_def sum_bytes_nulls del: not_None_eq)
qed

lemma sum_list_split_filter: "sum_list (map f (filter P xs)) + sum_list (map f (filter (\<lambda>x. \<not> P x) xs)) = (sum_list (map f xs) :: int)"
  by (induction xs) auto

lemma sum_list_sort_key: "sum_list (map f (sort_key g xs)) = (sum_list (map f xs) :: int)"
  by (metis mset_map mset_sort sum_mset_sum_list)

lemma per_key_served:
  assumes "distinct (map fst (api_keys w))"
  shows "sum_list (map pk_bytes_served (per_key_rows w uid))
    = sum_bytes (filter (\<lambda>l. sql_in (lg_api_key_id l) (my_keys w uid)) (my_downloads w uid))"
proof -
  have "distinct (my_keys w uid)" unfolding my_keys_def using assms by (rule distinct_map_filter)
  moreover have "sum_list (map pk_bytes_served (per_key_rows w uid))
      = sum_list (map (\<lambda>k. sum_bytes (filter (\<lambda>l. lg_api_key_id l = Some k) (my_downloads w uid))) (my_keys w uid))"
    using sum_list_split_filter [of "\<lambda>k. sum_bytes (filter (\<lambda>l. lg_api_key_id l = Some k) (my_downloads w uid))" "\<lambda>k. served_by w uid k \<noteq> None" "my_keys w uid"]
    by (simp add: per_key_rows_def Let_def sum_list_sort_key comp_def served_by_bytes flip: my_keys_def)
  ultimately show ?thesis by (simp add: sum_bytes_by_key)
qed

lemma get_stats_run:
  assumes "faults w = []"
  shows "fst (get_stats user w) = Inr (let (stored, served, downloads, rate, providers) = totals w (su_id user) in
     \<lparr>st_total_bytes_stored = stored, st_total_bytes_served = served, st_total_downloads = downloads,
      st_cache_hit_rate = rate, st_provider_count = providers, st_per_key = per_key_rows w (su_id user),
      st_recent_activity = map activity_row (recent_activity w (su_id user))\<rparr>)"
  using assms by (simp add: get_stats_def bindE_def ret_def db_query_def io_step_no_fault split: prod.split)

lemma length_map_filter: "length (List.map_filter f xs) \<le> length xs"
  by (simp add: List.map_filter_def)

lemma avg_hits_None: "avg_hits hs = None \<longleftrightarrow> hs = []"
  by (simp add: avg_hits_def)

lemma avg_hits_Some: "avg_hits hs = Some (a, n) \<Longrightarrow> a \<le> n \<and> 0 < n \<and> n = length hs"
  by (auto simp: avg_hits_def split: if_splits)

text \<open>The statistics account for every download of the user's content exactly once. What the page attributes to
  the keys of the user, and what anonymous callers and keys of others fetched, add up to the total. The hit
  rate is a proportion of the downloads that report a hit or a miss, and is absent exactly when there is none.\<close>

lemma stats_account_for_downloads:
  assumes "faults w = []" and "distinct (map fst (api_keys w))" and "fst (get_stats user w) = Inr s"
  shows "sum_list (map pk_bytes_served (st_per_key s))
      + sum_bytes (filter (\<lambda>l. \<not> sql_in (lg_api_key_id l) (my_keys w (su_id user))) (my_downloads w (su_id user)))
      = st_total_bytes_served s
    \<and> (case st_cache_hit_rate s of
         None \<Rightarrow> \<forall>l\<in>set (my_downloads w (su_id user)). lg_cache_hit l = None
       | Some (hits, n) \<Rightarrow> hits \<le> n \<and> 0 < n \<and> int n \<le> st_total_downloads s)"
proof -
  let ?ds = "my_downloads w (su_id user)"
  have s: "st_total_bytes_served s = sum_bytes ?ds" "st_per_key s = per_key_rows w (su_id user)"
    "st_cache_hit_rate s = avg_hits (List.map_filter lg_cache_hit ?ds)" "st_total_downloads s = int (length ?ds)"
    using assms(3) unfolding get_stats_run [OF assms(1)] by (auto simp: totals_def Let_def)
  have "case avg_hits (List.map_filter lg_cache_hit ?ds) of
         None \<Rightarrow> \<forall>l\<in>set ?ds. lg_cache_hit l = None
       | Some (hits, n) \<Rightarrow> hits \<le> n \<and> 0 < n \<and> int n \<le> int (length ?ds)"
  proof (cases "avg_hits (List.map_filter lg_cache_hit ?ds)")
    case None
    then show ?thesis by (auto simp: avg_hits_def List.map_filter_def filter_empty_conv split: if_splits)
  next
    case (Some p)
    then show ?thesis using avg_hits_Some length_map_filter [of lg_cache_hit ?ds] by (cases p) fastforce
  qed
  then show ?thesis
    using sum_bytes_partition [of "\<lambda>l. sql_in (lg_api_key_id l) (my_keys w (su_id user))" ?ds]
    unfolding s per_key_served [OF assms(2)] by simp
qed

text \<open>The activity feed shows what others do. An upload by a key of another user of a xorb this user owns is in the
  feed, whatever the kind of event, although the feed is meant to show only downloads of that xorb.\<close>

lemma activity_shows_foreign_events:
  assumes "faults w = []" and "u \<in> set (usage_log w)" and "u_xorb_hash u = Some h" and "(h, r) \<in> set (xorbs w)"
    and "owner_user_id r = su_id user" and "length (filter (concerns_me w (su_id user)) (whole_log w)) \<le> 20"
  shows "\<exists>s. fst (get_stats user w) = Inr s \<and> activity_row (usage_log_row u) \<in> set (st_recent_activity s)"
proof -
  have "concerns_me w (su_id user) (usage_log_row u)"
    using assms(3-5) by (force simp: concerns_me_def on_my_content_def usage_log_row_def sql_in_def my_xorbs_def)
  moreover have "usage_log_row u \<in> set (whole_log w)" using assms(2) by (simp add: whole_log_def)
  ultimately have "usage_log_row u \<in> set (recent_activity w (su_id user))"
    using assms(6) by (simp add: recent_activity_def)
  then show ?thesis by (auto simp: get_stats_run [OF assms(1)] split: prod.split)
qed

section \<open>A small state\<close>

text \<open>User 69 owns one xorb and one key. Another user's key uploaded the same xorb; the user's key fetched it through
  the gateway.\<close>

definition toy_me :: SessionUser where
  "toy_me = \<lparr>su_id = 69, su_login = ''o'', su_email = None, su_avatar_url = None, su_is_admin = False\<rparr>"

definition toy_xorb :: xorb_row where
  "toy_xorb = \<lparr>sia_object_id = Some [7], size_bytes = 2, owner_user_id = 69, owner_api_key_id = 1, uploaded_at = 0,
     pin_state = Pinned, pin_attempts = 0, last_pin_attempt_at = None, chunk_boundaries = None\<rparr>"

definition toy_foreign_upload :: usage_row where
  "toy_foreign_upload = \<lparr>u_event = XorbUpload, u_api_key_id = 2, u_user_id = 70, u_xorb_hash = Some (replicate 32 9),
     u_shard_hash = None, u_file_id = None, u_bytes = Some 2, u_occurred_at = 0\<rparr>"

definition toy_fetch :: download_row where
  "toy_fetch = \<lparr>dl_api_key_id = Some 1, dl_file_id = None, dl_xorb_hash = Some (replicate 32 9), dl_shard_hash = None,
     dl_bytes = 2, dl_cache_hit = Some True, dl_occurred_at = 0\<rparr>"

definition toy_admin :: hub where
  "toy_admin = toy_hub\<lparr>xorbs := [(replicate 32 9, toy_xorb)], usage_log := [toy_foreign_upload], download_log := [toy_fetch],
     api_keys := [(1, \<lparr>ak_user_id = 69, ak_key_hash = [], ak_scopes = [], ak_label = None, ak_masked_prefix = None,
       ak_created_at = 0, ak_revoked_at = None, ak_last_used_at = None\<rparr>)]\<rparr>"

lemma toy_admin_sel:
  "faults toy_admin = []" "xorbs toy_admin = [(replicate 32 9, toy_xorb)]" "usage_log toy_admin = [toy_foreign_upload]"
  "download_log toy_admin = [toy_fetch]" "lfs_objects toy_admin = []" "map fst (api_keys toy_admin) = [1]" "repo_files toy_admin = []"
  by (simp_all add: toy_admin_def toy_hub_sel)

lemma toy_listing:
  "fst (list_xorbs toy_me \<lparr>xq_hash_prefix = None, xq_api_key_id = None\<rparr> toy_admin) = Inr [to_xorb_row (xorb_base (replicate 32 9, toy_xorb))]"
  by (simp add: list_xorbs_def io_defs db_query_def io_step_no_fault toy_admin_sel base_rows_def prefix_filter_def matches_query_def
      split: prod.split)

lemma xorb_listing_shows_newest_witness:
  "sorted_wrt (\<ge>) (map xo_uploaded_at [to_xorb_row (xorb_base (replicate 32 9, toy_xorb))])
    \<and> to_xorb_row (xorb_base (replicate 32 9, toy_xorb)) \<in> to_xorb_row ` set (base_rows toy_admin)"
  using xorb_listing_shows_newest [OF toy_admin_sel(1) toy_listing] by auto

theorem listed_xorb_opens_witness:
  "\<exists>d. fst (get_xorb_detail toy_me (hex_of (replicate 32 9)) toy_admin) = Inr d \<and> xo_size_bytes (xd_xorb d) = 2"
proof -
  have "to_xorb_row (xorb_base (replicate 32 9, toy_xorb)) \<in> set [to_xorb_row (xorb_base (replicate 32 9, toy_xorb))]" by simp
  from listed_xorb_opens [OF toy_admin_sel(1) toy_listing this] show ?thesis
    by (auto simp: base_rows_def toy_admin_sel to_xorb_row_def xorb_base_def toy_xorb_def lowercase_hex_eq_hex_of)
qed

lemma stats_account_for_downloads_witness:
  "\<exists>s. fst (get_stats toy_me toy_admin) = Inr s
    \<and> sum_list (map pk_bytes_served (st_per_key s))
      + sum_bytes (filter (\<lambda>l. \<not> sql_in (lg_api_key_id l) (my_keys toy_admin 69)) (my_downloads toy_admin 69))
      = st_total_bytes_served s"
proof -
  obtain s where s: "fst (get_stats toy_me toy_admin) = Inr s" using get_stats_run [OF toy_admin_sel(1)] by blast
  have "distinct (map fst (api_keys toy_admin))" by (simp only: toy_admin_sel) simp
  from stats_account_for_downloads [OF toy_admin_sel(1) this s] s show ?thesis by (auto simp: toy_me_def)
qed

lemma activity_shows_foreign_events_witness:
  "\<exists>s. fst (get_stats toy_me toy_admin) = Inr s \<and> activity_row (usage_log_row toy_foreign_upload) \<in> set (st_recent_activity s)"
proof -
  have "length (filter (concerns_me toy_admin (su_id toy_me)) (whole_log toy_admin)) \<le> length (whole_log toy_admin)"
    by (rule length_filter_le)
  then have "length (filter (concerns_me toy_admin (su_id toy_me)) (whole_log toy_admin)) \<le> 20"
    by (simp add: whole_log_def toy_admin_sel)
  then show ?thesis
    by (intro activity_shows_foreign_events [where h = "replicate 32 9" and r = toy_xorb])
      (simp_all add: toy_admin_sel toy_foreign_upload_def toy_xorb_def toy_me_def)
qed

end
