(* ===== verification/Rate_Limit.thy ===== *)
theory Rate_Limit
  imports Complex_Main CAS_World
begin

text \<open>
  The token bucket of \<^verbatim>\<open>rate_limit.rs\<close> and the Lua script it runs on Redis. Tokens are counted in
  thousandths; Redis keys carry the time they expire at. The floating point refill rate is a
  rational, its casts to integers truncate and saturate as Rust's do.
\<close>

section \<open>Classes and defaults\<close>

datatype RateLimitClass = UploadClass | DownloadClass | AdminClass

fun class_name :: "RateLimitClass \<Rightarrow> string" where
  "class_name UploadClass = ''upload''"
| "class_name DownloadClass = ''download''"
| "class_name AdminClass = ''admin''"

record RateLimitDefaults =
  upload_capacity :: nat
  upload_refill_per_sec :: rat
  download_capacity :: nat
  download_refill_per_sec :: rat
  admin_capacity :: nat
  admin_refill_per_sec :: rat

definition default_limits :: RateLimitDefaults where
  "default_limits = \<lparr>upload_capacity = 100, upload_refill_per_sec = 100 / 60,
     download_capacity = 100, download_refill_per_sec = 100 / 60,
     admin_capacity = 600, admin_refill_per_sec = 600 / 60\<rparr>"

fun for_class :: "RateLimitDefaults \<Rightarrow> RateLimitClass \<Rightarrow> nat \<times> rat" where
  "for_class d UploadClass = (upload_capacity d, upload_refill_per_sec d)"
| "for_class d DownloadClass = (download_capacity d, download_refill_per_sec d)"
| "for_class d AdminClass = (admin_capacity d, admin_refill_per_sec d)"

definition f64_as_i64 :: "rat \<Rightarrow> int" where
  "f64_as_i64 r = max (- (2 ^ 63)) (min (2 ^ 63 - 1) (if 0 \<le> r then \<lfloor>r\<rfloor> else \<lceil>r\<rceil>))"

definition refill_milli_per_sec :: "rat \<Rightarrow> int" where
  "refill_milli_per_sec refill = f64_as_i64 (refill * 1000)"

section \<open>The Lua script\<close>

definition EXPIRE_MS :: int where
  "EXPIRE_MS = 3600 * 1000"

definition redis_get :: "(string \<Rightarrow> (int \<times> int) option) \<Rightarrow> int \<Rightarrow> string \<Rightarrow> int option" where
  "redis_get r server_ms key =
     (case r key of None \<Rightarrow> None | Some (v, expires) \<Rightarrow> if server_ms < expires then Some v else None)"

definition redis_set ::
  "(string \<Rightarrow> (int \<times> int) option) \<Rightarrow> int \<Rightarrow> string \<Rightarrow> int \<Rightarrow> string \<Rightarrow> (int \<times> int) option" where
  "redis_set r server_ms key v = r(key \<mapsto> (v, server_ms + EXPIRE_MS))"

definition refilled ::
  "(string \<Rightarrow> (int \<times> int) option) \<Rightarrow> int \<Rightarrow> string \<Rightarrow> string \<Rightarrow> int \<Rightarrow> int \<Rightarrow> int \<Rightarrow> int" where
  "refilled r server_ms bucket_key ts_key capacity refill_mt now_ms =
     (let capacity_mt = capacity * 1000;
          count_mt = (case redis_get r server_ms bucket_key of None \<Rightarrow> capacity_mt | Some c \<Rightarrow> c);
          last_ms = (case redis_get r server_ms ts_key of None \<Rightarrow> now_ms | Some t \<Rightarrow> t);
          elapsed0 = now_ms - last_ms;
          elapsed_ms = (if elapsed0 < 0 then 0 else elapsed0);
          refilled_mt = count_mt + (elapsed_ms * refill_mt) div 1000
      in if refilled_mt > capacity_mt then capacity_mt else refilled_mt)"

definition rate_limit_lua ::
  "string \<Rightarrow> string \<Rightarrow> int \<Rightarrow> int \<Rightarrow> int \<Rightarrow> int \<Rightarrow> (string \<Rightarrow> (int \<times> int) option) \<Rightarrow>
     (int \<times> int) \<times> (string \<Rightarrow> (int \<times> int) option)" where
  "rate_limit_lua bucket_key ts_key capacity refill_mt now_ms server_ms r =
     (let refilled_mt = refilled r server_ms bucket_key ts_key capacity refill_mt now_ms in
      if refilled_mt < 1000 then
        ((0, refilled_mt),
         redis_set (redis_set r server_ms bucket_key refilled_mt) server_ms ts_key now_ms)
      else let new_mt = refilled_mt - 1000 in
        ((1, new_mt), redis_set (redis_set r server_ms bucket_key new_mt) server_ms ts_key now_ms))"

section \<open>The check\<close>

definition bucket_key :: "(uuid \<Rightarrow> string) \<Rightarrow> RateLimitClass \<Rightarrow> uuid \<Rightarrow> string" where
  "bucket_key show_id c k = ''rl:'' @ class_name c @ '':'' @ show_id k"

definition ts_key :: "(uuid \<Rightarrow> string) \<Rightarrow> RateLimitClass \<Rightarrow> uuid \<Rightarrow> string" where
  "ts_key show_id c k = ''rl:'' @ class_name c @ '':'' @ show_id k @ '':ts''"

definition eval_bucket ::
  "string \<Rightarrow> string \<Rightarrow> nat \<Rightarrow> rat \<Rightarrow> int \<Rightarrow> ('z, AppError, int \<times> int) io" where
  "eval_bucket bk tk capacity refill_per_sec now_ms =
     io_step (Other ''redis'') (\<lambda>w.
       case rate_limit_lua bk tk (int capacity) (refill_milli_per_sec refill_per_sec) now_ms (clock w) (redis w) of
         (reply, r') \<Rightarrow> (reply, w\<lparr>redis := r'\<rparr>))"

definition retry_after_secs :: "int \<Rightarrow> rat \<Rightarrow> nat" where
  "retry_after_secs remaining_mt refill_per_sec =
     (if refill_per_sec \<le> 0 then 60
      else let deficit_mt = of_int (max (1000 - remaining_mt) 0);
               secs = \<lceil>deficit_mt / (refill_per_sec * 1000)\<rceil>
           in max (min (nat secs) (2 ^ 64 - 1)) 1)"

definition check :: "(uuid \<Rightarrow> string) \<Rightarrow> RateLimitDefaults \<Rightarrow> RateLimitClass \<Rightarrow> uuid \<Rightarrow> ('z, AppError, unit) io" where
  "check show_id defaults c k =
     bindE (gets clock) (\<lambda>now_ms.
     case for_class defaults c of (capacity, refill) \<Rightarrow>
     bindE (eval_bucket (bucket_key show_id c k) (ts_key show_id c k) capacity refill now_ms)
       (\<lambda>(allowed, remaining_mt).
         if allowed = 1 then ret ()
         else raise (RateLimited (retry_after_secs remaining_mt refill))))"

text \<open>A sequence of checks at given times, and how many of them are let through.\<close>

fun grants_at ::
  "(uuid \<Rightarrow> string) \<Rightarrow> RateLimitDefaults \<Rightarrow> RateLimitClass \<Rightarrow> uuid \<Rightarrow> int list \<Rightarrow> 'z world_scheme \<Rightarrow> nat" where
  "grants_at show_id d c k [] w = 0"
| "grants_at show_id d c k (t # ts) w =
     (case check show_id d c k (w\<lparr>clock := t\<rparr>) of
        (Inr _, w') \<Rightarrow> Suc (grants_at show_id d c k ts w')
      | (Inl _, w') \<Rightarrow> grants_at show_id d c k ts w')"

section \<open>The potential of a bucket\<close>

text \<open>What a bucket can give at time \<open>t\<close>, in millionths of a token and without the rounding of the
  script.\<close>

definition potential :: "string \<Rightarrow> string \<Rightarrow> int \<Rightarrow> int \<Rightarrow> int \<Rightarrow> (string \<Rightarrow> (int \<times> int) option) \<Rightarrow> int" where
  "potential bk tk cap R t r =
     (case (redis_get r t bk, redis_get r t tk) of
        (Some c, Some s) \<Rightarrow> min (1000000 * cap) (1000 * c + (t - s) * R)
      | _ \<Rightarrow> 1000000 * cap)"

definition bucket_ok :: "string \<Rightarrow> string \<Rightarrow> int \<Rightarrow> (string \<Rightarrow> (int \<times> int) option) \<Rightarrow> bool" where
  "bucket_ok bk tk t r \<longleftrightarrow>
     (case (r bk, r tk) of
        (None, None) \<Rightarrow> True
      | (Some (c, e), Some (s, e')) \<Rightarrow> 0 \<le> c \<and> s \<le> t \<and> e = s + EXPIRE_MS \<and> e' = e
      | _ \<Rightarrow> False)"

lemma bucket_ok_mono: "bucket_ok bk tk t r \<Longrightarrow> t \<le> t' \<Longrightarrow> bucket_ok bk tk t' r"
  by (auto simp: bucket_ok_def split: option.splits prod.splits)

lemma refilled_le_potential:
  assumes "bucket_ok bk tk t r"
  shows "1000 * refilled r t bk tk cap R t \<le> potential bk tk cap R t r"
proof -
  have "1000 * ((t - s) * R div 1000) \<le> (t - s) * R" for s
    by (metis add.commute add_le_same_cancel1 le_add_same_cancel2 mult_div_mod_eq pos_mod_sign zero_less_numeral)
  with assms show ?thesis
    by (fastforce simp: refilled_def potential_def bucket_ok_def Let_def redis_get_def
        split: option.splits prod.splits)
qed

lemma potential_le_cap: "potential bk tk cap R t r \<le> 1000000 * cap"
  by (auto simp: potential_def split: option.splits)

lemma potential_advance:
  assumes ok: "bucket_ok bk tk t r" and t: "t \<le> t'" and R: "0 \<le> R" and cap: "cap * 1000 \<le> 3600 * R"
  shows "potential bk tk cap R t' r \<le> potential bk tk cap R t r + (t' - t) * R"
proof (cases "r bk")
  case None
  then show ?thesis
    using ok t R by (auto simp: potential_def bucket_ok_def redis_get_def split: option.splits)
next
  case (Some ce)
  then obtain c s where r: "r bk = Some (c, s + EXPIRE_MS)" "r tk = Some (s, s + EXPIRE_MS)" and cs: "0 \<le> c" "s \<le> t"
    using ok by (cases ce) (auto simp: bucket_ok_def split: option.splits)
  have adv: "(t' - s) * R = (t - s) * R + (t' - t) * R" by (simp add: algebra_simps)
  have ge: "0 \<le> (t' - t) * R" using t R by simp
  show ?thesis
  proof (cases "t' < s + EXPIRE_MS")
    case True
    then show ?thesis using r t adv ge by (auto simp: potential_def redis_get_def)
  next
    case False
    then have "EXPIRE_MS * R \<le> (t' - s) * R"
      using R by (intro mult_right_mono) auto
    then have "1000000 * cap \<le> 1000 * c + (t' - s) * R"
      using cap cs by (simp add: EXPIRE_MS_def)
    with False r adv ge show ?thesis by (auto simp: potential_def redis_get_def)
  qed
qed

lemma redis_after_call:
  assumes "bk \<noteq> tk"
  shows "redis_set (redis_set r t bk c) t tk s bk = Some (c, t + EXPIRE_MS)"
    and "redis_set (redis_set r t bk c) t tk s tk = Some (s, t + EXPIRE_MS)"
  using assms by (simp_all add: redis_set_def)

lemma refilled_nonneg:
  assumes "bucket_ok bk tk t r" and "0 \<le> R" and "0 \<le> cap"
  shows "0 \<le> refilled r t bk tk cap R t"
  using assms by (auto simp: refilled_def bucket_ok_def Let_def redis_get_def pos_imp_zdiv_nonneg_iff
      intro!: add_nonneg_nonneg split: option.splits prod.splits)

lemma lua_call:
  assumes "bk \<noteq> tk" and ok: "bucket_ok bk tk t r" and "0 \<le> R" and "0 \<le> cap"
    and call: "rate_limit_lua bk tk cap R t t r = ((a, rem), r')"
  shows "bucket_ok bk tk t r'"
    and "potential bk tk cap R t r' + (if a = 1 then 1000000 else 0) \<le> potential bk tk cap R t r"
proof -
  note n = refilled_nonneg [OF ok assms(3,4)] and p = refilled_le_potential [OF ok, of cap R]
  have pos: "0 < EXPIRE_MS" by (simp add: EXPIRE_MS_def)
  show "bucket_ok bk tk t r'"
    using call n
    by (auto simp: rate_limit_lua_def bucket_ok_def redis_after_call [OF assms(1)] Let_def split: if_splits)
  show "potential bk tk cap R t r' + (if a = 1 then 1000000 else 0) \<le> potential bk tk cap R t r"
    using call n p pos
    by (auto simp: rate_limit_lua_def potential_def [of _ _ _ _ _ r'] redis_after_call [OF assms(1)]
        redis_get_def [of r'] redis_get_def Let_def split: if_splits)
qed

lemma keys_distinct: "bucket_key show_id c k \<noteq> ts_key show_id c k"
  by (simp add: bucket_key_def ts_key_def)

lemma check_step:
  fixes w :: "'z world_scheme"
  assumes "for_class d c = (cap, refill)"
  shows "(\<exists>w'. check show_id d c k w = (Inl (Other ''redis''), w') \<and> redis w' = redis w) \<or>
    (\<exists>a rem r' w'. rate_limit_lua (bucket_key show_id c k) (ts_key show_id c k) (int cap)
        (refill_milli_per_sec refill) (clock w) (clock w) (redis w) = ((a, rem), r') \<and> redis w' = r'
      \<and> check show_id d c k w =
          ((if a = 1 then Inr () else Inl (RateLimited (retry_after_secs rem refill))), w'))"
proof -
  obtain a rem r' where call: "rate_limit_lua (bucket_key show_id c k) (ts_key show_id c k) (int cap)
        (refill_milli_per_sec refill) (clock w) (clock w) (redis w) = ((a, rem), r')"
    by (metis surj_pair)
  show ?thesis
    using call assms
    by (auto simp: check_def eval_bucket_def io_step_def bindE_def gets_def ret_def raise_def
        split: list.splits)
qed

lemma grants_bound:
  assumes "for_class d c = (cap, refill)" and R: "R = refill_milli_per_sec refill" "0 \<le> R"
    and cap: "int cap * 1000 \<le> 3600 * R"
    and "bucket_ok (bucket_key show_id c k) (ts_key show_id c k) t0 (redis w)"
    and "sorted (t0 # ts)"
  shows "1000000 * int (grants_at show_id d c k ts w)
    \<le> potential (bucket_key show_id c k) (ts_key show_id c k) (int cap) R t0 (redis w) + (last (t0 # ts) - t0) * R"
  using assms(5,6)
proof (induction ts arbitrary: t0 w)
  case Nil
  show ?case
  proof -
    have "0 \<le> 1000 * refilled (redis w) t0 (bucket_key show_id c k) (ts_key show_id c k) (int cap) R t0"
      using refilled_nonneg [OF Nil(1) R(2)] by simp
    with refilled_le_potential [OF Nil(1), of "int cap" R] show ?thesis by simp
  qed
next
  case (Cons t ts)
  let ?bk = "bucket_key show_id c k" and ?tk = "ts_key show_id c k"
  let ?w = "w\<lparr>clock := t\<rparr>"
  have le: "t0 \<le> t" "sorted (t # ts)" using Cons.prems by auto
  have ok: "bucket_ok ?bk ?tk t (redis w)"
    using bucket_ok_mono [OF Cons.prems(1) le(1)] .
  have adv: "potential ?bk ?tk (int cap) R t (redis w) \<le> potential ?bk ?tk (int cap) R t0 (redis w) + (t - t0) * R"
    using potential_advance [OF Cons.prems(1) le(1) R(2) cap] .
  have split: "(last (t # ts) - t0) * R = (last (t # ts) - t) * R + (t - t0) * R"
    by (simp add: algebra_simps)
  from check_step [OF assms(1), of show_id k ?w] show ?case
  proof (elim disjE exE conjE)
    fix w' assume c: "check show_id d c k ?w = (Inl (Other ''redis''), w')" and r: "redis w' = redis ?w"
    have "bucket_ok ?bk ?tk t (redis w')" using ok r by simp
    from Cons.IH [OF this le(2)] show ?thesis using c r adv split by simp
  next
    fix a rem r' w'
    assume call: "rate_limit_lua ?bk ?tk (int cap) (refill_milli_per_sec refill) (clock ?w) (clock ?w) (redis ?w) = ((a, rem), r')"
      and r: "redis w' = r'"
      and c: "check show_id d c k ?w = ((if a = 1 then Inr () else Inl (RateLimited (retry_after_secs rem refill))), w')"
    have call': "rate_limit_lua ?bk ?tk (int cap) R t t (redis w) = ((a, rem), r')"
      using call R(1) by simp
    note L = lua_call [OF keys_distinct ok R(2) _ call']
    have "bucket_ok ?bk ?tk t (redis w')" using L(1) r by simp
    from Cons.IH [OF this le(2)] L(2) show ?thesis using c r adv split by (auto split: if_splits)
  qed
qed

section \<open>Keys\<close>

lemma split_bucket_key:
  "CHR '':'' \<notin> set (show_id k) \<Longrightarrow> split_on (CHR '':'') (bucket_key show_id c k) = [''rl'', class_name c, show_id k]"
  by (cases c) (simp_all add: bucket_key_def split_on_no_sep)

lemma split_ts_key:
  "CHR '':'' \<notin> set (show_id k) \<Longrightarrow> split_on (CHR '':'') (ts_key show_id c k) = [''rl'', class_name c, show_id k, ''ts'']"
  by (cases c) (simp_all add: ts_key_def split_on_append)

lemma class_name_inj: "class_name c = class_name c' \<Longrightarrow> c = c'"
  by (cases c; cases c') simp_all

lemma bucket_keys_disjoint:
  assumes "inj show_id" and "\<forall>k. CHR '':'' \<notin> set (show_id k)" and "(c, k) \<noteq> (c', k')"
  shows "{bucket_key show_id c k, ts_key show_id c k} \<inter> {bucket_key show_id c' k', ts_key show_id c' k'} = {}"
proof -
  have "bucket_key show_id c k \<noteq> bucket_key show_id c' k'" "ts_key show_id c k \<noteq> ts_key show_id c' k'"
    "bucket_key show_id c k \<noteq> ts_key show_id c' k'" "ts_key show_id c k \<noteq> bucket_key show_id c' k'"
    using split_bucket_key [of show_id] split_ts_key [of show_id] assms
    by (metis injD class_name_inj list.inject list.distinct(1))+
  then show ?thesis by auto
qed

section \<open>Properties\<close>

text \<open>C27: a bucket is a bound on the rate. Starting from a key Redis has never seen, at whatever
  times the checks come, as long as the clock does not run backwards and whichever of them Redis
  fails, the number let through is at most the capacity plus what the refill rate gives over the
  elapsed time. The expiry of the keys adds nothing when an hour of refill fills the bucket.\<close>

theorem rate_limit_bound:
  assumes "for_class d c = (cap, refill)" and "0 \<le> refill_milli_per_sec refill"
    and "int cap * 1000 \<le> 3600 * refill_milli_per_sec refill"
    and "redis w (bucket_key show_id c k) = None" and "redis w (ts_key show_id c k) = None"
    and "ts \<noteq> []" and "sorted ts"
  shows "1000000 * int (grants_at show_id d c k ts w)
    \<le> 1000000 * int cap + (last ts - hd ts) * refill_milli_per_sec refill"
proof -
  have ok: "bucket_ok (bucket_key show_id c k) (ts_key show_id c k) (hd ts) (redis w)"
    using assms(4,5) by (simp add: bucket_ok_def)
  have "sorted (hd ts # ts)" "last (hd ts # ts) = last ts"
    using assms(6,7) by (cases ts; simp)+
  with grants_bound [OF assms(1) refl assms(2,3) ok] potential_le_cap show ?thesis
    by (smt (verit, best))
qed

text \<open>What the hint is computed for: the refill over that many seconds makes up for a missing token.\<close>

lemma retry_after_gain:
  assumes "0 < refill" and "0 \<le> f" and "f < 1000" and "n = retry_after_secs f refill" and "n < 2 ^ 64 - 1"
    and "of_int (refill_milli_per_sec refill) = refill * 1000 \<or> 1000 \<le> refill_milli_per_sec refill"
    and "0 \<le> refill_milli_per_sec refill"
  shows "1000 \<le> f + int n * refill_milli_per_sec refill"
proof (cases "1000 \<le> refill_milli_per_sec refill")
  case True
  have "1 \<le> n" unfolding assms(4) retry_after_secs_def using assms(1) by (simp add: Let_def)
  then have "1 * refill_milli_per_sec refill \<le> int n * refill_milli_per_sec refill"
    using assms(7) by (intro mult_right_mono) auto
  with True assms(2) show ?thesis by linarith
next
  case False
  let ?R = "refill_milli_per_sec refill" and ?q = "of_int (1000 - f) / (refill * 1000)"
  have exact: "of_int ?R = refill * 1000" using False assms(6) by simp
  have "nat \<lceil>?q\<rceil> \<le> n"
    using assms(1,3-5) by (auto simp: retry_after_secs_def Let_def min_def max_def split: if_splits)
  then have "?q \<le> of_nat n" by (meson nat_le_iff of_nat_ceiling order_trans of_nat_le_iff)
  then have "of_int (1000 - f) \<le> of_nat n * (refill * 1000)"
    using assms(1) by (simp add: divide_le_eq)
  then have "(of_int (1000 - f) :: rat) \<le> of_int (int n * ?R)" using exact by simp
  then show ?thesis unfolding of_int_le_iff by simp
qed

text \<open>The Retry-After hint is enough: a client that was refused and comes back after that many
  seconds is let through, when Redis answers. The rate must be a whole number of milli-tokens per
  second or at least one token per second; the configured defaults are.\<close>

lemma retry_after_sound:
  assumes "for_class d c = (cap, refill)" and "1 \<le> cap" and "0 < refill" and "refill * 1000 < 2 ^ 63"
    and "of_int (refill_milli_per_sec refill) = refill * 1000 \<or> 1000 \<le> refill_milli_per_sec refill"
    and "bucket_ok (bucket_key show_id c k) (ts_key show_id c k) (clock w) (redis w)"
    and "check show_id d c k w = (Inl (RateLimited n), w')" and "faults w' = []"
  shows "fst (check show_id d c k (w'\<lparr>clock := clock w' + 1000 * int n\<rparr>)) = Inr ()"
proof -
  let ?bk = "bucket_key show_id c k" and ?tk = "ts_key show_id c k"
  let ?R = "refill_milli_per_sec refill" and ?t = "clock w"
  let ?f = "refilled (redis w) ?t ?bk ?tk (int cap) ?R ?t"
  have R: "0 \<le> ?R" using assms(3) by (simp add: refill_milli_per_sec_def f64_as_i64_def)
  have f0: "0 \<le> ?f" using refilled_nonneg [OF assms(6) R] by simp
  have denied: "?f < 1000" "n = retry_after_secs ?f refill" "clock w' = ?t"
    "redis w' = redis_set (redis_set (redis w) ?t ?bk ?f) ?t ?tk ?t"
    using assms(1,7)
    by (auto simp: check_def eval_bucket_def io_step_def bindE_def gets_def ret_def raise_def
        rate_limit_lua_def Let_def split: list.splits if_splits)
  let ?t' = "?t + 1000 * int n"
  have "1000 \<le> refilled (redis w') ?t' ?bk ?tk (int cap) ?R ?t'"
  proof (cases "1000 * int n < EXPIRE_MS")
    case True
    have "n < 2 ^ 64 - 1" using True by (simp add: EXPIRE_MS_def)
    note gain = retry_after_gain [OF assms(3) f0 denied(1,2) this assms(5) R]
    have "1000 * int n * ?R div 1000 = int n * ?R" by simp
    with True gain assms(2) denied(4) show ?thesis
      by (simp add: refilled_def redis_get_def redis_after_call [OF keys_distinct] Let_def)
  next
    case False
    with assms(2) denied(4) show ?thesis
      by (simp add: refilled_def redis_get_def redis_after_call [OF keys_distinct] Let_def)
  qed
  then show ?thesis
    using assms(1,8) denied(3)
    by (simp add: check_def eval_bucket_def io_step_def bindE_def gets_def ret_def rate_limit_lua_def Let_def)
qed

text \<open>Buckets do not interfere: a check for one key and class leaves every other bucket as it was.\<close>

lemma buckets_isolated:
  assumes "inj show_id" and "\<forall>k. CHR '':'' \<notin> set (show_id k)" and "(c, k) \<noteq> (c', k')"
  shows "redis (snd (check show_id d c k w)) (bucket_key show_id c' k') = redis w (bucket_key show_id c' k')
    \<and> redis (snd (check show_id d c k w)) (ts_key show_id c' k') = redis w (ts_key show_id c' k')"
proof -
  obtain cap refill where cl: "for_class d c = (cap, refill)" by fastforce
  have "rate_limit_lua bk tk a b e f r = (x, r') \<Longrightarrow> key \<noteq> bk \<Longrightarrow> key \<noteq> tk \<Longrightarrow> r' key = r key"
    for bk tk a b e f r x r' key
    by (auto simp: rate_limit_lua_def redis_set_def Let_def split: if_splits)
  with check_step [OF cl, of show_id k w] bucket_keys_disjoint [OF assms] show ?thesis
    by (elim disjE exE conjE) auto
qed

text \<open>A clock that runs backwards once refills the whole bucket. The script clamps the elapsed
  time to zero but still writes the earlier time back, so the next call with the right time is
  credited with all of the skew: an empty bucket is full again, not one token richer.\<close>

lemma skew_refills_bucket:
  assumes "bk \<noteq> tk" and "1 \<le> cap" and "0 \<le> skew" and "0 \<le> R" and "1000 * cap \<le> (skew * R) div 1000"
    and "redis_get r s bk = Some 0" and "redis_get r s tk = Some t"
    and "rate_limit_lua bk tk cap R (t - skew) s r = (reply1, r1)"
    and "rate_limit_lua bk tk cap R t s r1 = (reply2, r2)"
  shows "reply1 = (0, 0) \<and> reply2 = (1, 1000 * cap - 1000)"
proof -
  have "r1 = redis_set (redis_set r s bk 0) s tk (t - skew)" "reply1 = (0, 0)"
    using assms(2,3,6,7,8) by (auto simp: rate_limit_lua_def refilled_def Let_def split: if_splits)
  with assms(1-5,9) show ?thesis
    by (auto simp: rate_limit_lua_def refilled_def redis_get_def redis_after_call EXPIRE_MS_def Let_def
        split: if_splits)
qed

section \<open>Witnesses\<close>

definition toy_id :: "uuid \<Rightarrow> string" where
  "toy_id k = show_nat (unat k)"

lemma toy_id_ok: "inj toy_id" "\<forall>k. CHR '':'' \<notin> set (toy_id k)"
proof -
  have "show_nat m = show_nat n \<Longrightarrow> m = n" for m n
    by (metis digits_val_show_nat option.inject)
  then show "inj toy_id" by (metis toy_id_def injI word_unat_eq_iff)
  show "\<forall>k. CHR '':'' \<notin> set (toy_id k)" by (simp add: toy_id_def show_nat_notin)
qed

definition drained_world :: world where
  "drained_world = empty_world\<lparr>redis := [bucket_key toy_id AdminClass 1 \<mapsto> (0, EXPIRE_MS),
     ts_key toy_id AdminClass 1 \<mapsto> (0, EXPIRE_MS)]\<rparr>"

lemma admin_rate: "for_class default_limits AdminClass = (600, 10)" "refill_milli_per_sec 10 = 10000"
  by (simp_all add: default_limits_def refill_milli_per_sec_def f64_as_i64_def)

lemma admin_fields: "admin_capacity default_limits = 600" "admin_refill_per_sec default_limits = 10"
  by (simp_all add: default_limits_def)

lemma retry_admin: "retry_after_secs 0 10 = 1"
proof -
  have "\<lceil>1 / (10::rat)\<rceil> = 1" by (rule ceiling_unique) simp_all
  then show ?thesis by (simp add: retry_after_secs_def)
qed

theorem rate_limit_bound_witness:
  "1000000 * int (grants_at toy_id default_limits AdminClass 1 [0, 10, 20] empty_world)
    \<le> 1000000 * 600 + (20 - 0) * 10000"
  using rate_limit_bound [OF admin_rate(1), of empty_world toy_id 1 "[0, 10, 20]"]
  by (simp add: admin_rate empty_world_def)

lemma retry_after_sound_witness:
  "\<exists>w'. check toy_id default_limits AdminClass 1 drained_world = (Inl (RateLimited 1), w')
     \<and> fst (check toy_id default_limits AdminClass 1 (w'\<lparr>clock := clock w' + 1000 * int 1\<rparr>)) = Inr ()"
proof -
  have ok: "bucket_ok (bucket_key toy_id AdminClass 1) (ts_key toy_id AdminClass 1) (clock drained_world) (redis drained_world)"
    by (simp add: bucket_ok_def drained_world_def empty_world_def keys_distinct)
  obtain w' where "check toy_id default_limits AdminClass 1 drained_world = (Inl (RateLimited 1), w')" "faults w' = []"
    by (simp add: check_def eval_bucket_def io_step_def bindE_def gets_def raise_def admin_rate
        rate_limit_lua_def refilled_def redis_get_def drained_world_def empty_world_def keys_distinct
        EXPIRE_MS_def retry_admin admin_fields)
  with retry_after_sound [OF admin_rate(1) _ _ _ _ ok this(1)] show ?thesis
    by (simp add: admin_rate)
qed

lemma skew_refills_bucket_witness:
  "\<exists>r1 r2. rate_limit_lua ''b'' ''t'' 100 1666 (5000000 - 60025) 0 [''b'' \<mapsto> (0, 10), ''t'' \<mapsto> (5000000, 10)] = ((0, 0), r1)
     \<and> rate_limit_lua ''b'' ''t'' 100 1666 5000000 0 r1 = ((1, 99000), r2)"
proof -
  obtain p1 r1 p2 r2 where
    "rate_limit_lua ''b'' ''t'' 100 1666 (5000000 - 60025) 0 [''b'' \<mapsto> (0, 10), ''t'' \<mapsto> (5000000, 10)] = (p1, r1)"
    "rate_limit_lua ''b'' ''t'' 100 1666 5000000 0 r1 = (p2, r2)"
    by (metis surj_pair)
  with skew_refills_bucket [OF _ _ _ _ _ _ _ this] show ?thesis
    by (simp add: redis_get_def)
qed

end
