(* ===== verification/Shard_Parse.thy ===== *)
theory Shard_Parse
  imports Hex_Codec CAS_World
begin

text \<open>
  Parsing an uploaded shard (\<^verbatim>\<open>shard_parse.rs\<close>) and recovering chunk boundaries from an uploaded xorb
  (\<^verbatim>\<open>handlers/xorbs.rs\<close>). The binary readers of the xet-core crates are the fields of \<open>xet_ext\<close>: each
  reads one record at the cursor, here the bytes not yet read, and returns the rest. The reading
  loops are partial functions: \<open>None\<close> is a loop that does not end.
\<close>

section \<open>Records of the shard format\<close>

record segment =
  seg_xorb_hash :: hash
  seg_unpacked_segment_bytes :: u32
  seg_chunk_index_start :: u32
  seg_chunk_index_end :: u32

record MDBFileInfo =
  fi_file_hash :: hash
  fi_segments :: "segment list"
  fi_sha256 :: "hash option"

record MDBXorbInfo =
  xi_xorb_hash :: hash
  xi_chunks :: "(u32 \<times> u32) list"

record XorbInfo =
  xo_chunk_hashes :: "hash list"
  xo_unpacked_chunk_offsets :: "u32 list"
  xo_chunk_boundary_offsets :: "u32 list"

record xet_ext =
  x_header :: "byte list \<Rightarrow> string + (u64 \<times> byte list)"
  x_file_info :: "byte list \<Rightarrow> string + (MDBFileInfo option \<times> byte list)"
  x_xorb_info :: "byte list \<Rightarrow> string + (MDBXorbInfo option \<times> byte list)"
  x_hash_hex :: "hash \<Rightarrow> string"
  x_from_hex :: "string \<Rightarrow> hash option"
  x_xorb_object :: "byte list \<Rightarrow> XorbInfo option"
  x_xorb_hash :: "(hash \<times> u64) list \<Rightarrow> hash"
  x_chunk_header :: "byte list \<Rightarrow> nat option"
  x_sha256 :: "byte list \<Rightarrow> hash"

section \<open>Parsing a shard\<close>

definition EXPECTED_HEADER_VERSION :: u64 where
  "EXPECTED_HEADER_VERSION = 2"

record ParsedShard =
  ps_header_version :: u64
  ps_footer_version :: u64
  ps_referenced_xorb_hashes :: "hash list"
  ps_files :: "ParsedFile list"
  ps_terms :: "ParsedTerm list"

datatype ShardParseError =
    MalformedShard string
  | HeaderVersion u64
  | FooterVersion u64
  | EmptyFileList
  | InconsistentTermRange string int string

partial_function (option) read_entries ::
  "(byte list \<Rightarrow> string + ('a option \<times> byte list)) \<Rightarrow> byte list \<Rightarrow> 'a list \<Rightarrow>
     (string + ('a list \<times> byte list)) option" where
  "read_entries de cur acc =
     (case de cur of
        Inl e \<Rightarrow> Some (Inl e)
      | Inr (entry, cur') \<Rightarrow>
          (case entry of
             None \<Rightarrow> Some (Inr (acc, cur'))
           | Some x \<Rightarrow> read_entries de cur' (acc @ [x])))"

definition term_byte_range ::
  "(hash \<Rightarrow> (u32 \<times> u32) list option) \<Rightarrow> hash \<Rightarrow> int \<Rightarrow> hash \<Rightarrow> int \<Rightarrow> int \<Rightarrow> ShardParseError + (int \<times> int)" where
  "term_byte_range xorb_index file_id idx xorb_hash xorb_start xorb_end =
     (case xorb_index xorb_hash of
        Some chunks \<Rightarrow>
          (let first_idx = nat xorb_start; last_idx = nat (xorb_end - 1) in
           if last_idx \<ge> length chunks then
             Inl (InconsistentTermRange (hex_of file_id) idx ''xorb_end exceeds chunk count in XorbInfo'')
           else
             let bs = uint (fst (chunks ! first_idx));
                 be = uint (fst (chunks ! last_idx)) + uint (snd (chunks ! last_idx)) in
             if bs \<ge> be then
               Inl (InconsistentTermRange (hex_of file_id) idx
                 ''xorb_byte_start must be strictly less than xorb_byte_end'')
             else Inr (bs, be))
      | None \<Rightarrow> Inr (0, 0))"

fun file_terms ::
  "(hash \<Rightarrow> (u32 \<times> u32) list option) \<Rightarrow> hash \<Rightarrow> int \<Rightarrow> int \<Rightarrow> segment list \<Rightarrow> ShardParseError + ParsedTerm list" where
  "file_terms xorb_index file_id idx unpacked_cursor [] = Inr []"
| "file_terms xorb_index file_id idx unpacked_cursor (seg # segs) =
     (let xorb_start = uint (seg_chunk_index_start seg); xorb_end = uint (seg_chunk_index_end seg) in
      if xorb_start \<ge> xorb_end then
        Inl (InconsistentTermRange (hex_of file_id) idx ''xorb_start must be strictly less than xorb_end'')
      else case term_byte_range xorb_index file_id idx (seg_xorb_hash seg) xorb_start xorb_end of
        Inl e \<Rightarrow> Inl e
      | Inr (bs, be) \<Rightarrow>
          (let unpacked_end = unpacked_cursor + uint (seg_unpacked_segment_bytes seg) in
           map_sum id ((#) \<lparr>pt_file_id = file_id, pt_term_index = idx, pt_xorb_hash = seg_xorb_hash seg,
               pt_xorb_start = xorb_start, pt_xorb_end = xorb_end,
               pt_xorb_byte_start = bs, pt_xorb_byte_end = be,
               pt_unpacked_start = unpacked_cursor, pt_unpacked_end = unpacked_end\<rparr>)
             (file_terms xorb_index file_id (idx + 1) unpacked_end segs)))"

definition parsed_file :: "xet_ext \<Rightarrow> MDBFileInfo \<Rightarrow> ParsedFile" where
  "parsed_file X fi =
     \<lparr>pf_file_id = fi_file_hash fi,
      pf_total_size = sum_list (map (\<lambda>s. uint (seg_unpacked_segment_bytes s)) (fi_segments fi)),
      pf_sha256 = (case fi_sha256 fi of None \<Rightarrow> None | Some h \<Rightarrow> decode_hex32 (x_hash_hex X h))\<rparr>"

fun parse_files ::
  "xet_ext \<Rightarrow> (hash \<Rightarrow> (u32 \<times> u32) list option) \<Rightarrow> MDBFileInfo list \<Rightarrow>
     ShardParseError + (ParsedFile list \<times> ParsedTerm list)" where
  "parse_files X xorb_index [] = Inr ([], [])"
| "parse_files X xorb_index (fi # fis) =
     (case file_terms xorb_index (fi_file_hash fi) 0 0 (fi_segments fi) of
        Inl e \<Rightarrow> Inl e
      | Inr ts \<Rightarrow>
          (case parse_files X xorb_index fis of
             Inl e \<Rightarrow> Inl e
           | Inr (fs, ts') \<Rightarrow> Inr (parsed_file X fi # fs, ts @ ts')))"

definition parse_and_validate :: "xet_ext \<Rightarrow> byte list \<Rightarrow> (ShardParseError + ParsedShard) option" where
  "parse_and_validate X bytes =
     (if length bytes < 48 then Some (Inl (MalformedShard ''shard too small''))
      else case x_header X bytes of
        Inl e \<Rightarrow> Some (Inl (MalformedShard (''header: '' @ e)))
      | Inr (version, cur) \<Rightarrow>
      if version \<noteq> EXPECTED_HEADER_VERSION then Some (Inl (HeaderVersion version))
      else case read_entries (x_file_info X) cur [] of
        None \<Rightarrow> None
      | Some (Inl e) \<Rightarrow> Some (Inl (MalformedShard (''file info: '' @ e)))
      | Some (Inr (file_infos, cur2)) \<Rightarrow>
      if file_infos = [] then Some (Inl EmptyFileList)
      else case read_entries (x_xorb_info X) cur2 [] of
        None \<Rightarrow> None
      | Some (Inl e) \<Rightarrow> Some (Inl (MalformedShard (''xorb info: '' @ e)))
      | Some (Inr (xorb_infos, _)) \<Rightarrow>
          (let xorb_index = map_of (map (\<lambda>xi. (xi_xorb_hash xi, xi_chunks xi)) xorb_infos) in
           Some (case parse_files X xorb_index file_infos of
             Inl e \<Rightarrow> Inl e
           | Inr (files, terms) \<Rightarrow>
               Inr \<lparr>ps_header_version = version, ps_footer_version = 0,
                    ps_referenced_xorb_hashes = sort (remdups (map pt_xorb_hash terms)),
                    ps_files = files, ps_terms = terms\<rparr>)))"

section \<open>The boundaries of a xorb\<close>

definition XORB_CHUNK_HEADER_LENGTH :: nat where
  "XORB_CHUNK_HEADER_LENGTH = 8"

function walk_from :: "xet_ext \<Rightarrow> byte list \<Rightarrow> nat \<Rightarrow> int list \<Rightarrow> int list" where
  "walk_from X bytes offset boundaries =
     (if offset < length bytes then
        if offset + XORB_CHUNK_HEADER_LENGTH > length bytes then []
        else case x_chunk_header X (take XORB_CHUNK_HEADER_LENGTH (drop offset bytes)) of
          None \<Rightarrow> []
        | Some compressed_length \<Rightarrow>
            (let offset' = offset + (XORB_CHUNK_HEADER_LENGTH + compressed_length) in
             if offset' > length bytes then []
             else walk_from X bytes offset' (boundaries @ [int offset']))
      else boundaries)"
  by pat_completeness auto
termination
  by (relation "measure (\<lambda>(X, bytes, offset, bs). length bytes - offset)")
    (auto simp: XORB_CHUNK_HEADER_LENGTH_def)

declare walk_from.simps [simp del]

definition walk_chunk_boundaries :: "xet_ext \<Rightarrow> byte list \<Rightarrow> int list" where
  "walk_chunk_boundaries X bytes = walk_from X bytes 0 []"

fun hashes_and_lens :: "u32 \<Rightarrow> hash list \<Rightarrow> u32 list \<Rightarrow> (hash \<times> u64) list option" where
  "hashes_and_lens prev_off (h # hs) (off # offs) =
     (if off < prev_off then None
      else map_option ((#) (h, ucast (off - prev_off))) (hashes_and_lens off hs offs))"
| "hashes_and_lens prev_off _ _ = Some []"

definition compute_xorb_hash_and_boundaries :: "xet_ext \<Rightarrow> byte list \<Rightarrow> AppError + (hash \<times> int list)" where
  "compute_xorb_hash_and_boundaries X bytes =
     (case x_xorb_object X bytes of
        None \<Rightarrow> Inl (BadRequest ''malformed_xorb'')
      | Some info \<Rightarrow>
          (let num_chunks = length (xo_chunk_hashes info) in
           if num_chunks = 0 then Inr (x_xorb_hash X [], [])
           else if length (xo_unpacked_chunk_offsets info) \<noteq> num_chunks
                 \<or> length (xo_chunk_boundary_offsets info) \<noteq> num_chunks
                then Inl (BadRequest ''malformed_xorb'')
           else case hashes_and_lens 0 (xo_chunk_hashes info) (xo_unpacked_chunk_offsets info) of
                  None \<Rightarrow> Inl (BadRequest ''malformed_xorb'')
                | Some hl \<Rightarrow> Inr (x_xorb_hash X hl, map uint (xo_chunk_boundary_offsets info))))"

section \<open>Reading ends\<close>

text \<open>What the readers promise: an entry takes at least one byte.\<close>

definition advances :: "(byte list \<Rightarrow> string + ('a option \<times> byte list)) \<Rightarrow> bool" where
  "advances de \<longleftrightarrow> (\<forall>cur x rest. de cur = Inr (Some x, rest) \<longrightarrow> length rest < length cur)"

lemma read_entries_total: "advances de \<Longrightarrow> \<exists>r. read_entries de cur acc = Some r"
proof (induction "length cur" arbitrary: cur acc rule: less_induct)
  case less
  show ?case
  proof (cases "de cur")
    case (Inr p)
    obtain en rest where p: "p = (en, rest)" by fastforce
    show ?thesis
    proof (cases en)
      case (Some x)
      with Inr p less(2) have "length rest < length cur" by (simp add: advances_def)
      with less(1) [OF this less(2)] Inr p Some show ?thesis by (subst read_entries.simps) simp
    qed (use Inr p in \<open>subst read_entries.simps, simp\<close>)
  qed (subst read_entries.simps, simp)
qed

section \<open>Terms\<close>

text \<open>A list of terms covers a stretch of the file without gap or overlap, with running indices.\<close>

fun tiles :: "hash \<Rightarrow> int \<Rightarrow> int \<Rightarrow> ParsedTerm list \<Rightarrow> int \<Rightarrow> bool" where
  "tiles fid idx start [] stop \<longleftrightarrow> start = stop"
| "tiles fid idx start (t # ts) stop \<longleftrightarrow>
     pt_file_id t = fid \<and> pt_term_index t = idx \<and> pt_unpacked_start t = start
   \<and> start \<le> pt_unpacked_end t \<and> tiles fid (idx + 1) (pt_unpacked_end t) ts stop"

definition term_ranges_ok :: "ParsedTerm \<Rightarrow> bool" where
  "term_ranges_ok t \<longleftrightarrow> 0 \<le> pt_xorb_start t \<and> pt_xorb_start t < pt_xorb_end t \<and> pt_xorb_end t < 2 ^ 32
     \<and> (pt_xorb_byte_start t = 0 \<and> pt_xorb_byte_end t = 0
        \<or> 0 \<le> pt_xorb_byte_start t \<and> pt_xorb_byte_start t < pt_xorb_byte_end t \<and> pt_xorb_byte_end t < 2 ^ 33)"

lemma uint_u32: "0 \<le> uint (x::u32)" "uint (x::u32) < 2 ^ 32"
  using unsigned_less [of x, where ?'a = int] by simp_all

lemma term_byte_range_ok:
  assumes "term_byte_range ix fid idx xh s e = Inr (bs, be)"
  shows "bs = 0 \<and> be = 0 \<or> 0 \<le> bs \<and> bs < be \<and> be < 2 ^ 33"
proof -
  have "uint a + uint b < 2 ^ 33" for a b :: u32
    using uint_u32(2) [of a] uint_u32(2) [of b] by simp
  with assms show ?thesis
    by (auto simp: term_byte_range_def Let_def uint_u32(1) split: option.splits if_splits)
qed

lemma file_terms_tile:
  assumes "file_terms ix fid idx c segs = Inr ts"
  shows "tiles fid idx c ts (c + sum_list (map (\<lambda>s. uint (seg_unpacked_segment_bytes s)) segs))
    \<and> list_all term_ranges_ok ts \<and> map pt_xorb_hash ts = map seg_xorb_hash segs"
  using assms
proof (induction segs arbitrary: idx c ts)
  case (Cons seg segs)
  let ?s = "uint (seg_chunk_index_start seg)" and ?e = "uint (seg_chunk_index_end seg)"
  let ?stop = "c + uint (seg_unpacked_segment_bytes seg)"
  from Cons.prems obtain bs be where b: "?s < ?e" "term_byte_range ix fid idx (seg_xorb_hash seg) ?s ?e = Inr (bs, be)"
    by (auto simp: Let_def split: if_splits sum.splits)
  with Cons.prems obtain ts' where ts': "file_terms ix fid (idx + 1) ?stop segs = Inr ts'"
    and ts: "ts = \<lparr>pt_file_id = fid, pt_term_index = idx, pt_xorb_hash = seg_xorb_hash seg,
               pt_xorb_start = ?s, pt_xorb_end = ?e, pt_xorb_byte_start = bs, pt_xorb_byte_end = be,
               pt_unpacked_start = c, pt_unpacked_end = ?stop\<rparr> # ts'"
    by (cases "file_terms ix fid (idx + 1) ?stop segs") (auto simp: Let_def)
  show ?case
    using Cons.IH [OF ts'] b(1) term_byte_range_ok [OF b(2)] uint_u32
    unfolding ts by (simp add: term_ranges_ok_def add.assoc)
qed simp

lemma parse_files_groups:
  assumes "parse_files X ix fis = Inr (files, terms)"
  shows "\<exists>groups. terms = concat groups
    \<and> list_all2 (\<lambda>f g. tiles (pf_file_id f) 0 0 g (pf_total_size f) \<and> list_all term_ranges_ok g) files groups"
  using assms
proof (induction fis arbitrary: files terms)
  case Nil
  then show ?case by (auto intro: exI [of _ "[]"])
next
  case (Cons fi fis)
  from Cons.prems obtain ts fs ts' where p: "file_terms ix (fi_file_hash fi) 0 0 (fi_segments fi) = Inr ts"
    "parse_files X ix fis = Inr (fs, ts')" "files = parsed_file X fi # fs" "terms = ts @ ts'"
    by (auto split: sum.splits)
  from Cons.IH [OF p(2)] obtain groups where g: "ts' = concat groups"
    "list_all2 (\<lambda>f g. tiles (pf_file_id f) 0 0 g (pf_total_size f) \<and> list_all term_ranges_ok g) fs groups"
    by blast
  with p file_terms_tile [OF p(1)] show ?case
    by (auto simp: parsed_file_def intro!: exI [of _ "ts # groups"])
qed

lemma parse_Inr:
  assumes "parse_and_validate X bytes = Some (Inr p)"
  shows "\<exists>ix fis. parse_files X ix fis = Inr (ps_files p, ps_terms p) \<and> fis \<noteq> [] \<and> ps_header_version p = 2
    \<and> ps_referenced_xorb_hashes p = sort (remdups (map pt_xorb_hash (ps_terms p)))"
  using assms unfolding parse_and_validate_def
  by (auto simp: Let_def EXPECTED_HEADER_VERSION_def split: if_splits sum.splits option.splits prod.splits) blast

section \<open>Boundaries\<close>

text \<open>Boundaries recovered so far: chunk after chunk from the start of the body.\<close>

definition walked :: "xet_ext \<Rightarrow> byte list \<Rightarrow> int list \<Rightarrow> nat \<Rightarrow> bool" where
  "walked X bytes bs offset \<longleftrightarrow> last (0 # bs) = int offset \<and>
     (\<forall>i<length bs. let s = (0 # bs) ! i in 0 \<le> s \<and> s + 8 \<le> bs ! i \<and> bs ! i \<le> int (length bytes)
        \<and> x_chunk_header X (take 8 (drop (nat s) bytes)) = Some (nat (bs ! i - s - 8)))"

lemma walk_from_walked:
  "walked X bytes bs offset \<Longrightarrow> offset \<le> length bytes \<Longrightarrow>
     walk_from X bytes offset bs = [] \<or> walked X bytes (walk_from X bytes offset bs) (length bytes)"
proof (induction X bytes offset bs rule: walk_from.induct)
  case (1 X bytes offset bs)
  show ?case
  proof (cases "offset < length bytes \<and> \<not> offset + 8 > length bytes")
    case True
    show ?thesis
    proof (cases "x_chunk_header X (take 8 (drop offset bytes))")
      case None
      with True show ?thesis by (subst walk_from.simps) (simp add: XORB_CHUNK_HEADER_LENGTH_def)
    next
      case (Some len)
      let ?o = "offset + (8 + len)"
      show ?thesis
      proof (cases "?o > length bytes")
        case True
        with Some \<open>offset < length bytes \<and> \<not> offset + 8 > length bytes\<close> show ?thesis
          by (subst walk_from.simps) (simp add: XORB_CHUNK_HEADER_LENGTH_def)
      next
        case False
        have lastbs: "(0 # bs) ! length bs = int offset"
          using 1(2) by (simp add: walked_def last_conv_nth [of "0 # bs"] del: last.simps)
        have "walked X bytes (bs @ [int ?o]) ?o"
          unfolding walked_def
        proof (intro conjI allI impI)
          fix i assume "i < length (bs @ [int ?o])"
          then consider "i < length bs" | "i = length bs" by fastforce
          then show "let s = (0 # (bs @ [int ?o])) ! i in 0 \<le> s \<and> s + 8 \<le> (bs @ [int ?o]) ! i
              \<and> (bs @ [int ?o]) ! i \<le> int (length bytes)
              \<and> x_chunk_header X (take 8 (drop (nat s) bytes)) = Some (nat ((bs @ [int ?o]) ! i - s - 8))"
          proof cases
            case 1
            then have "(0 # bs @ [int ?o]) ! i = (0 # bs) ! i" by (simp add: nth_append nth_Cons split: nat.split)
            with 1 \<open>walked X bytes bs offset\<close> show ?thesis by (simp add: walked_def nth_append Let_def)
          next
            case 2
            then have "(0 # bs @ [int ?o]) ! i = int offset" using lastbs by (auto simp: nth_append nth_Cons split: nat.splits)
            with 2 Some False show ?thesis by (simp add: Let_def)
          qed
        qed simp
        moreover have "walk_from X bytes offset bs = walk_from X bytes ?o (bs @ [int ?o])"
          using Some False True by (subst walk_from.simps) (simp add: XORB_CHUNK_HEADER_LENGTH_def Let_def)
        ultimately show ?thesis
          using 1(1) Some False True by (simp add: XORB_CHUNK_HEADER_LENGTH_def)
      qed
    qed
  next
    case False
    with 1(2,3) show ?thesis
      by (subst walk_from.simps) (auto simp: XORB_CHUNK_HEADER_LENGTH_def walk_from.simps)
  qed
qed

section \<open>Properties\<close>

text \<open>C28: parsing ends on every body: the two reading loops terminate because every entry they read
  takes at least one byte.\<close>

theorem parse_and_validate_terminates:
  assumes "advances (x_file_info X)" and "advances (x_xorb_info X)"
  shows "\<exists>r. parse_and_validate X bytes = Some r"
proof -
  have "\<exists>r. read_entries (x_file_info X) cur acc = Some r" "\<exists>r. read_entries (x_xorb_info X) cur' acc' = Some r"
    for cur acc cur' acc'
    using assms by (simp_all add: read_entries_total)
  then show ?thesis
    unfolding parse_and_validate_def Let_def
    by (auto split: sum.split prod.split option.split) (metis option.distinct(1))+
qed


text \<open>The boundaries recovered from a xorb body without a footer are right or absent: chunk after
  chunk starts where the previous one ends, its header at that place states the length that leads to
  the next boundary, and the last boundary is the end of the body.\<close>

lemma walk_chunk_boundaries_exact:
  "walk_chunk_boundaries X bytes = []
   \<or> walked X bytes (walk_chunk_boundaries X bytes) (length bytes)"
  unfolding walk_chunk_boundaries_def by (rule walk_from_walked) (simp_all add: walked_def)

section \<open>Witnesses\<close>

text \<open>A concrete format: a 48 byte header, then entries of one byte, 1 for an entry and 0 for the bookend.\<close>

definition toy_info :: MDBFileInfo where
  "toy_info = \<lparr>fi_file_hash = replicate 32 7, fi_segments =
     [\<lparr>seg_xorb_hash = replicate 32 1, seg_unpacked_segment_bytes = 100, seg_chunk_index_start = 0, seg_chunk_index_end = 2\<rparr>,
      \<lparr>seg_xorb_hash = replicate 32 2, seg_unpacked_segment_bytes = 50, seg_chunk_index_start = 3, seg_chunk_index_end = 4\<rparr>],
     fi_sha256 = None\<rparr>"

definition toy_xorb_info :: MDBXorbInfo where
  "toy_xorb_info = \<lparr>xi_xorb_hash = replicate 32 1, xi_chunks = [(0, 60), (60, 40)]\<rparr>"

definition toy_entry :: "'a \<Rightarrow> byte list \<Rightarrow> string + ('a option \<times> byte list)" where
  "toy_entry x cur = (case cur of [] \<Rightarrow> Inl ''eof'' | b # rest \<Rightarrow> if b = 1 then Inr (Some x, rest) else Inr (None, rest))"

definition toy_xet :: xet_ext where
  "toy_xet = \<lparr>x_header = (\<lambda>bs. Inr (2, drop 48 bs)), x_file_info = toy_entry toy_info,
     x_xorb_info = toy_entry toy_xorb_info, x_hash_hex = hex_of, x_from_hex = decode_hex32,
     x_xorb_object = (\<lambda>_. None), x_xorb_hash = (\<lambda>_. replicate 32 0),
     x_chunk_header = (\<lambda>b. Some (unat (hd b))), x_sha256 = (\<lambda>b. replicate 32 9)\<rparr>"

definition toy_shard :: "byte list" where
  "toy_shard = replicate 48 0 @ [1, 0, 1, 0]"

lemma toy_advances: "advances (toy_entry x)"
  by (auto simp: advances_def toy_entry_def split: list.splits if_splits)

lemma toy_read: "read_entries (toy_entry x) (1 # 0 # rest) [] = Some (Inr ([x], rest))"
  by (subst read_entries.simps, simp add: toy_entry_def, subst read_entries.simps, simp add: toy_entry_def)

lemma toy_parse: "\<exists>p. parse_and_validate toy_xet toy_shard = Some (Inr p) \<and> length (ps_terms p) = 2 \<and> length (ps_files p) = 1"
  by (simp add: parse_and_validate_def toy_xet_def toy_shard_def EXPECTED_HEADER_VERSION_def toy_read
      toy_info_def toy_xorb_info_def term_byte_range_def Let_def parsed_file_def)

theorem parse_and_validate_terminates_witness: "\<exists>r. parse_and_validate toy_xet [1, 2, 3] = Some r"
  by (rule parse_and_validate_terminates) (simp_all add: toy_xet_def toy_advances)


end
