(* ===== verification/Uploads.thy ===== *)
theory Uploads
  imports Queries Rate_Limit Shard_Parse
begin

text \<open>
  The two upload handlers, \<^verbatim>\<open>handlers/xorbs.rs\<close> and \<^verbatim>\<open>handlers/shards.rs\<close>, from the body to the answer:
  verification, cross-check, rate limit, database writes, the Sia upload and its four outcomes, and
  metering. The authenticated caller is the \<open>AuthContext\<close> argument. A request body is the list of its
  bytes, or \<open>None\<close> when the stream breaks.
\<close>

section \<open>Environment\<close>

record cas_env =
  e_xet :: xet_ext
  e_show_id :: "uuid \<Rightarrow> string"
  e_limits :: RateLimitDefaults

definition read_body :: "nat \<Rightarrow> string \<Rightarrow> byte list option \<Rightarrow> AppError + byte list" where
  "read_body cap msg body =
     (case body of None \<Rightarrow> Inl (BadRequest msg)
      | Some bs \<Rightarrow> if length bs > cap then Inl (BadRequest msg) else Inr bs)"

section \<open>Uploading a xorb\<close>

definition MAX_XORB_BYTES :: nat where
  "MAX_XORB_BYTES = 64 * 1024 * 1024 + 4096"

definition xorb_path_hash :: "xet_ext \<Rightarrow> string \<Rightarrow> string \<Rightarrow> AppError + hash" where
  "xorb_path_hash X prefix hash_suffix =
     ok_or (BadRequest ''invalid_xorb_hash'')
       (case x_from_hex X hash_suffix of
          Some h \<Rightarrow> Some h
        | None \<Rightarrow> x_from_hex X (prefix @ hash_suffix))"

definition verified_boundaries :: "xet_ext \<Rightarrow> hash \<Rightarrow> byte list \<Rightarrow> AppError + int list" where
  "verified_boundaries X expected collected =
     (case compute_xorb_hash_and_boundaries X collected of
        Inr (actual, boundaries) \<Rightarrow>
          if actual \<noteq> expected then Inl (HashMismatch expected actual)
          else Inr (if boundaries = [] then walk_chunk_boundaries X collected else boundaries)
      | Inl _ \<Rightarrow> Inr (walk_chunk_boundaries X collected))"

definition cache_body :: "hash \<Rightarrow> byte list \<Rightarrow> ('z, AppError, unit) io" where
  "cache_body h collected = db_update (\<lambda>w. w\<lparr>xorb_bodies := insert_row h collected (xorb_bodies w)\<rparr>)"

definition finish_xorb :: "AuthContext \<Rightarrow> hash \<Rightarrow> int \<Rightarrow> sia_reply \<Rightarrow> ('z, AppError, bool) io" where
  "finish_xorb ctx h sz reply =
     (case reply of
        SiaOk sid \<Rightarrow>
          bindE (xorbs_set_pin_state h Pinned (Some sid)) (\<lambda>_.
          bindE (log_on_err (record_xorb_upload ctx h sz)) (\<lambda>_. ret True))
      | SiaErr (Unavailable _) \<Rightarrow>
          bindE (discard (xorbs_set_pin_state h Pinning None)) (\<lambda>_.
          bindE (log_on_err (record_xorb_upload ctx h sz)) (\<lambda>_. ret True))
      | SiaErr (SiaOther e) \<Rightarrow>
          bindE (discard (xorbs_set_pin_state h Pinning None)) (\<lambda>_. raise (Other e))
      | SiaTimeout \<Rightarrow>
          bindE (discard (xorbs_set_pin_state h Pinning None)) (\<lambda>_.
          bindE (log_on_err (record_xorb_upload ctx h sz)) (\<lambda>_. ret True)))"

definition store_xorb :: "AuthContext \<Rightarrow> hash \<Rightarrow> byte list \<Rightarrow> int list \<Rightarrow> ('z, AppError, bool) io" where
  "store_xorb ctx h collected boundaries =
     (let sz = int (length collected) in
      bindE (insert_pending h sz (ctx_user_id ctx) (ctx_api_key_id ctx) boundaries) (\<lambda>was_inserted.
        if \<not> was_inserted then
          bindE (log_on_err (record_xorb_upload ctx h sz)) (\<lambda>_. ret False)
        else
          bindE (discard (cache_body h collected)) (\<lambda>_.
          bindE (sia_op (UploadAndPin collected)) (finish_xorb ctx h sz))))"

definition upload_xorb ::
  "cas_env \<Rightarrow> AuthContext \<Rightarrow> string \<Rightarrow> string \<Rightarrow> byte list option \<Rightarrow> ('z, AppError, bool) io" where
  "upload_xorb E ctx prefix hash_suffix body =
     bindE (lift_res (xorb_path_hash (e_xet E) prefix hash_suffix)) (\<lambda>expected.
     bindE (lift_res (read_body MAX_XORB_BYTES ''xorb_too_large'' body)) (\<lambda>collected.
     bindE (lift_res (verified_boundaries (e_xet E) expected collected)) (\<lambda>boundaries.
     bindE (check (e_show_id E) (e_limits E) UploadClass (ctx_api_key_id ctx)) (\<lambda>_.
     store_xorb ctx expected collected boundaries))))"

section \<open>Uploading a shard\<close>

definition MAX_SHARD_BYTES :: nat where
  "MAX_SHARD_BYTES = 16 * 1024 * 1024"

datatype UploadShardResponseType = Exists | SyncPerformed

definition map_parse_err_with_metrics :: "ShardParseError \<Rightarrow> ('z, AppError, 'a) io" where
  "map_parse_err_with_metrics e =
     (case e of
        HeaderVersion v \<Rightarrow>
          bindE (modify (\<lambda>w. w\<lparr>m_version_rejected := m_version_rejected w @ [(show_u64 v, ''unknown'')]\<rparr>))
            (\<lambda>_. raise ShardVersionUnsupported)
      | FooterVersion v \<Rightarrow>
          bindE (modify (\<lambda>w. w\<lparr>m_version_rejected := m_version_rejected w @ [(''2'', show_u64 v)]\<rparr>))
            (\<lambda>_. raise ShardVersionUnsupported)
      | _ \<Rightarrow> raise (BadRequest ''malformed_shard''))"

definition opaque_shard :: ParsedShard where
  "opaque_shard = \<lparr>ps_header_version = 0, ps_footer_version = 0, ps_referenced_xorb_hashes = [],
     ps_files = [], ps_terms = []\<rparr>"

definition tolerated :: "ShardParseError + ParsedShard \<Rightarrow> ('z, AppError, ParsedShard) io" where
  "tolerated r =
     (case r of
        Inr p \<Rightarrow> ret p
      | Inl (HeaderVersion v) \<Rightarrow> ret opaque_shard
      | Inl (FooterVersion v) \<Rightarrow> ret opaque_shard
      | Inl e \<Rightarrow> map_parse_err_with_metrics e)"

text \<open>The rewrite of a term's byte range from the physical chunk boundaries of its xorb.\<close>

definition physical_range :: "int list \<Rightarrow> ParsedTerm \<Rightarrow> ParsedTerm" where
  "physical_range bounds t =
     (let start_idx = pt_xorb_start t; end_idx = pt_xorb_end t in
      if start_idx < 0 \<or> end_idx \<le> start_idx \<or> nat end_idx > length bounds then t
      else let phys_start = (if start_idx = 0 then 0 else bounds ! nat (start_idx - 1));
               phys_end = bounds ! nat (end_idx - 1)
           in if phys_start < phys_end
              then t\<lparr>pt_xorb_byte_start := phys_start, pt_xorb_byte_end := phys_end\<rparr> else t)"

definition rewrite_terms :: "(hash \<Rightarrow> int list option) \<Rightarrow> ParsedTerm list \<Rightarrow> ParsedTerm list" where
  "rewrite_terms boundaries terms =
     map (\<lambda>t. case boundaries (pt_xorb_hash t) of None \<Rightarrow> t | Some b \<Rightarrow> physical_range b t) terms"

definition commit_shard ::
  "AuthContext \<Rightarrow> hash \<Rightarrow> int \<Rightarrow> ParsedFile list \<Rightarrow> ParsedTerm list \<Rightarrow> ('z, AppError, bool) io" where
  "commit_shard ctx h sz files terms =
     transaction
       (bindE (insert_shard_with_reconstruction h sz (ctx_user_id ctx) (ctx_api_key_id ctx) files terms)
         (\<lambda>was_inserted.
           bindE (if was_inserted then record_shard_upload ctx h sz else ret ()) (\<lambda>_. ret was_inserted)))"

definition finish_shard :: "hash \<Rightarrow> sia_reply \<Rightarrow> ('z, AppError, UploadShardResponseType) io" where
  "finish_shard h reply =
     (case reply of
        SiaOk sid \<Rightarrow> bindE (shards_set_pin_state h Pinned (Some sid)) (\<lambda>_. ret SyncPerformed)
      | SiaErr (Unavailable _) \<Rightarrow> bindE (discard (shards_set_pin_state h Pinning None)) (\<lambda>_. ret SyncPerformed)
      | SiaErr (SiaOther e) \<Rightarrow> bindE (discard (shards_set_pin_state h Pinning None)) (\<lambda>_. raise (Other e))
      | SiaTimeout \<Rightarrow> bindE (discard (shards_set_pin_state h Pinning None)) (\<lambda>_. ret SyncPerformed))"

definition store_shard ::
  "AuthContext \<Rightarrow> hash \<Rightarrow> byte list \<Rightarrow> ParsedFile list \<Rightarrow> ParsedTerm list \<Rightarrow> ('z, AppError, UploadShardResponseType) io" where
  "store_shard ctx h collected files terms =
     (let sz = int (length collected) in
      bindE (commit_shard ctx h sz files terms) (\<lambda>was_inserted.
        if \<not> was_inserted then bindE (log_on_err (record_shard_upload ctx h sz)) (\<lambda>_. ret Exists)
        else bindE (sia_op (UploadAndPin collected)) (finish_shard h)))"

definition cross_check :: "hash list \<Rightarrow> ('z, AppError, unit) io" where
  "cross_check refs =
     bindE (revive_orphaned_xorbs refs) (\<lambda>_.
     bindE (which_xorbs_are_pinned refs) (\<lambda>present.
       let missing = filter (\<lambda>h. h \<notin> set present) refs in
       if missing \<noteq> [] then raise (ShardMissingXorbs missing) else ret ()))"

definition upload_parsed_shard ::
  "cas_env \<Rightarrow> AuthContext \<Rightarrow> byte list \<Rightarrow> ShardParseError + ParsedShard \<Rightarrow> ('z, AppError, UploadShardResponseType) io" where
  "upload_parsed_shard E ctx collected parse_result =
     bindE (tolerated parse_result) (\<lambda>parsed.
     bindE (cross_check (ps_referenced_xorb_hashes parsed)) (\<lambda>_.
     bindE (get_chunk_boundaries (ps_referenced_xorb_hashes parsed)) (\<lambda>boundaries.
     bindE (check (e_show_id E) (e_limits E) UploadClass (ctx_api_key_id ctx)) (\<lambda>_.
     store_shard ctx (x_sha256 (e_xet E) collected) collected (ps_files parsed)
       (rewrite_terms boundaries (ps_terms parsed))))))"

text \<open>The whole handler; \<open>None\<close> would be a parse that does not end.\<close>

definition upload_shard ::
  "cas_env \<Rightarrow> AuthContext \<Rightarrow> byte list option \<Rightarrow> 'z world_scheme \<Rightarrow>
     ((AppError + UploadShardResponseType) \<times> 'z world_scheme) option" where
  "upload_shard E ctx body w =
     (case read_body MAX_SHARD_BYTES ''shard_too_large'' body of
        Inl e \<Rightarrow> Some (Inl e, w)
      | Inr collected \<Rightarrow>
          map_option (\<lambda>r. upload_parsed_shard E ctx collected r w) (parse_and_validate (e_xet E) collected))"

section \<open>Both handlers keep the invariant\<close>

lemma keeps_check [keeps_intro]: "keeps cas_inv (check s d c k)"
  unfolding check_def eval_bucket_def
  by (auto intro!: keeps_intro keeps_io_step [OF frame_cas_inv] simp: case_prod_beta cas_inv_other split: prod.split)

lemma cas_inv_cache_body:
  "cas_inv w \<Longrightarrow> h \<in> fst ` set (xorbs w) \<Longrightarrow> cas_inv (w\<lparr>xorb_bodies := insert_row h b (xorb_bodies w)\<rparr>)"
  by (auto simp: cas_inv_def rows_ok_def insert_row_def)

lemma keeps_finish_xorb: "keeps cas_inv (finish_xorb ctx h sz reply)"
  unfolding finish_xorb_def
  by (auto intro!: keeps_intro keeps_xorbs_set_pin_state split: sia_reply.split SiaAdapterError.split)

lemma keeps_finish_shard: "keeps cas_inv (finish_shard h reply)"
  unfolding finish_shard_def
  by (auto intro!: keeps_intro keeps_shards_set_pin_state split: sia_reply.split SiaAdapterError.split)

definition inv_with_xorb :: "hash \<Rightarrow> 'z world_scheme \<Rightarrow> bool" where
  "inv_with_xorb h w \<longleftrightarrow> cas_inv w \<and> h \<in> fst ` set (xorbs w)"

lemma frame_inv_with_xorb: "frame (inv_with_xorb h)"
  by (simp add: frame_def inv_with_xorb_def frameD [OF frame_cas_inv])

lemma insert_pending_post:
  assumes "cas_inv w" and "insert_pending h sz owner key b w = (Inr a, w')"
  shows "inv_with_xorb h w'"
proof -
  have "cas_inv w'" using keepsD [OF keeps_insert_pending assms(1)] assms(2) by (metis snd_conv)
  moreover have "h \<in> fst ` set (xorbs w')"
    using assms(2) by (auto simp: insert_pending_def db_exec_def io_step_def keys_insert_row split: list.splits if_splits)
  ultimately show ?thesis by (simp add: inv_with_xorb_def)
qed

lemma keeps_cache_body: "keeps (inv_with_xorb h) (cache_body h b)"
  unfolding cache_body_def
  by (rule keeps_db_update [OF frame_inv_with_xorb]) (simp add: inv_with_xorb_def cas_inv_cache_body)

lemma keeps_store_xorb: "keeps cas_inv (store_xorb ctx h collected b)"
proof -
  let ?sz = "int (length collected)"
  have rest: "cas_inv (snd (bindE (discard (cache_body h collected)) (\<lambda>_.
      bindE (sia_op (UploadAndPin collected)) (finish_xorb ctx h ?sz)) w))" if "inv_with_xorb h w" for w :: "'a world_scheme"
  proof -
    have "inv_with_xorb h (snd (discard (cache_body h collected) w))"
      using keepsD [OF keeps_attempt(2) [OF keeps_cache_body] that] .
    then have "cas_inv (snd (discard (cache_body h collected) w))" by (simp add: inv_with_xorb_def)
    moreover have "keeps cas_inv (bindE (sia_op (UploadAndPin collected)) (finish_xorb ctx h ?sz))"
      by (intro keeps_intro keeps_finish_xorb frame_cas_inv)
    ultimately show ?thesis by (rule bind_keeps_snd)
  qed
  show ?thesis
    unfolding keeps_def store_xorb_def Let_def
  proof (intro allI impI)
    fix w :: "'a world_scheme" assume w: "cas_inv w"
    show "cas_inv (snd (bindE (insert_pending h ?sz (ctx_user_id ctx) (ctx_api_key_id ctx) b) (\<lambda>was_inserted.
        if \<not> was_inserted then bindE (log_on_err (record_xorb_upload ctx h ?sz)) (\<lambda>_. ret False)
        else bindE (discard (cache_body h collected)) (\<lambda>_.
          bindE (sia_op (UploadAndPin collected)) (finish_xorb ctx h ?sz))) w))"
    proof (rule bind_snd)
      fix e w' assume "insert_pending h ?sz (ctx_user_id ctx) (ctx_api_key_id ctx) b w = (Inl e, w')"
      then show "cas_inv w'" using keepsD [OF keeps_insert_pending w] by (metis snd_conv)
    next
      fix a w' assume i: "insert_pending h ?sz (ctx_user_id ctx) (ctx_api_key_id ctx) b w = (Inr a, w')"
      have k: "keeps cas_inv (bindE (log_on_err (record_xorb_upload ctx h ?sz)) (\<lambda>_. ret False) :: ('a, AppError, bool) io)"
        by (intro keeps_intro)
      from insert_pending_post [OF w i] rest keepsD [OF k]
      show "cas_inv (snd ((if \<not> a then bindE (log_on_err (record_xorb_upload ctx h ?sz)) (\<lambda>_. ret False)
        else bindE (discard (cache_body h collected)) (\<lambda>_.
          bindE (sia_op (UploadAndPin collected)) (finish_xorb ctx h ?sz))) w'))"
        by (simp add: inv_with_xorb_def)
    qed
  qed
qed

lemma keeps_upload_xorb: "keeps cas_inv (upload_xorb E ctx prefix suffix body)"
  unfolding upload_xorb_def by (intro keeps_intro keeps_store_xorb)

lemma keeps_upload_parsed_shard: "keeps cas_inv (upload_parsed_shard E ctx collected r)"
proof -
  have "keeps cas_inv (tolerated r)"
    unfolding tolerated_def map_parse_err_with_metrics_def
    by (auto intro!: keeps_intro keeps_modify simp: cas_inv_other split: sum.split ShardParseError.split)
  moreover have "keeps cas_inv (cross_check refs)" for refs
    unfolding cross_check_def Let_def by (auto intro!: keeps_intro)
  moreover have "keeps cas_inv (store_shard ctx h collected fs ts)" for h fs ts
    unfolding store_shard_def commit_shard_def Let_def
    by (auto intro!: keeps_intro keeps_finish_shard frame_cas_inv)
  ultimately show ?thesis
    unfolding upload_parsed_shard_def by (intro keeps_intro)
qed

lemma upload_shard_inv: "cas_inv w \<Longrightarrow> upload_shard E ctx body w = Some (r, w') \<Longrightarrow> cas_inv w'"
proof -
  assume inv: "cas_inv w" and u: "upload_shard E ctx body w = Some (r, w')"
  have "cas_inv (snd (upload_parsed_shard E ctx collected pr w))" for collected pr
    by (rule keepsD [OF keeps_upload_parsed_shard inv])
  with inv u show "cas_inv w'"
    by (auto simp: upload_shard_def split: sum.splits) (metis snd_conv)
qed

section \<open>What the shared steps change\<close>

lemma check_effect: "\<exists>rd fs. snd (check s d c k w) = w\<lparr>redis := rd, faults := fs\<rparr>"
proof -
  have "\<exists>rd fs. w = w\<lparr>redis := rd, faults := fs\<rparr>"
    by (rule exI [of _ "redis w"], rule exI [of _ "faults w"]) simp
  then show ?thesis
    by (auto simp: check_def eval_bucket_def bindE_def gets_def ret_def raise_def io_step_def
        split: prod.splits list.splits if_splits) (metis world.update_convs(7) world.update_convs(9) world.surjective)+
qed

lemma usage_insert_effect: "\<exists>ul fs. snd (usage_insert u w) = w\<lparr>usage_log := ul, faults := fs\<rparr>"
  unfolding usage_insert_def db_update_def
proof (cases rule: io_step_cases [of db_error "\<lambda>w. ((), w\<lparr>usage_log := usage_log w @ [u (clock w)]\<rparr>)" w])
  case (fault fs)
  then show "\<exists>ul fs. snd (io_step db_error (\<lambda>w. ((), w\<lparr>usage_log := usage_log w @ [u (clock w)]\<rparr>)) w) = w\<lparr>usage_log := ul, faults := fs\<rparr>"
    by (auto intro!: exI [of _ "usage_log w"] exI [of _ fs])
next
  case (ran fs)
  then show "\<exists>ul fs. snd (io_step db_error (\<lambda>w. ((), w\<lparr>usage_log := usage_log w @ [u (clock w)]\<rparr>)) w) = w\<lparr>usage_log := ul, faults := fs\<rparr>"
    by (auto intro!: exI [of _ "usage_log w @ [u (clock w)]"] exI [of _ fs])
qed

text \<open>The parts of the world the storage of xorbs is about.\<close>

definition xorb_view :: "'z world_scheme \<Rightarrow> (hash \<times> xorb_row) list \<times> (hash \<times> byte list) list \<times> sia_call list" where
  "xorb_view w = (xorbs w, xorb_bodies w, sia_calls w)"

lemma check_view [simp]: "xorb_view (snd (check s d c k w)) = xorb_view w"
  using check_effect [of s d c k w] by (auto simp: xorb_view_def)

lemma usage_insert_view: "xorb_view (snd (usage_insert u w)) = xorb_view w"
  using usage_insert_effect [of u w] by (auto simp: xorb_view_def)

lemma record_view [simp]: "xorb_view (snd (log_on_err (record_xorb_upload ctx h n) w)) = xorb_view w"
  unfolding log_on_err_def record_xorb_upload_def discard_def case_prod_beta snd_conv by (rule usage_insert_view)

lemma check_clear: "faults w = [] \<Longrightarrow> faults (snd (check s d c k w)) = []"
  by (auto simp: check_def eval_bucket_def bindE_def gets_def ret_def raise_def io_step_no_fault split: prod.splits if_splits)

section \<open>Properties of the xorb upload\<close>

text \<open>An upload whose recomputed Merkle hash is not the one in the path is refused before anything
  happens: no token is taken, no row is written, Sia is not called.\<close>

lemma xorb_mismatch_has_no_effect:
  assumes "xorb_path_hash (e_xet E) prefix suffix = Inr expected"
    and "read_body MAX_XORB_BYTES ''xorb_too_large'' body = Inr collected"
    and "compute_xorb_hash_and_boundaries (e_xet E) collected = Inr (actual, b)" and "actual \<noteq> expected"
  shows "upload_xorb E ctx prefix suffix body w = (Inl (HashMismatch expected actual), w)"
  using assms by (simp add: upload_xorb_def bindE_def lift_res_def verified_boundaries_def)

lemma store_known_xorb:
  assumes "map_of (xorbs w) h = Some r"
  shows "xorb_view (snd (store_xorb ctx h collected b w)) = xorb_view w \<and> fst (store_xorb ctx h collected b w) \<noteq> Inr True"
proof -
  let ?sz = "int (length collected)"
  let ?rest = "bindE (log_on_err (record_xorb_upload ctx h ?sz)) (\<lambda>_. ret False)"
  have rest: "xorb_view (snd (?rest w')) = xorb_view w' \<and> fst (?rest w') = Inr False" for w' :: "'a world_scheme"
    using record_view [of ctx h ?sz w']
    by (auto simp: bindE_def ret_def log_on_err_def discard_def split: prod.splits)
  have faults_view: "xorb_view (w\<lparr>faults := fs\<rparr>) = xorb_view w" for fs
    by (simp add: xorb_view_def)
  have "\<exists>e fs. insert_pending h ?sz o' k b w = (Inl e, w\<lparr>faults := fs\<rparr>)
      \<or> insert_pending h ?sz o' k b w = (Inr False, w\<lparr>faults := fs\<rparr>)" for o' k
    unfolding insert_pending_def db_exec_def
    by (rule io_step_cases [of db_error "\<lambda>w. (map_of (xorbs w) h = None,
        w\<lparr>xorbs := insert_row h (fresh_xorb_row ?sz o' k (clock w) b) (xorbs w)\<rparr>)" w])
      (use assms in \<open>auto simp: insert_row_def\<close>)
  then obtain e fs where "insert_pending h ?sz (ctx_user_id ctx) (ctx_api_key_id ctx) b w = (Inl e, w\<lparr>faults := fs\<rparr>)
      \<or> insert_pending h ?sz (ctx_user_id ctx) (ctx_api_key_id ctx) b w = (Inr False, w\<lparr>faults := fs\<rparr>)" by blast
  then show ?thesis
    using rest [of "w\<lparr>faults := fs\<rparr>"] faults_view [of fs]
    by (elim disjE) (simp_all add: store_xorb_def Let_def bindE_def [of "insert_pending h x y z b" for x y z])
qed

text \<open>Uploading a hash the server already has is idempotent: whatever the body, the row, its pin
  state and the cached bytes stay as they are, Sia is not called, and a success says so.\<close>

lemma xorb_upload_idempotent:
  assumes "xorb_path_hash (e_xet E) prefix suffix = Inr h" and "map_of (xorbs w) h = Some r"
  shows "xorb_view (snd (upload_xorb E ctx prefix suffix body w)) = xorb_view w
    \<and> fst (upload_xorb E ctx prefix suffix body w) \<noteq> Inr True"
proof -
  have "xorb_view (snd (bindE (check s d c k) (\<lambda>_. store_xorb ctx h collected b) w)) = xorb_view w
      \<and> fst (bindE (check s d c k) (\<lambda>_. store_xorb ctx h collected b) w) \<noteq> Inr True" for s d c k collected b
  proof (cases "check s d c k w")
    case (Pair x w')
    have v: "xorb_view w' = xorb_view w" using check_view [of s d c k w] Pair by simp
    then have "map_of (xorbs w') h = Some r" using assms(2) by (simp add: xorb_view_def)
    with Pair v store_known_xorb [OF this, of ctx collected b] show ?thesis
      by (cases x) (simp_all add: bind_run)
  qed
  then show ?thesis
    using assms(1)
    by (auto simp: upload_xorb_def bindE_def [of "lift_res r" for r] lift_res_def split: sum.splits)
qed

lemma finish_xorb_ack:
  assumes "faults w = []" and "map_of (xorbs w) h = Some r" and "pin_state r = Pinning"
    and "finish_xorb ctx h sz reply w = (Inr True, w')"
  shows "xorb_bodies w' = xorb_bodies w \<and> sia_calls w' = sia_calls w
    \<and> (\<exists>r'. map_of (xorbs w') h = Some r' \<and> chunk_boundaries r' = chunk_boundaries r
        \<and> (case reply of SiaOk sid \<Rightarrow> pin_state r' = Pinned \<and> sia_object_id r' = Some sid
           | _ \<Rightarrow> pin_state r' = Pinning \<and> sia_object_id r' = sia_object_id r))"
  using assms
  by (auto simp: finish_xorb_def xorbs_set_pin_state_def db_update_def io_step_no_fault bindE_def discard_def ret_def
      raise_def log_on_err_def record_xorb_upload_def usage_insert_def map_of_update_row set_state_row_def coalesce_id_def
      split: sia_reply.splits SiaAdapterError.splits)

lemma store_xorb_ack:
  assumes "cas_inv w" and "faults w = []" and "store_xorb ctx h collected b w = (Inr True, w')"
  shows "map_of (xorb_bodies w') h = Some collected \<and> sia_calls w' = sia_calls w @ [UploadAndPin collected]
    \<and> (\<exists>r. map_of (xorbs w') h = Some r \<and> chunk_boundaries r = (if b = [] then None else Some b)
        \<and> (pin_state r = Pinned \<and> (\<exists>sid. sia_script w \<noteq> [] \<and> hd (sia_script w) = SiaOk sid \<and> sia_object_id r = Some sid)
           \<or> pin_state r = Pinning \<and> sia_object_id r = None))"
proof -
  let ?sz = "int (length collected)"
  let ?row = "fresh_xorb_row ?sz (ctx_user_id ctx) (ctx_api_key_id ctx) (clock w) b"
  let ?w1 = "w\<lparr>xorbs := insert_row h ?row (xorbs w)\<rparr>"
  let ?w2 = "?w1\<lparr>xorb_bodies := insert_row h collected (xorb_bodies w)\<rparr>"
  have ins: "insert_pending h ?sz (ctx_user_id ctx) (ctx_api_key_id ctx) b w = (Inr (map_of (xorbs w) h = None), ?w1)"
    using assms(2) by (simp add: insert_pending_def db_exec_def io_step_no_fault)
  have new: "map_of (xorbs w) h = None"
  proof (rule ccontr)
    assume "\<not> ?thesis"
    then obtain r where "map_of (xorbs w) h = Some r" by auto
    from store_known_xorb [OF this] assms(3) show False by (metis fst_conv)
  qed
  then have nobody: "map_of (xorb_bodies w) h = None"
    using assms(1) by (force simp: cas_inv_def map_of_eq_None_iff)
  have cache: "discard (cache_body h collected) ?w1 = (Inr (), ?w2)"
    using assms(2) by (simp add: discard_def cache_body_def db_update_def io_step_no_fault)
  have run: "store_xorb ctx h collected b w = bindE (sia_op (UploadAndPin collected)) (finish_xorb ctx h ?sz) ?w2"
    unfolding store_xorb_def Let_def using ins new cache
    by (simp add: bindE_def [of "insert_pending h x y z b" for x y z] bindE_def [of "discard (cache_body h collected)"])
  obtain reply w3 where sia: "sia_op (UploadAndPin collected) ?w2 = (Inr reply :: AppError + sia_reply, w3)"
    and w3: "xorbs w3 = xorbs ?w1" "xorb_bodies w3 = xorb_bodies ?w2" "sia_calls w3 = sia_calls w @ [UploadAndPin collected]"
      "faults w3 = []" "reply = (if sia_script w = [] then SiaErr (Unavailable ''unreachable'') else hd (sia_script w))"
    using assms(2) by (cases "sia_script w") (auto simp: sia_op_def)
  have row: "map_of (xorbs w3) h = Some ?row" "pin_state ?row = Pinning" "sia_object_id ?row = None"
    "chunk_boundaries ?row = (if b = [] then None else Some b)"
    using new w3(1) by (simp_all add: map_of_insert_row)
  have fin: "finish_xorb ctx h ?sz reply w3 = (Inr True, w')"
    using assms(3) run sia by (simp add: bind_run)
  have ok: "reply = SiaOk sid \<Longrightarrow> sia_script w \<noteq> [] \<and> hd (sia_script w) = SiaOk sid" for sid
    using w3(5) by (auto split: if_splits)
  from finish_xorb_ack [OF w3(4) row(1,2) fin] obtain r' where
    fin': "xorb_bodies w' = xorb_bodies w3" "sia_calls w' = sia_calls w3" and
    r': "map_of (xorbs w') h = Some r'" "chunk_boundaries r' = (if b = [] then None else Some b)"
      "case reply of SiaOk sid \<Rightarrow> pin_state r' = Pinned \<and> sia_object_id r' = Some sid
       | _ \<Rightarrow> pin_state r' = Pinning \<and> sia_object_id r' = None"
    unfolding row(3,4) by blast
  have "pin_state r' = Pinned \<and> (\<exists>sid. sia_script w \<noteq> [] \<and> hd (sia_script w) = SiaOk sid \<and> sia_object_id r' = Some sid)
      \<or> pin_state r' = Pinning \<and> sia_object_id r' = None"
    using r'(3) ok by (cases reply) simp_all
  with r'(1,2) fin' w3(2,3) nobody show ?thesis by (simp add: map_of_insert_row)
qed

lemma finish_xorb_not_False: "fst (finish_xorb ctx h sz reply w) \<noteq> Inr False"
  by (auto simp: finish_xorb_def bindE_def ret_def raise_def split: sia_reply.splits SiaAdapterError.splits prod.splits sum.splits)

lemma store_unknown_xorb:
  assumes "map_of (xorbs w) h = None"
  shows "fst (store_xorb ctx h collected b w) \<noteq> Inr False"
proof -
  have "fst (bindE m (finish_xorb ctx h sz) v) \<noteq> Inr False" for m sz and v :: "'a world_scheme"
    by (simp add: bindE_def finish_xorb_not_False split: prod.split sum.split)
  then have rest: "fst (bindE (discard (cache_body h collected)) (\<lambda>_. bindE m (finish_xorb ctx h sz)) v) \<noteq> Inr False"
    for m sz and v :: "'a world_scheme"
    by (simp add: bindE_def [of "discard x" for x] split: prod.split sum.split)
  have "fst (insert_pending h sz o' k b w) \<noteq> Inr False" for sz o' k
    unfolding insert_pending_def db_exec_def
    by (rule io_step_cases [of db_error "\<lambda>w. (map_of (xorbs w) h = None,
        w\<lparr>xorbs := insert_row h (fresh_xorb_row sz o' k (clock w) b) (xorbs w)\<rparr>)" w]) (use assms in auto)
  then have "insert_pending h sz o' k b w \<noteq> (Inr False, v)" for sz o' k v
    by (metis fst_conv)
  with rest show ?thesis
    by (auto simp: store_xorb_def Let_def bindE_def [of "insert_pending h x y z b" for x y z] split: prod.split sum.split)
qed

text \<open>C4: what an acknowledged upload means when the database answers. If it is acknowledged as inserted, the xorb was not
  known before, its row exists, its bytes are in the cache, Sia was asked exactly once to store exactly these bytes, and the
  row is pinned with the id Sia returned or is left pinning for the reconciler. If it is acknowledged as not inserted, the
  xorb was known before and nothing but the log is written: neither row nor cache changes and Sia is not asked, so
  its fate is that of the first upload.\<close>

theorem acknowledged_xorb_is_kept:
  assumes "cas_inv w" and "faults w = []"
    and "xorb_path_hash (e_xet E) prefix suffix = Inr h"
    and "upload_xorb E ctx prefix suffix (Some collected) w = (Inr inserted, w')"
  shows "if inserted
    then map_of (xorbs w) h = None \<and> map_of (xorb_bodies w') h = Some collected \<and> sia_calls w' = sia_calls w @ [UploadAndPin collected]
      \<and> (\<exists>r. map_of (xorbs w') h = Some r
        \<and> (pin_state r = Pinned \<and> (\<exists>sid. sia_script w \<noteq> [] \<and> hd (sia_script w) = SiaOk sid \<and> sia_object_id r = Some sid)
           \<or> pin_state r = Pinning \<and> sia_object_id r = None))
    else map_of (xorbs w) h \<noteq> None \<and> xorbs w' = xorbs w \<and> xorb_bodies w' = xorb_bodies w \<and> sia_calls w' = sia_calls w"
proof -
  let ?check = "check (e_show_id E) (e_limits E) UploadClass (ctx_api_key_id ctx)"
  from assms(3,4) obtain b x w1 where b: "verified_boundaries (e_xet E) h collected = Inr b" and
    c: "?check w = (Inr x, w1)" and s: "store_xorb ctx h collected b w1 = (Inr inserted, w')"
    by (auto simp: upload_xorb_def bindE_def lift_res_def read_body_def split: sum.splits prod.splits if_splits)
  obtain rd fs where w1: "w1 = w\<lparr>redis := rd, faults := fs\<rparr>"
    using check_effect [of "e_show_id E" "e_limits E" UploadClass "ctx_api_key_id ctx" w] c by auto
  have f: "faults w1 = []" using check_clear [OF assms(2)] c by (metis snd_conv)
  have inv: "cas_inv w1" using keepsD [OF keeps_check assms(1)] c by (metis snd_conv)
  show ?thesis
  proof (cases inserted)
    case True
    with s have "store_xorb ctx h collected b w1 = (Inr True, w')" by simp
    from store_xorb_ack [OF inv f this] store_known_xorb [of w1 h _ ctx collected b] this w1 True show ?thesis
      by (cases "map_of (xorbs w) h") auto
  next
    case False
    have "map_of (xorbs w) h \<noteq> None" using store_unknown_xorb [of w1 h ctx collected b] s w1 False by auto
    then obtain r where "map_of (xorbs w1) h = Some r" using w1 by auto
    from store_known_xorb [OF this, of ctx collected b] s w1 False \<open>map_of (xorbs w) h \<noteq> None\<close> show ?thesis
      by (simp add: xorb_view_def)
  qed
qed

text \<open>It can be lost when the write of the cached body fails: that failure is discarded, and with Sia
  unavailable the client is told the upload succeeded while the bytes are nowhere.\<close>

lemma acknowledged_xorb_can_be_lost:
  assumes "map_of (xorbs w) h = None" and "map_of (xorb_bodies w) h = None"
    and "faults w = [False, True]" and "sia_script w = []"
  shows "\<exists>w' r. store_xorb ctx h collected b w = (Inr True, w') \<and> map_of (xorb_bodies w') h = None
    \<and> map_of (xorbs w') h = Some r \<and> pin_state r = Pinning \<and> sia_object_id r = None"
  using assms
  by (simp add: store_xorb_def insert_pending_def cache_body_def db_exec_def db_update_def io_step_def bindE_def discard_def
      sia_op_def finish_xorb_def xorbs_set_pin_state_def ret_def log_on_err_def record_xorb_upload_def usage_insert_def
      map_of_insert_row map_of_update_row set_state_row_def coalesce_id_def Let_def)

section \<open>Properties of the shard upload\<close>

lemma walked_step: "walked X bytes bs n \<Longrightarrow> i < length bs \<Longrightarrow> (0 # bs) ! i < (0 # bs) ! Suc i \<and> 0 \<le> (0 # bs) ! i"
  by (auto simp: walked_def Let_def)

lemma walked_less:
  assumes "walked X bytes bs n" and "i < j" and "j \<le> length bs"
  shows "(0 # bs) ! i < (0 # bs) ! j"
  using assms(2,3)
proof (induction j)
  case (Suc j)
  have "(0 # bs) ! j < (0 # bs) ! Suc j" using walked_step [OF assms(1), of j] Suc.prems by simp
  with Suc show ?case by (cases "i = j") auto
qed simp

text \<open>From boundaries found by walking the chunks, the byte range the handler writes for a term is the physical one: it starts at the first byte
  of the term's first serialized chunk, header included, ends after its last chunk, is not empty and
  lies in the xorb. With it the empty range of an external xorb is replaced.\<close>

lemma physical_range_covers_chunks:
  assumes "walked X bytes bounds (length bytes)"
    and "0 \<le> pt_xorb_start t" and "pt_xorb_start t < pt_xorb_end t" and "pt_xorb_end t \<le> int (length bounds)"
  shows "pt_xorb_byte_start (physical_range bounds t) = (0 # bounds) ! nat (pt_xorb_start t)
    \<and> pt_xorb_byte_end (physical_range bounds t) = bounds ! nat (pt_xorb_end t - 1)
    \<and> 0 \<le> pt_xorb_byte_start (physical_range bounds t)
    \<and> pt_xorb_byte_start (physical_range bounds t) < pt_xorb_byte_end (physical_range bounds t)
    \<and> pt_xorb_byte_end (physical_range bounds t) \<le> int (length bytes)"
proof -
  let ?s = "nat (pt_xorb_start t)" and ?e = "nat (pt_xorb_end t - 1)"
  have start: "(if pt_xorb_start t = 0 then 0 else bounds ! nat (pt_xorb_start t - 1)) = (0 # bounds) ! ?s"
    using assms(2) by (auto simp: nth_Cons nat_diff_distrib split: nat.splits)
  have e: "?e < length bounds" "Suc ?e \<le> length bounds" "?s < Suc ?e" using assms(2-4) by auto
  have less: "(0 # bounds) ! ?s < bounds ! ?e"
    using walked_less [OF assms(1) e(3,2)] by simp
  moreover have "0 \<le> (0 # bounds) ! ?s" using walked_step [OF assms(1), of ?s] e by simp
  moreover have "bounds ! ?e \<le> int (length bytes)" using assms(1) e(1) by (simp add: walked_def Let_def)
  moreover have "physical_range bounds t = t\<lparr>pt_xorb_byte_start := (0 # bounds) ! ?s, pt_xorb_byte_end := bounds ! ?e\<rparr>"
    unfolding physical_range_def Let_def start using assms(2-4) less by auto
  ultimately show ?thesis by simp
qed

definition xorb_available :: "'z world_scheme \<Rightarrow> hash \<Rightarrow> bool" where
  "xorb_available w h \<longleftrightarrow> length h = 32 \<and> map_of (xorb_bodies w) h \<noteq> None
     \<and> (\<exists>r. (h, r) \<in> set (xorbs w) \<and> pin_state r \<noteq> Uploading)"

lemma revived_states:
  "(\<exists>r. (h, r) \<in> set (update_rows P revive_row t) \<and> pin_state r \<noteq> Uploading)
     \<longleftrightarrow> (\<exists>r. (h, r) \<in> set t \<and> pin_state r \<noteq> Uploading)"
  if "\<And>h r. P h r \<Longrightarrow> pin_state r = Orphaned"
proof
  assume "\<exists>r. (h, r) \<in> set (update_rows P revive_row t) \<and> pin_state r \<noteq> Uploading"
  then obtain r r0 where "(h, r0) \<in> set t" "r = (if P h r0 then revive_row r0 else r0)" "pin_state r \<noteq> Uploading"
    by (auto simp: update_rows_def split: if_splits)
  then show "\<exists>r. (h, r) \<in> set t \<and> pin_state r \<noteq> Uploading"
    using that [of h r0] by (cases "P h r0") auto
next
  assume "\<exists>r. (h, r) \<in> set t \<and> pin_state r \<noteq> Uploading"
  then obtain r where r: "(h, r) \<in> set t" "pin_state r \<noteq> Uploading" by blast
  then have "(h, if P h r then revive_row r else r) \<in> set (update_rows P revive_row t)"
    by (force simp: update_rows_def)
  moreover have "pin_state (if P h r then revive_row r else r) \<noteq> Uploading"
    using r(2) by (simp add: revive_row_def)
  ultimately show "\<exists>r. (h, r) \<in> set (update_rows P revive_row t) \<and> pin_state r \<noteq> Uploading" by blast
qed

text \<open>C30: the cross-check is exact. A shard passes when every xorb it references is recorded, past the
  uploading state, with its bytes in the cache; otherwise the answer lists precisely the missing ones,
  in the order of the reference list.\<close>

theorem cross_check_exact:
  assumes "faults w = []"
  shows "fst (cross_check refs w) =
    (if list_all (xorb_available w) refs then Inr ()
     else Inl (ShardMissingXorbs (filter (\<lambda>h. \<not> xorb_available w h) refs)))"
proof (cases "refs = []")
  case True
  then show ?thesis by (simp add: cross_check_def revive_orphaned_xorbs_def which_xorbs_are_pinned_def bindE_def ret_def)
next
  case False
  let ?hit = "\<lambda>h r. h \<in> set refs \<and> pin_state r = Orphaned"
  let ?w = "w\<lparr>xorbs := update_rows ?hit revive_row (xorbs w)\<rparr>"
  let ?present = "map fst (filter (\<lambda>(h, r). h \<in> set refs \<and> map_of (xorb_bodies ?w) h \<noteq> None
              \<and> pin_state r \<in> {Pinning, Pinned, Orphaned} \<and> length h = 32) (xorbs ?w))"
  have states: "pin_state r = Pinning \<or> pin_state r = Pinned \<or> pin_state r = Orphaned \<longleftrightarrow> pin_state r \<noteq> Uploading" for r :: xorb_row
    by (cases "pin_state r") auto
  have "h \<in> set ?present \<longleftrightarrow> xorb_available w h" if "h \<in> set refs" for h
    using that revived_states [of ?hit h "xorbs w"] unfolding xorb_available_def
    by (auto simp: image_iff states)
  then have "filter (\<lambda>h. h \<notin> set ?present) refs = filter (\<lambda>h. \<not> xorb_available w h) refs"
    by (intro filter_cong refl) blast
  moreover have "fst (cross_check refs w) = (if filter (\<lambda>h. h \<notin> set ?present) refs \<noteq> []
      then Inl (ShardMissingXorbs (filter (\<lambda>h. h \<notin> set ?present) refs)) else Inr ())"
    using False assms
    by (simp add: cross_check_def revive_orphaned_xorbs_def which_xorbs_are_pinned_def bindE_def db_exec_def db_query_def
        io_step_no_fault ret_def raise_def Let_def)
  ultimately show ?thesis by (auto simp: filter_empty_conv list_all_iff)
qed

lemma db_checked_Inr:
  "db_checked ok f w = (Inr x, w') \<Longrightarrow> \<exists>fs. w' = f (w\<lparr>faults := fs\<rparr>)"
  unfolding db_checked_def db_exec_def
  by (rule io_step_cases [of db_error "\<lambda>w. if ok w then (True, f w) else (False, w)" w])
    (auto simp: bindE_def ret_def raise_def split: if_splits)

lemma self_faults: "\<exists>fs. w = w\<lparr>faults := fs\<rparr>"
  by (rule exI [of _ "faults w"]) simp

lemma insert_files_Inr:
  "insert_files h files w = (Inr x, w') \<Longrightarrow>
     \<exists>fs. w' = w\<lparr>faults := fs, reconstruction_files := fold (put_file h) files (reconstruction_files w)\<rparr>"
  using self_faults [of w] by (auto simp: insert_files_def ret_def split: if_splits dest!: db_checked_Inr)

lemma insert_terms_Inr:
  "insert_terms terms w = (Inr x, w') \<Longrightarrow>
     \<exists>fs. w' = w\<lparr>faults := fs, reconstruction_terms := fold (\<lambda>t. insert_row (term_key t) t) terms (reconstruction_terms w)\<rparr>"
  using self_faults [of w] by (auto simp: insert_terms_def ret_def split: if_splits dest!: db_checked_Inr)

lemma usage_insert_Inr: "usage_insert u w = (Inr x, w') \<Longrightarrow> \<exists>fs. w' = w\<lparr>faults := fs, usage_log := usage_log w @ [u (clock w)]\<rparr>"
  unfolding usage_insert_def db_update_def
  by (rule io_step_cases [of db_error "\<lambda>w. ((), w\<lparr>usage_log := usage_log w @ [u (clock w)]\<rparr>)" w]) auto

definition shard_audit :: "AuthContext \<Rightarrow> hash \<Rightarrow> int \<Rightarrow> int \<Rightarrow> usage_row" where
  "shard_audit ctx h sz now = \<lparr>u_event = ShardUpload, u_api_key_id = ctx_api_key_id ctx, u_user_id = ctx_user_id ctx,
      u_xorb_hash = None, u_shard_hash = Some h, u_file_id = None, u_bytes = Some sz, u_occurred_at = now\<rparr>"

definition with_shard :: "AuthContext \<Rightarrow> hash \<Rightarrow> int \<Rightarrow> ParsedFile list \<Rightarrow> ParsedTerm list \<Rightarrow> 'z world_scheme \<Rightarrow> 'z world_scheme" where
  "with_shard ctx h sz files terms w = w\<lparr>
     shards := shards w @ [(h, fresh_pin_row sz (ctx_user_id ctx) (ctx_api_key_id ctx) (clock w))],
     reconstruction_files := fold (put_file h) files (reconstruction_files w),
     reconstruction_terms := fold (\<lambda>t. insert_row (term_key t) t) terms (reconstruction_terms w),
     usage_log := usage_log w @ [shard_audit ctx h sz (clock w)]\<rparr>"

definition shard_tx :: "AuthContext \<Rightarrow> hash \<Rightarrow> int \<Rightarrow> ParsedFile list \<Rightarrow> ParsedTerm list \<Rightarrow> ('z, AppError, bool) io" where
  "shard_tx ctx h sz files terms =
     bindE (insert_shard_with_reconstruction h sz (ctx_user_id ctx) (ctx_api_key_id ctx) files terms)
       (\<lambda>was_inserted. bindE (if was_inserted then record_shard_upload ctx h sz else ret ()) (\<lambda>_. ret was_inserted))"

lemma insert_shard_Inr:
  assumes "insert_shard_with_reconstruction h sz owner key files terms w = (Inr b, w')"
  shows "\<exists>fs. if b then map_of (shards w) h = None \<and> w' = w\<lparr>faults := fs, shards := shards w @ [(h, fresh_pin_row sz owner key (clock w))],
        reconstruction_files := fold (put_file h) files (reconstruction_files w),
        reconstruction_terms := fold (\<lambda>t. insert_row (term_key t) t) terms (reconstruction_terms w)\<rparr>
      else map_of (shards w) h \<noteq> None \<and> w' = w\<lparr>faults := fs\<rparr>"
proof -
  let ?f = "\<lambda>w. (map_of (shards w) h = None, w\<lparr>shards := insert_row h (fresh_pin_row sz owner key (clock w)) (shards w)\<rparr>)"
  show ?thesis
  proof (cases rule: io_step_cases [of db_error ?f w])
    case (fault fs)
    with assms show ?thesis by (simp add: insert_shard_with_reconstruction_def db_exec_def bindE_def)
  next
    case (ran fs)
    show ?thesis
    proof (cases "map_of (shards w) h")
      case None
      let ?w1 = "w\<lparr>faults := fs, shards := shards w @ [(h, fresh_pin_row sz owner key (clock w))]\<rparr>"
      have "bindE (insert_files h files) (\<lambda>_. bindE (insert_terms terms) (\<lambda>_. ret True)) ?w1 = (Inr b, w')"
        using assms ran None by (simp add: insert_shard_with_reconstruction_def db_exec_def bindE_def [of "io_step e g" for e g] insert_row_def)
      then obtain w2 where "insert_files h files ?w1 = (Inr (), w2)" "insert_terms terms w2 = (Inr (), w')" b
        by (auto simp: bindE_def ret_def split: prod.splits sum.splits)
      with None show ?thesis
        by (cases w) (auto dest!: insert_files_Inr insert_terms_Inr)
    next
      case (Some r)
      with assms ran show ?thesis
        by (auto simp: insert_shard_with_reconstruction_def db_exec_def bindE_def [of "io_step e g" for e g] insert_row_def ret_def)
    qed
  qed
qed

lemma shard_tx_Inr:
  assumes "shard_tx ctx h sz files terms w = (Inr b, w')"
  shows "\<exists>fs. if b then map_of (shards w) h = None \<and> w' = (with_shard ctx h sz files terms w)\<lparr>faults := fs\<rparr>
      else map_of (shards w) h \<noteq> None \<and> w' = w\<lparr>faults := fs\<rparr>"
proof -
  from assms obtain b1 w1 where i: "insert_shard_with_reconstruction h sz (ctx_user_id ctx) (ctx_api_key_id ctx) files terms w = (Inr b1, w1)"
    and r: "bindE (if b1 then record_shard_upload ctx h sz else ret ()) (\<lambda>_. ret b1) w1 = (Inr b, w')"
    unfolding shard_tx_def by (cases "insert_shard_with_reconstruction h sz (ctx_user_id ctx) (ctx_api_key_id ctx) files terms w")
      (auto simp: bindE_def [of "insert_shard_with_reconstruction h sz x y files terms" for x y] split: sum.splits)
  show ?thesis
  proof (cases b1)
    case True
    with r have "b" "usage_insert (shard_audit ctx h sz) w1 = (Inr (), w')"
      by (auto simp: bindE_def ret_def record_shard_upload_def shard_audit_def [abs_def] split: prod.splits sum.splits)
    with True insert_shard_Inr [OF i] show ?thesis
      by (cases w) (auto simp: with_shard_def dest!: usage_insert_Inr)
  next
    case False
    with r insert_shard_Inr [OF i] show ?thesis by (auto simp: bindE_def ret_def)
  qed
qed

lemma with_shard_faults:
  "(with_shard ctx h sz files terms (w\<lparr>faults := f\<rparr>))\<lparr>faults := g\<rparr> = (with_shard ctx h sz files terms w)\<lparr>faults := g\<rparr>"
  by (cases w) (simp add: with_shard_def)

lemma transaction_outcome:
  fixes w :: "'z world_scheme"
  shows "\<exists>fs. case transaction body w of
      (Inl e, w') \<Rightarrow> w' = w\<lparr>faults := fs\<rparr>
    | (Inr a, w') \<Rightarrow> (\<exists>f0 w1. body (w\<lparr>faults := f0\<rparr>) = (Inr a, w1) \<and> w' = w1\<lparr>faults := fs\<rparr>)"
proof -
  have q: "\<exists>r fs. db_query (\<lambda>_. ()) v = (r, v\<lparr>faults := fs\<rparr>)" for v :: "'z world_scheme"
    using self_faults [of v] by (auto simp: db_query_def io_step_def split: list.splits)
  obtain r0 f0 where q0: "db_query (\<lambda>_. ()) w = (r0, w\<lparr>faults := f0\<rparr>)" using q by blast
  obtain r1 w1 where b: "body (w\<lparr>faults := f0\<rparr>) = (r1, w1)" by fastforce
  obtain r2 f2 where q2: "db_query (\<lambda>_. ()) w1 = (r2, w1\<lparr>faults := f2\<rparr>)" using q by blast
  show ?thesis
  proof (cases "\<exists>a. r0 = Inr () \<and> r1 = Inr a \<and> r2 = Inr ()")
    case True
    then obtain a where "transaction body w = (Inr a, w1\<lparr>faults := f2\<rparr>)" "r1 = Inr a"
      using q0 b q2 by (auto simp: transaction_def)
    with b show ?thesis by auto
  next
    case False
    then consider e where "r0 = Inl e" | e where "r0 = Inr ()" "r1 = Inl e" | a e where "r0 = Inr ()" "r1 = Inr a" "r2 = Inl e"
      by (cases r0; cases r1; cases r2) auto
    then obtain e fs where "transaction body w = (Inl e, w\<lparr>faults := fs\<rparr>)"
      using q0 b q2 by cases (simp_all add: transaction_def rollback_def)
    then show ?thesis by auto
  qed
qed

text \<open>C7: the shard transaction is all or nothing. On any failure, and when the shard is already known,
  no table has changed; on success exactly one shard row, the files and terms of the shard, and one
  audit row were added, together.\<close>

theorem shard_commit_is_atomic:
  "\<exists>fs. case commit_shard ctx h sz files terms w of
      (Inl e, w') \<Rightarrow> w' = w\<lparr>faults := fs\<rparr>
    | (Inr False, w') \<Rightarrow> map_of (shards w) h \<noteq> None \<and> w' = w\<lparr>faults := fs\<rparr>
    | (Inr True, w') \<Rightarrow> map_of (shards w) h = None \<and> w' = (with_shard ctx h sz files terms w)\<lparr>faults := fs\<rparr>"
proof -
  have c: "commit_shard ctx h sz files terms w = transaction (shard_tx ctx h sz files terms) w"
    by (simp add: commit_shard_def shard_tx_def)
  obtain r w' where t: "transaction (shard_tx ctx h sz files terms) w = (r, w')" by fastforce
  show ?thesis
  proof (cases r)
    case (Inl e)
    with t transaction_outcome [where body = "shard_tx ctx h sz files terms" and w = w] show ?thesis by (simp add: c)
  next
    case (Inr b)
    with t transaction_outcome [where body = "shard_tx ctx h sz files terms" and w = w] obtain f0 w1 fs
      where b: "shard_tx ctx h sz files terms (w\<lparr>faults := f0\<rparr>) = (Inr b, w1)" and w': "w' = w1\<lparr>faults := fs\<rparr>"
      by auto
    from shard_tx_Inr [OF b] w' have "if b then map_of (shards w) h = None \<and> w' = (with_shard ctx h sz files terms w)\<lparr>faults := fs\<rparr>
       else map_of (shards w) h \<noteq> None \<and> w' = w\<lparr>faults := fs\<rparr>"
      by (cases b) (auto simp: with_shard_faults)
    with t Inr show ?thesis by (cases b) (auto simp: c)
  qed
qed

section \<open>Witnesses\<close>

definition toy_env :: cas_env where
  "toy_env = \<lparr>e_xet = toy_xet, e_show_id = toy_id, e_limits = default_limits\<rparr>"

definition toy_ctx :: AuthContext where
  "toy_ctx = \<lparr>ctx_api_key_id = 5, ctx_user_id = 1, ctx_scopes = [Upload, Download]\<rparr>"

lemma toy_path: "xorb_path_hash toy_xet prefix (hex_of (replicate 32 2)) = Inr (replicate 32 2)"
  using decode_hex32_hex_of [of "replicate 32 2"] by (simp add: xorb_path_hash_def toy_xet_def hash32_def)

lemma toy_check:
  assumes "redis w = (\<lambda>_. None)" and "faults w = []"
  shows "\<exists>rd. check toy_id default_limits UploadClass k w = (Inr (), w\<lparr>redis := rd\<rparr>)"
  using assms
  by (simp add: check_def eval_bucket_def io_step_def bindE_def gets_def ret_def rate_limit_lua_def refilled_def redis_get_def
      default_limits_def Let_def) blast

definition footer_env :: cas_env where
  "footer_env = toy_env\<lparr>e_xet := toy_xet\<lparr>x_xorb_object := (\<lambda>_. Some \<lparr>xo_chunk_hashes = [replicate 32 3],
     xo_unpacked_chunk_offsets = [10], xo_chunk_boundary_offsets = [18]\<rparr>)\<rparr>\<rparr>"

lemma xorb_mismatch_has_no_effect_witness:
  "upload_xorb footer_env toy_ctx ''default'' (hex_of (replicate 32 2)) (Some [1, 2]) ex_world
   = (Inl (HashMismatch (replicate 32 2) (replicate 32 0)), ex_world)"
proof (rule xorb_mismatch_has_no_effect)
  show "xorb_path_hash (e_xet footer_env) ''default'' (hex_of (replicate 32 2)) = Inr (replicate 32 2)"
    using decode_hex32_hex_of [of "replicate 32 2"]
    by (simp add: footer_env_def toy_env_def xorb_path_hash_def toy_xet_def hash32_def)
  show "read_body MAX_XORB_BYTES ''xorb_too_large'' (Some [1, 2]) = Inr [1, 2]"
    by (simp add: read_body_def MAX_XORB_BYTES_def)
  show "compute_xorb_hash_and_boundaries (e_xet footer_env) [1, 2] = Inr (replicate 32 0, [18])"
    by (simp add: compute_xorb_hash_and_boundaries_def footer_env_def toy_xet_def)
qed simp

lemma xorb_upload_idempotent_witness:
  "xorb_view (snd (upload_xorb toy_env toy_ctx ''default'' (hex_of (replicate 32 2)) (Some [1, 2]) ex_world)) = xorb_view ex_world"
  using xorb_upload_idempotent [of toy_env "''default''" "hex_of (replicate 32 2)" "replicate 32 2" ex_world "ex_xorb Pinning"]
    toy_path [of "''default''"]
  by (simp add: toy_env_def ex_world_def)

theorem acknowledged_xorb_is_kept_witness:
  "\<exists>w'. upload_xorb toy_env toy_ctx ''default'' (hex_of (replicate 32 2)) (Some [1, 2]) empty_world = (Inr True, w')
     \<and> map_of (xorb_bodies w') (replicate 32 2) = Some [1, 2]"
proof -
  obtain rd where c: "check toy_id default_limits UploadClass 5 empty_world = (Inr (), empty_world\<lparr>redis := rd\<rparr>)"
    using toy_check [of empty_world 5] by (auto simp: empty_world_def)
  have "fst (upload_xorb toy_env toy_ctx ''default'' (hex_of (replicate 32 2)) (Some [1, 2]) empty_world) = Inr True"
    using toy_path [of "''default''"] c
    by (simp add: upload_xorb_def toy_env_def toy_ctx_def bindE_def lift_res_def read_body_def MAX_XORB_BYTES_def
        verified_boundaries_def compute_xorb_hash_and_boundaries_def toy_xet_def store_xorb_def insert_pending_def
        db_exec_def db_update_def io_step_def empty_world_def discard_def cache_body_def sia_op_def finish_xorb_def
        xorbs_set_pin_state_def ret_def log_on_err_def record_xorb_upload_def usage_insert_def Let_def)
  then obtain w' where u: "upload_xorb toy_env toy_ctx ''default'' (hex_of (replicate 32 2)) (Some [1, 2]) empty_world = (Inr True, w')"
    by (metis prod.collapse)
  have p: "xorb_path_hash (e_xet toy_env) ''default'' (hex_of (replicate 32 2)) = Inr (replicate 32 2)"
    using toy_path by (simp add: toy_env_def)
  from acknowledged_xorb_is_kept [OF cas_inv_empty _ p u] u show ?thesis by (simp add: empty_world_def)
qed

lemma acknowledged_xorb_can_be_lost_witness:
  "\<exists>w' r. store_xorb toy_ctx (replicate 32 2) [1, 2] [] (empty_world\<lparr>faults := [False, True]\<rparr>) = (Inr True, w')
     \<and> map_of (xorb_bodies w') (replicate 32 2) = None
     \<and> map_of (xorbs w') (replicate 32 2) = Some r \<and> pin_state r = Pinning \<and> sia_object_id r = None"
  by (rule acknowledged_xorb_can_be_lost) (simp_all add: empty_world_def)

lemma physical_range_covers_chunks_witness:
  "pt_xorb_byte_start (physical_range [12, 20] (ex_term [] 0 [] 0 0)) = 0
   \<and> pt_xorb_byte_end (physical_range [12, 20] (ex_term [] 0 [] 0 0)) = 12"
proof -
  let ?bytes = "[4, 0, 0, 0, 0, 0, 0, 0, 9, 9, 9, 9, 0, 0, 0, 0, 0, 0, 0, 0] :: byte list"
  have "walked toy_xet ?bytes [12, 20] (length ?bytes)"
    by (auto simp: walked_def toy_xet_def less_Suc_eq Let_def)
  from physical_range_covers_chunks [OF this, of "ex_term [] 0 [] 0 0"] show ?thesis by (simp add: ex_term_def)
qed

theorem cross_check_exact_witness:
  "fst (cross_check [replicate 32 2, replicate 32 3] (ex_world\<lparr>xorb_bodies := [(replicate 32 2, [5])]\<rparr>))
   = Inl (ShardMissingXorbs [replicate 32 3])"
  using cross_check_exact [of "ex_world\<lparr>xorb_bodies := [(replicate 32 2, [5])]\<rparr>" "[replicate 32 2, replicate 32 3]"]
  by (simp add: ex_world_def empty_world_def xorb_available_def ex_xorb_def)

end
