(* ===== verification/Reconstruction.thy ===== *)
theory Reconstruction
  imports Uploads Signed_Url "HOL-Library.Char_ord"
begin

text \<open>
  The download side: \<^verbatim>\<open>handlers/reconstruction.rs\<close> (one file and a batch),
  \<^verbatim>\<open>handlers/reconstruction_v2.rs\<close> and the dedup stub \<^verbatim>\<open>handlers/dedup.rs\<close>. A reply lists the terms
  of the file and, per xorb, the coalesced byte ranges with signed URLs. The \<^verbatim>\<open>BTreeMap\<close>s of the
  replies are keyed by the hex name of the xorb. Additions on \<^verbatim>\<open>u64\<close> wrap, as in a release build.
\<close>

section \<open>Wire types\<close>

record ChunkRange =
  cr_start :: u32
  cr_end :: u32

record UrlRange =
  ur_start :: u64
  ur_end_inclusive :: u64

record ReconstructionTerm =
  rt_hash :: string
  rt_unpacked_length :: u64
  rt_range :: ChunkRange

record FetchInfoEntry =
  fi_range :: ChunkRange
  fi_url :: string
  fi_url_range :: UrlRange

record QueryReconstructionResponse =
  qr_offset_into_first_range :: u64
  qr_terms :: "ReconstructionTerm list"
  qr_fetch_info :: "(string \<times> FetchInfoEntry list) list"

record RangeSegment =
  rs_chunk_range :: ChunkRange
  rs_url_range :: UrlRange

record XorbFetchInfoV2 =
  xf_url :: string
  xf_ranges :: "RangeSegment list"

record QueryReconstructionResponseV2 =
  q2_offset_into_first_range :: u64
  q2_terms :: "ReconstructionTerm list"
  q2_fetch_info :: "(string \<times> XorbFetchInfoV2 list) list"

record TermSpan =
  ts_byte_start :: u64
  ts_byte_end :: u64
  ts_chunk_start :: u32
  ts_chunk_end :: u32

record recon_env = cas_env +
  e_url :: url_ext
  e_signer :: UrlSigner
  e_v2_enabled :: bool

section \<open>Reading the request\<close>

definition parse_file_id_query :: "string \<Rightarrow> string list" where
  "parse_file_id_query raw =
     filter (\<lambda>s. s \<noteq> []) (concat (map (split_on (CHR '',''))
       (List.map_filter (strip_prefix ''file_id='') (split_on (CHR ''&'') raw))))"

definition reconstruction_range_start :: "string option \<Rightarrow> u64 option" where
  "reconstruction_range_start range_header =
     (case range_header of None \<Rightarrow> None | Some v \<Rightarrow>
     (case header_to_str v of None \<Rightarrow> None | Some raw \<Rightarrow>
     (case strip_prefix ''bytes='' (trim raw) of None \<Rightarrow> None | Some spec \<Rightarrow>
        parse_u64 (trim (hd (split_on (CHR ''-'') spec))))))"

text \<open>The guard both single-file handlers share: the request starts at or after the end of the file.\<close>

definition starts_past_end :: "string option \<Rightarrow> ReconstructionRow \<Rightarrow> bool" where
  "starts_past_end range_header row =
     (case reconstruction_range_start range_header of
        None \<Rightarrow> False | Some start \<Rightarrow> as_u64 (max (row_total_size row) 0) \<le> start)"

definition unix_now :: "int \<Rightarrow> u64" where
  "unix_now clock_ms = (if clock_ms < 0 then 0 else of_int (clock_ms div 1000))"

section \<open>Building the reply\<close>

definition reply_term :: "url_ext \<Rightarrow> Term \<Rightarrow> ReconstructionTerm" where
  "reply_term U t =
     \<lparr>rt_hash = x_merkle_hex U (t_xorb_hash t),
      rt_unpacked_length = as_u64 (t_unpacked_end t - t_unpacked_start t),
      rt_range = \<lparr>cr_start = as_u32 (t_xorb_start t), cr_end = as_u32 (t_xorb_end t)\<rparr>\<rparr>"

definition chunk_span :: "Term \<Rightarrow> TermSpan" where
  "chunk_span t = \<lparr>ts_byte_start = as_u64 (t_xorb_byte_start t), ts_byte_end = as_u64 (t_xorb_byte_end t),
     ts_chunk_start = as_u32 (t_xorb_start t), ts_chunk_end = as_u32 (t_xorb_end t)\<rparr>"

definition chunk_spans_per_xorb :: "Term list \<Rightarrow> (hash \<times> TermSpan list) list" where
  "chunk_spans_per_xorb terms =
     fold (\<lambda>t. bt_upsert (t_xorb_hash t) (push_entry (chunk_span t))) terms []"

text \<open>One pass over the spans of the xorb, widening the pair of optional bounds.\<close>

definition widen :: "ByteRange \<Rightarrow> TermSpan \<Rightarrow> u32 option \<times> u32 option \<Rightarrow> u32 option \<times> u32 option" where
  "widen br ts acc =
     (let merged_end_exclusive = br_end_inclusive br + 1 in
      if br_start br \<le> ts_byte_start ts \<and> ts_byte_end ts \<le> merged_end_exclusive
      then (Some (case fst acc of None \<Rightarrow> ts_chunk_start ts | Some x \<Rightarrow> min x (ts_chunk_start ts)),
            Some (case snd acc of None \<Rightarrow> ts_chunk_end ts | Some x \<Rightarrow> max x (ts_chunk_end ts)))
      else acc)"

definition chunk_union :: "TermSpan list \<Rightarrow> ByteRange \<Rightarrow> ChunkRange" where
  "chunk_union spans br =
     (case fold (widen br) spans (None, None) of
        (cs, ce) \<Rightarrow> \<lparr>cr_start = (case cs of None \<Rightarrow> 0 | Some x \<Rightarrow> x),
                     cr_end = (case ce of None \<Rightarrow> 0 | Some x \<Rightarrow> x)\<rparr>)"

definition spans_of :: "(hash \<times> TermSpan list) list \<Rightarrow> hash \<Rightarrow> TermSpan list" where
  "spans_of m h = (case map_of m h of None \<Rightarrow> [] | Some s \<Rightarrow> s)"

definition url_range_of :: "ByteRange \<Rightarrow> UrlRange" where
  "url_range_of br = \<lparr>ur_start = br_start br, ur_end_inclusive = br_end_inclusive br\<rparr>"

definition fetch_entry ::
  "url_ext \<Rightarrow> UrlSigner \<Rightarrow> uuid \<Rightarrow> u64 \<Rightarrow> hash \<Rightarrow> TermSpan list \<Rightarrow> ByteRange \<Rightarrow> FetchInfoEntry" where
  "fetch_entry U S k now h spans br =
     \<lparr>fi_range = chunk_union spans br,
      fi_url = mint_v1 U S h (Some (br_start br, br_end_inclusive br)) k now,
      fi_url_range = url_range_of br\<rparr>"

definition build_response ::
  "url_ext \<Rightarrow> UrlSigner \<Rightarrow> ReconstructionRow \<Rightarrow> uuid \<Rightarrow> u64 \<Rightarrow> QueryReconstructionResponse" where
  "build_response U S row k now =
     (let spans = chunk_spans_per_xorb (row_terms row) in
      \<lparr>qr_offset_into_first_range = 0,
       qr_terms = map (reply_term U) (row_terms row),
       qr_fetch_info = fold (\<lambda>(h, brs). bt_insert (x_merkle_hex U h)
           (map (fetch_entry U S k now h (spans_of spans h)) brs))
         (coalesce_terms_by_xorb (row_terms row)) []\<rparr>)"

text \<open>The second version: one URL per xorb. \<open>None\<close> is the panic of the minter on an empty list.\<close>

definition range_segment :: "TermSpan list \<Rightarrow> ByteRange \<Rightarrow> RangeSegment" where
  "range_segment spans br = \<lparr>rs_chunk_range = chunk_union spans br, rs_url_range = url_range_of br\<rparr>"

fun build_v2_fetch_info ::
  "url_ext \<Rightarrow> UrlSigner \<Rightarrow> uuid \<Rightarrow> u64 \<Rightarrow> (hash \<times> TermSpan list) list \<Rightarrow> (hash \<times> ByteRange list) list
     \<Rightarrow> (string \<times> XorbFetchInfoV2 list) list \<Rightarrow> (string \<times> XorbFetchInfoV2 list) list option" where
  "build_v2_fetch_info U S k now spans [] acc = Some acc"
| "build_v2_fetch_info U S k now spans ((h, brs) # rest) acc =
     (case mint_v1_multi_range U S h (map (\<lambda>br. (br_start br, br_end_inclusive br)) brs) k now of
        None \<Rightarrow> None
      | Some url \<Rightarrow> build_v2_fetch_info U S k now spans rest
          (bt_insert (x_merkle_hex U h)
             [\<lparr>xf_url = url, xf_ranges = map (range_segment (spans_of spans h)) brs\<rparr>] acc))"

definition build_v2_response ::
  "url_ext \<Rightarrow> UrlSigner \<Rightarrow> ReconstructionRow \<Rightarrow> uuid \<Rightarrow> u64 \<Rightarrow> QueryReconstructionResponseV2 option" where
  "build_v2_response U S row k now =
     map_option (\<lambda>fi. \<lparr>q2_offset_into_first_range = 0, q2_terms = map (reply_term U) (row_terms row),
         q2_fetch_info = fi\<rparr>)
       (build_v2_fetch_info U S k now (chunk_spans_per_xorb (row_terms row))
          (coalesce_terms_by_xorb (row_terms row)) [])"

section \<open>Handlers\<close>

definition query_reconstruction_v1 ::
  "'v recon_env_scheme \<Rightarrow> AuthContext \<Rightarrow> string \<Rightarrow> string option \<Rightarrow> ('z, AppError, QueryReconstructionResponse) io" where
  "query_reconstruction_v1 E ctx file_id_hex range_header =
     bindE (lift_res (ok_or (BadRequest ''invalid_file_id'') (decode_file_id_hex file_id_hex))) (\<lambda>file_id.
     bindE (check (e_show_id E) (e_limits E) DownloadClass (ctx_api_key_id ctx)) (\<lambda>_.
     bindE (get_reconstruction file_id) (\<lambda>found.
     bindE (lift_res (ok_or NotFound found)) (\<lambda>row.
     if starts_past_end range_header row then raise RangeNotSatisfiable
     else
     bindE (gets (\<lambda>w. unix_now (clock w))) (\<lambda>now.
     bindE (log_on_err (record_reconstruction ctx file_id)) (\<lambda>_.
     ret (build_response (e_url E) (e_signer E) row (ctx_api_key_id ctx) now)))))))"

fun decode_file_ids :: "string list \<Rightarrow> hash list \<Rightarrow> (hash \<times> string) list \<Rightarrow> AppError + hash list \<times> (hash \<times> string) list" where
  "decode_file_ids [] ids names = Inr (ids, names)"
| "decode_file_ids (s # ss) ids names =
     (case decode_file_id_hex s of
        None \<Rightarrow> Inl (BadRequest ''invalid_file_id'')
      | Some b \<Rightarrow> decode_file_ids ss (ids @ [b]) (bt_insert b s names))"

fun batch_entries ::
  "'v recon_env_scheme \<Rightarrow> AuthContext \<Rightarrow> u64 \<Rightarrow> (hash \<times> string) list \<Rightarrow> (hash \<times> ReconstructionRow) list
     \<Rightarrow> (string \<times> QueryReconstructionResponse) list
     \<Rightarrow> ('z, AppError, (string \<times> QueryReconstructionResponse) list) io" where
  "batch_entries E ctx now names [] out = ret out"
| "batch_entries E ctx now names ((fid, row) # rows) out =
     (let hex = (case map_of names fid of Some s \<Rightarrow> s | None \<Rightarrow> x_merkle_hex (e_url E) fid);
          resp = build_response (e_url E) (e_signer E) row (ctx_api_key_id ctx) now
      in bindE (log_on_err (record_reconstruction ctx fid)) (\<lambda>_.
           batch_entries E ctx now names rows (bt_insert hex resp out)))"

definition query_reconstructions_batch_v1 ::
  "'v recon_env_scheme \<Rightarrow> AuthContext \<Rightarrow> string option \<Rightarrow>
     ('z, AppError, (string \<times> QueryReconstructionResponse) list) io" where
  "query_reconstructions_batch_v1 E ctx raw =
     bindE (lift_res (decode_file_ids (parse_file_id_query (case raw of None \<Rightarrow> [] | Some q \<Rightarrow> q)) [] []))
       (\<lambda>(file_ids, names).
     bindE (check (e_show_id E) (e_limits E) DownloadClass (ctx_api_key_id ctx)) (\<lambda>_.
     bindE (get_reconstructions_batch file_ids) (\<lambda>rows.
     bindE (gets (\<lambda>w. unix_now (clock w))) (\<lambda>now.
     batch_entries E ctx now names rows []))))"

text \<open>\<open>V2Panic\<close> would be the minter's assertion failing inside the handler.\<close>

datatype v2_outcome = V2Disabled | V2Reply QueryReconstructionResponseV2 | V2Panic

definition record_usage_reconstruction_v2 :: "AuthContext \<Rightarrow> hash \<Rightarrow> ('z, AppError, unit) io" where
  "record_usage_reconstruction_v2 ctx fid = discard (usage_insert (\<lambda>now.
     \<lparr>u_event = Reconstruction, u_api_key_id = ctx_api_key_id ctx, u_user_id = ctx_user_id ctx,
      u_xorb_hash = Some fid, u_shard_hash = None, u_file_id = None, u_bytes = Some 0, u_occurred_at = now\<rparr>))"

definition query_reconstruction_v2 ::
  "'v recon_env_scheme \<Rightarrow> AuthContext \<Rightarrow> string \<Rightarrow> string option \<Rightarrow> ('z, AppError, v2_outcome) io" where
  "query_reconstruction_v2 E ctx file_id_hex range_header =
     bindE (check (e_show_id E) (e_limits E) DownloadClass (ctx_api_key_id ctx)) (\<lambda>_.
     if \<not> e_v2_enabled E then ret V2Disabled
     else
     bindE (lift_res (ok_or (BadRequest ''invalid_file_id'') (decode_file_id_hex file_id_hex))) (\<lambda>file_id.
     bindE (get_reconstruction file_id) (\<lambda>found.
     bindE (lift_res (ok_or NotFound found)) (\<lambda>row.
     if starts_past_end range_header row then raise RangeNotSatisfiable
     else
     bindE (gets (\<lambda>w. unix_now (clock w))) (\<lambda>now.
     case build_v2_response (e_url E) (e_signer E) row (ctx_api_key_id ctx) now of
       None \<Rightarrow> ret V2Panic
     | Some resp \<Rightarrow>
         bindE (record_usage_reconstruction_v2 ctx file_id) (\<lambda>_. ret (V2Reply resp)))))))"

text \<open>The dedup query is a stub: 404 for everybody who is authenticated.\<close>

definition query_dedup_shard :: "AuthContext \<Rightarrow> string \<Rightarrow> string \<Rightarrow> ('z, AppError, nat \<times> json) io" where
  "query_dedup_shard ctx prefix h = ret (404, JObj [(''error'', JStr ''not_found'')])"


section \<open>The covering chunk range\<close>

definition inside :: "ByteRange \<Rightarrow> TermSpan \<Rightarrow> bool" where
  "inside br ts \<longleftrightarrow> br_start br \<le> ts_byte_start ts \<and> ts_byte_end ts \<le> br_end_inclusive br + 1"

lemma widen_inside: "inside br ts \<Longrightarrow> widen br ts (Some a, Some b)
    = (Some (min a (ts_chunk_start ts)), Some (max b (ts_chunk_end ts)))"
  by (simp add: widen_def inside_def)

lemma widen_outside: "\<not> inside br ts \<Longrightarrow> widen br ts acc = acc"
  by (auto simp: widen_def inside_def Let_def)

lemma fold_widen_grows:
  assumes "fold (widen br) spans (Some a, Some b) = (cs, ce)"
  shows "\<exists>x y. cs = Some x \<and> ce = Some y \<and> x \<le> a \<and> b \<le> y"
  using assms
proof (induction spans arbitrary: a b)
  case (Cons ts spans)
  show ?case
  proof (cases "inside br ts")
    case True
    then have "fold (widen br) spans (Some (min a (ts_chunk_start ts)), Some (max b (ts_chunk_end ts))) = (cs, ce)"
      using Cons.prems by (simp add: widen_inside)
    from Cons.IH [OF this] show ?thesis by auto
  next
    case False
    then have "fold (widen br) spans (Some a, Some b) = (cs, ce)"
      using Cons.prems by (simp add: widen_outside)
    then show ?thesis by (rule Cons.IH)
  qed
qed auto

lemma fold_widen_covers:
  assumes "fold (widen br) spans acc = (cs, ce)" and "(fst acc = None) = (snd acc = None)"
    and "ts \<in> set spans" and "inside br ts"
  shows "\<exists>x y. cs = Some x \<and> ce = Some y \<and> x \<le> ts_chunk_start ts \<and> ts_chunk_end ts \<le> y"
  using assms
proof (induction spans arbitrary: acc)
  case (Cons t spans)
  have both: "(fst (widen br t acc) = None) = (snd (widen br t acc) = None)"
    using Cons.prems(2) by (auto simp: widen_def Let_def)
  show ?case
  proof (cases "ts = t")
    case True
    obtain a b where w: "widen br t acc = (Some a, Some b)" "a \<le> ts_chunk_start t" "ts_chunk_end t \<le> b"
      using Cons.prems(4) True by (auto simp: widen_def inside_def Let_def split: option.split)
    then have "fold (widen br) spans (Some a, Some b) = (cs, ce)" using Cons.prems(1) by simp
    from fold_widen_grows [OF this] w True show ?thesis by (auto intro: order_trans)
  next
    case False
    with Cons.prems have "fold (widen br) spans (widen br t acc) = (cs, ce)" "ts \<in> set spans" by auto
    then show ?thesis using Cons.IH [OF _ both] Cons.prems(4) by blast
  qed
qed simp

lemma chunk_union_covers:
  assumes "ts \<in> set spans" and "inside br ts"
  shows "cr_start (chunk_union spans br) \<le> ts_chunk_start ts" "ts_chunk_end ts \<le> cr_end (chunk_union spans br)"
proof -
  obtain cs ce where f: "fold (widen br) spans (None, None) = (cs, ce)" by fastforce
  from fold_widen_covers [OF f _ assms]
  show "cr_start (chunk_union spans br) \<le> ts_chunk_start ts" "ts_chunk_end ts \<le> cr_end (chunk_union spans br)"
    by (auto simp: chunk_union_def f)
qed

section \<open>The fetch map\<close>

lemma spans_of_group:
  "spans_of (chunk_spans_per_xorb terms) x = map chunk_span (filter (\<lambda>t. t_xorb_hash t = x) terms)"
  unfolding spans_of_def chunk_spans_per_xorb_def btv.lookup_group by (simp add: Let_def)

text \<open>Every term lies inside one of the ranges its xorb was coalesced to.\<close>

lemma term_inside_range:
  assumes "\<forall>t\<in>set terms. span_ok t" and "t \<in> set terms"
    and "(t_xorb_hash t, brs) \<in> set (coalesce_terms_by_xorb terms)"
  shows "\<exists>br\<in>set brs. br_start br \<le> fst (term_span t) \<and> snd (term_span t) \<le> br_end_inclusive br + 1
           \<and> br_start br \<le> br_end_inclusive br \<and> br_end_inclusive br \<noteq> - 1"
proof -
  let ?spans = "map term_span (filter (\<lambda>u. t_xorb_hash u = t_xorb_hash t) terms)"
  have ok: "\<forall>(s, e)\<in>set ?spans. s < e" by (rule term_spans_ok [OF assms(1)])
  have "term_span t \<in> set ?spans" using assms(2) by auto
  from merge_spans_contains [OF this]
  obtain z where z: "z \<in> set (merge_spans ?spans)" "fst z \<le> fst (term_span t)" "snd (term_span t) \<le> snd z" by blast
  have "fst z < snd z" using merge_spans_bytes(2) [OF ok] z(1) by (auto simp: separated_def)
  note inclusive_end [OF this]
  moreover have "to_byte_range z \<in> set brs" using z(1) coalesce_memberD(1) [OF assms(3)] by simp
  ultimately show ?thesis using z by (intro bexI [of _ "to_byte_range z"]) (auto simp: to_byte_range_def split_beta)
qed

lemma range_ordered:
  assumes "\<forall>t\<in>set terms. span_ok t" and "(x, brs) \<in> set (coalesce_terms_by_xorb terms)" and "br \<in> set brs"
  shows "br_start br \<le> br_end_inclusive br"
proof -
  let ?spans = "map term_span (filter (\<lambda>u. t_xorb_hash u = x) terms)"
  obtain z where z: "z \<in> set (merge_spans ?spans)" "br = to_byte_range z"
    using assms(3) coalesce_memberD(1) [OF assms(2)] by auto
  have "fst z < snd z"
    using merge_spans_bytes(2) [OF term_spans_ok [OF assms(1)], of x] z(1) by (auto simp: separated_def)
  from inclusive_end [OF this] show ?thesis by (simp add: z(2) to_byte_range_def split_beta)
qed


lemma fetch_names_distinct:
  assumes "inj_on (x_merkle_hex U) (Collect hash32)" and "\<forall>t\<in>set terms. hash32 (t_xorb_hash t)"
  shows "distinct (map (\<lambda>p. x_merkle_hex U (fst p)) (coalesce_terms_by_xorb terms))"
proof -
  let ?m = "coalesce_terms_by_xorb terms"
  have "set (map fst ?m) \<subseteq> Collect hash32"
    using coalesce_memberD(2) assms(2) by fastforce
  then have "inj_on (x_merkle_hex U) (set (map fst ?m))" by (rule inj_on_subset [OF assms(1)])
  then have "distinct (map (x_merkle_hex U) (map fst ?m))"
    using bt_invar_distinct [OF bt_invar_coalesce [of terms]] by (simp only: distinct_map [of "x_merkle_hex U"] simp_thms)
  then show ?thesis by (simp add: comp_def)
qed

lemma fold_fetch_lookup:
  assumes "inj_on (x_merkle_hex U) (Collect hash32)" and "\<forall>t\<in>set terms. hash32 (t_xorb_hash t)"
  shows "map_of (fold (\<lambda>(h, brs). bt_insert (x_merkle_hex U h) (f h brs)) (coalesce_terms_by_xorb terms) []) s
    = map_of (map (\<lambda>(h, brs). (x_merkle_hex U h, f h brs)) (coalesce_terms_by_xorb terms)) s"
  using bt.lookup_fold_insert [OF bt.invar_empty fetch_names_distinct [OF assms], of "\<lambda>p. f (fst p) (snd p)" s]
  by (simp add: case_prod_unfold split: option.splits)

lemma fetch_info_lookup:
  assumes "inj_on (x_merkle_hex U) (Collect hash32)" and "\<forall>t\<in>set terms. hash32 (t_xorb_hash t)"
    and "(h, brs) \<in> set (coalesce_terms_by_xorb terms)"
  shows "map_of (fold (\<lambda>(h, brs). bt_insert (x_merkle_hex U h) (f h brs)) (coalesce_terms_by_xorb terms) []) (x_merkle_hex U h)
    = Some (f h brs)"
proof -
  have "distinct (map fst (map (\<lambda>(h, brs). (x_merkle_hex U h, f h brs)) (coalesce_terms_by_xorb terms)))"
    using fetch_names_distinct [OF assms(1,2)] by (simp add: comp_def split_beta)
  then show ?thesis
    unfolding fold_fetch_lookup [OF assms(1,2)] using assms(3) by (intro map_of_is_SomeI) (auto intro: rev_image_eqI)
qed

lemma fetch_info_memberD:
  assumes "inj_on (x_merkle_hex U) (Collect hash32)" and "\<forall>t\<in>set terms. hash32 (t_xorb_hash t)"
    and "map_of (fold (\<lambda>(h, brs). bt_insert (x_merkle_hex U h) (f h brs)) (coalesce_terms_by_xorb terms) []) s = Some v"
  shows "\<exists>h brs. (h, brs) \<in> set (coalesce_terms_by_xorb terms) \<and> s = x_merkle_hex U h \<and> v = f h brs"
  using map_of_SomeD [OF assms(3) [unfolded fold_fetch_lookup [OF assms(1,2)]]] by auto


section \<open>What a reply grants\<close>

text \<open>What the builders rely on in the rows: spans the database asserts, hashes of 32 bytes, and a hex
  name per hash (the codec of \<^verbatim>\<open>MerkleHash\<close> is injective).\<close>

definition servable :: "url_ext \<Rightarrow> UrlSigner \<Rightarrow> Term list \<Rightarrow> bool" where
  "servable U S terms \<longleftrightarrow> url_ext_laws U (gateway_base S) \<and> inj_on (x_merkle_hex U) (Collect hash32)
     \<and> (\<forall>t\<in>set terms. span_ok t \<and> hash32 (t_xorb_hash t))"

lemma servableD:
  assumes "servable U S terms"
  shows "url_ext_laws U (gateway_base S)" "inj_on (x_merkle_hex U) (Collect hash32)"
    "\<forall>t\<in>set terms. span_ok t" "\<forall>t\<in>set terms. hash32 (t_xorb_hash t)"
  using assms by (auto simp: servable_def)

lemma coalesce_hash32:
  "servable U S terms \<Longrightarrow> (h, brs) \<in> set (coalesce_terms_by_xorb terms) \<Longrightarrow> hash32 h"
  using coalesce_memberD(2) [of h brs terms] servableD(4) by blast

lemma v1_url_grants:
  assumes "servable U S terms" and "(h, brs) \<in> set (coalesce_terms_by_xorb terms)" and "br \<in> set brs"
    and "now' < saturating_add now (default_ttl_secs S)"
  shows "url_grants (U, S) (mint_v1 U S h (Some (br_start br, br_end_inclusive br)) k now) now'
    = Some (x_merkle_hex U h, k, [(br_start br, br_end_inclusive br)])"
  using signer.mint_range_grants [of "(U, S)" h "br_start br" "br_end_inclusive br" now' now k]
    servableD(1) [OF assms(1)] coalesce_hash32 [OF assms(1,2)]
    range_ordered [OF servableD(3) [OF assms(1)] assms(2,3)] assms(4)
  by simp

lemma term_has_ranges:
  assumes "t \<in> set terms"
  obtains brs where "(t_xorb_hash t, brs) \<in> set (coalesce_terms_by_xorb terms)"
proof -
  have "map_of (coalesce_terms_by_xorb terms) (t_xorb_hash t) \<noteq> None"
    using assms by (auto simp: coalesce_lookup Let_def filter_empty_conv)
  then show ?thesis using that map_of_SomeD by fastforce
qed

lemma uint_span:
  assumes "span_ok t"
  shows "uint (fst (term_span t)) = t_xorb_byte_start t" "uint (snd (term_span t)) = t_xorb_byte_end t"
  using assms by (simp_all add: span_ok_def term_span_def uint_as_u64)

lemma uint_inc: "(b::u64) \<noteq> - 1 \<Longrightarrow> uint (b + 1) = uint b + 1"
proof -
  assume "b \<noteq> - 1"
  then have "1 + b \<noteq> 0" by (metis add_eq_0_iff)
  from unatSuc [OF this] show ?thesis by (simp only: uint_nat add.commute [of b])
qed

text \<open>C2: every term of a V1 reply can be fetched, when the stored terms have non-empty byte ranges (\<open>servable\<close>). Under the hex name it carries there is an entry whose
  chunk range contains the chunk range of the term and whose byte range contains its bytes, and
  until it expires the URL of that entry verifies for exactly that xorb, that key and that range.\<close>

theorem every_term_is_fetchable:
  assumes "servable U S (row_terms row)" and "t \<in> set (row_terms row)"
    and "now' < saturating_add now (default_ttl_secs S)"
  shows "\<exists>es e. map_of (qr_fetch_info (build_response U S row k now)) (rt_hash (reply_term U t)) = Some es \<and> e \<in> set es
    \<and> cr_start (fi_range e) \<le> cr_start (rt_range (reply_term U t))
    \<and> cr_end (rt_range (reply_term U t)) \<le> cr_end (fi_range e)
    \<and> uint (ur_start (fi_url_range e)) \<le> t_xorb_byte_start t
    \<and> t_xorb_byte_end t \<le> uint (ur_end_inclusive (fi_url_range e)) + 1
    \<and> url_grants (U, S) (fi_url e) now'
        = Some (rt_hash (reply_term U t), k, [(ur_start (fi_url_range e), ur_end_inclusive (fi_url_range e))])"
proof -
  let ?terms = "row_terms row" and ?h = "t_xorb_hash t"
  note s = servableD [OF assms(1)]
  obtain brs where m: "(?h, brs) \<in> set (coalesce_terms_by_xorb ?terms)" using term_has_ranges [OF assms(2)] .
  from term_inside_range [OF s(3) assms(2) m] obtain br where br: "br \<in> set brs"
    "br_start br \<le> fst (term_span t)" "snd (term_span t) \<le> br_end_inclusive br + 1" "br_end_inclusive br \<noteq> - 1"
    by blast
  let ?spans = "spans_of (chunk_spans_per_xorb ?terms) ?h"
  have c: "chunk_span t \<in> set ?spans" "inside br (chunk_span t)"
    using assms(2) br by (auto simp: spans_of_group inside_def chunk_span_def term_span_def)
  let ?e = "fetch_entry U S k now ?h ?spans br"
  have "map_of (qr_fetch_info (build_response U S row k now)) (x_merkle_hex U ?h)
      = Some (map (fetch_entry U S k now ?h ?spans) brs)"
    using fetch_info_lookup [OF s(2,4) m, of "\<lambda>h. map (fetch_entry U S k now h (spans_of (chunk_spans_per_xorb ?terms) h))"]
    by (simp add: build_response_def)
  moreover have "uint (br_start br) \<le> t_xorb_byte_start t" "t_xorb_byte_end t \<le> uint (br_end_inclusive br) + 1"
    using br(2,3) uint_span [of t] uint_inc [OF br(4)] s(3) assms(2) by (auto simp: word_le_def)
  ultimately show ?thesis
    using br(1) chunk_union_covers [OF c] v1_url_grants [OF assms(1) m br(1) assms(3), of k]
    by (intro exI [of _ "map (fetch_entry U S k now ?h ?spans) brs"] exI [of _ ?e])
      (simp add: reply_term_def fetch_entry_def url_range_of_def chunk_span_def)
qed


text \<open>The bytes the holder of a URL may read.\<close>

definition granted_bytes :: "(string \<times> uuid \<times> (u64 \<times> u64) list) option \<Rightarrow> u64 set" where
  "granted_bytes g = (case g of None \<Rightarrow> {} | Some (_, _, segs) \<Rightarrow> \<Union>(s, e)\<in>set segs. {s..e})"

text \<open>C3: a V1 reply grants nothing but the file, when every stored term of the file has a non-empty byte range
  (\<open>servable\<close>). Each key of the fetch map is then the hex name of a xorb of the file, and together its URLs, until they
  expire, open exactly the bytes of that xorb the terms of the file use. A term stored with the empty range of an external
  xorb is outside the condition: its URL is open from byte 0 to the end of 64 bits (\<open>empty_span_grants_everything\<close>).\<close>

theorem urls_grant_only_the_file:
  assumes "servable U S (row_terms row)" and "now' < saturating_add now (default_ttl_secs S)"
    and "map_of (qr_fetch_info (build_response U S row k now)) name = Some es"
  shows "\<exists>h. name = x_merkle_hex U h \<and> h \<in> t_xorb_hash ` set (row_terms row)
    \<and> (\<Union>e\<in>set es. granted_bytes (url_grants (U, S) (fi_url e) now')) = term_bytes h (row_terms row)"
proof -
  let ?terms = "row_terms row"
  note s = servableD [OF assms(1)]
  let ?f = "\<lambda>h. map (fetch_entry U S k now h (spans_of (chunk_spans_per_xorb ?terms) h))"
  from fetch_info_memberD [OF s(2,4), of ?f name es] assms(3)
  obtain h brs where m: "(h, brs) \<in> set (coalesce_terms_by_xorb ?terms)" "name = x_merkle_hex U h" "es = ?f h brs"
    by (auto simp: build_response_def Let_def)
  have "(\<Union>e\<in>set es. granted_bytes (url_grants (U, S) (fi_url e) now')) = range_bytes brs"
    using v1_url_grants [OF assms(1) m(1) _ assms(2), of _ k]
    by (auto simp: m(3) fetch_entry_def granted_bytes_def range_bytes_def)
  also have "\<dots> = term_bytes h ?terms" by (rule coalesced_bytes [OF s(3) m(1)])
  finally show ?thesis using m(2) coalesce_memberD(2) [OF m(1)] by blast
qed

text \<open>The empty range of an external xorb does grant more: alone in its file, the reply opens every byte from 0 to \<open>2 ^ 64 - 1\<close>.\<close>

lemma empty_span_grants_everything:
  assumes "url_ext_laws U (gateway_base S)" and "hash32 (t_xorb_hash t)" and "row_terms row = [t]"
    and "t_xorb_byte_start t = 0" and "t_xorb_byte_end t = 0" and "now' < saturating_add now (default_ttl_secs S)"
  shows "\<exists>e. map_of (qr_fetch_info (build_response U S row k now)) (x_merkle_hex U (t_xorb_hash t)) = Some [e]
    \<and> granted_bytes (url_grants (U, S) (fi_url e) now') = UNIV"
proof -
  let ?br = "\<lparr>br_start = 0, br_end_inclusive = - 1\<rparr>"
  let ?e = "fetch_entry U S k now (t_xorb_hash t) (spans_of (chunk_spans_per_xorb [t]) (t_xorb_hash t)) ?br"
  have info: "map_of (qr_fetch_info (build_response U S row k now)) (x_merkle_hex U (t_xorb_hash t)) = Some [?e]"
    using coalesce_empty_span_wraps [OF assms(4,5)] assms(3) by (simp add: build_response_def Let_def)
  have "url_grants (U, S) (fi_url ?e) now' = Some (x_merkle_hex U (t_xorb_hash t), k, [(0, - 1)])"
    using signer.mint_range_grants [of "(U, S)" "t_xorb_hash t" 0 "- 1" now' now k] assms(1,2,6) by (simp add: fetch_entry_def)
  moreover have "{0..(- 1) :: u64} = UNIV" by (auto intro: word_order.extremum)
  ultimately show ?thesis using info by (auto simp: granted_bytes_def)
qed

lemma coalesced_ne: "(x, brs) \<in> set (coalesce_terms_by_xorb terms) \<Longrightarrow> brs \<noteq> []"
  using coalesce_memberD [of x brs terms] by (auto simp: merge_spans_Nil_iff filter_empty_conv)

lemma build_v2_fetch_info_fold:
  assumes "\<forall>(h, brs)\<in>set m. brs \<noteq> []"
  shows "build_v2_fetch_info U S k now spans m acc =
    Some (fold (\<lambda>(h, brs). bt_insert (x_merkle_hex U h)
      [\<lparr>xf_url = the (mint_v1_multi_range U S h (map (\<lambda>br. (br_start br, br_end_inclusive br)) brs) k now),
        xf_ranges = map (range_segment (spans_of spans h)) brs\<rparr>]) m acc)"
  using assms
proof (induction m arbitrary: acc)
  case (Cons p m)
  obtain h brs where p: "p = (h, brs)" by fastforce
  then have "mint_v1_multi_range U S h (map (\<lambda>br. (br_start br, br_end_inclusive br)) brs) k now \<noteq> None"
    using Cons.prems by (simp add: mint_v1_multi_range_def Let_def)
  with Cons p show ?case by auto
qed simp

text \<open>The entry of a xorb in the two replies: one V2 entry that lists the chunk and byte ranges of the V1
  entries in their order, with one URL for all the ranges their URLs grant.\<close>

definition entries_agree ::
  "url_ext \<Rightarrow> UrlSigner \<Rightarrow> uuid \<Rightarrow> u64 \<Rightarrow> string \<Rightarrow> FetchInfoEntry list option \<Rightarrow> XorbFetchInfoV2 list option \<Rightarrow> bool" where
  "entries_agree U S k now' name v1 v2 =
     (case v1 of
        None \<Rightarrow> v2 = None
      | Some es \<Rightarrow> (case v2 of Some [x] \<Rightarrow>
            map (\<lambda>s. (rs_chunk_range s, rs_url_range s)) (xf_ranges x) = map (\<lambda>e. (fi_range e, fi_url_range e)) es
          \<and> url_grants (U, S) (xf_url x) now'
              = Some (name, k, concat (map (\<lambda>e. snd (snd (the (url_grants (U, S) (fi_url e) now')))) es))
        | _ \<Rightarrow> False))"

lemma xorb_entries_agree:
  assumes "servable U S terms" and "(h, brs) \<in> set (coalesce_terms_by_xorb terms)"
    and "now' < saturating_add now (default_ttl_secs S)"
  shows "entries_agree U S k now' (x_merkle_hex U h) (Some (map (fetch_entry U S k now h spans) brs))
    (Some [\<lparr>xf_url = the (mint_v1_multi_range U S h (map (\<lambda>br. (br_start br, br_end_inclusive br)) brs) k now),
            xf_ranges = map (range_segment spans) brs\<rparr>])"
proof -
  let ?seg = "\<lambda>br. (br_start br, br_end_inclusive br)"
  note s = servableD [OF assms(1)]
  have "\<exists>u. mint_v1_multi_range U S h (map ?seg brs) k now = Some u
      \<and> url_grants (U, S) u now' = Some (x_merkle_hex U h, k, map ?seg brs)"
    using signer.mint_multi_grants [of "(U, S)" h "map ?seg brs" now' now k] s(1) coalesce_hash32 [OF assms(1,2)]
      coalesced_ne [OF assms(2)] range_ordered [OF s(3) assms(2)] assms(3) by (simp add: list_all_iff)
  moreover have "concat (map (\<lambda>e. snd (snd (the (url_grants (U, S) (fi_url e) now')))) (map (fetch_entry U S k now h spans) brs))
      = concat (map (\<lambda>br. [?seg br]) brs)"
    using v1_url_grants [OF assms(1,2) _ assms(3), of _ k]
    by (simp add: comp_def fetch_entry_def cong: map_cong)
  ultimately show ?thesis
    by (auto simp: entries_agree_def range_segment_def fetch_entry_def)
qed

text \<open>C22: the two versions of the protocol agree on files whose terms have non-empty byte ranges (\<open>servable\<close>), as long as
  the URLs have not expired. The V2 builder never panics; it has the same terms and
  the same keys; under each key it has one entry that lists the chunk and byte ranges of the V1
  entries in their order, and its single URL grants, for the same xorb and key, exactly the list of
  the ranges the V1 URLs grant one by one.\<close>

theorem v2_agrees_with_v1:
  assumes "servable U S (row_terms row)" and "now' < saturating_add now (default_ttl_secs S)"
  shows "\<exists>r2. build_v2_response U S row k now = Some r2
    \<and> q2_terms r2 = qr_terms (build_response U S row k now)
    \<and> q2_offset_into_first_range r2 = qr_offset_into_first_range (build_response U S row k now)
    \<and> (\<forall>name. entries_agree U S k now' name
          (map_of (qr_fetch_info (build_response U S row k now)) name) (map_of (q2_fetch_info r2) name))"
proof -
  let ?terms = "row_terms row" and ?m = "coalesce_terms_by_xorb (row_terms row)"
  let ?sp = "spans_of (chunk_spans_per_xorb ?terms)" and ?seg = "\<lambda>br. (br_start br, br_end_inclusive br)"
  let ?f = "\<lambda>h. map (fetch_entry U S k now h (?sp h))"
  let ?g = "\<lambda>h brs. [\<lparr>xf_url = the (mint_v1_multi_range U S h (map ?seg brs) k now),
                      xf_ranges = map (range_segment (?sp h)) brs\<rparr>]"
  let ?F1 = "fold (\<lambda>(h, brs). bt_insert (x_merkle_hex U h) (?f h brs)) ?m []"
  let ?F2 = "fold (\<lambda>(h, brs). bt_insert (x_merkle_hex U h) (?g h brs)) ?m []"
  note s = servableD [OF assms(1)]
  have b: "build_v2_fetch_info U S k now (chunk_spans_per_xorb ?terms) ?m [] = Some ?F2"
    by (rule build_v2_fetch_info_fold) (auto dest: coalesced_ne)
  have 1: "qr_fetch_info (build_response U S row k now) = ?F1" by (simp add: build_response_def Let_def)
  have "entries_agree U S k now' name (map_of ?F1 name) (map_of ?F2 name)" for name
  proof (cases "map_of ?F1 name")
    case None
    then have "map_of ?F2 name = None"
      unfolding fold_fetch_lookup [OF s(2,4)] by (force simp: map_of_eq_None_iff)
    with None show ?thesis by (simp add: entries_agree_def)
  next
    case (Some es)
    then obtain h brs where m: "(h, brs) \<in> set ?m" "name = x_merkle_hex U h"
      using fetch_info_memberD [OF s(2,4), of ?f name es] by blast
    show ?thesis
      unfolding m(2) fetch_info_lookup [OF s(2,4) m(1), of ?f] fetch_info_lookup [OF s(2,4) m(1), of ?g]
      by (rule xorb_entries_agree [OF assms(1) m(1) assms(2)])
  qed
  then show ?thesis unfolding 1 by (simp add: build_v2_response_def b) (simp add: build_response_def Let_def)
qed


section \<open>The handlers\<close>

lemma keeps_log_reconstruction [keeps_intro]: "keeps cas_inv (log_on_err (record_reconstruction ctx fid))"
  unfolding log_on_err_def by (intro keeps_intro)

lemma keeps_get_reconstruction [keeps_intro]: "keeps cas_inv (get_reconstruction fid)"
  unfolding get_reconstruction_def by (intro keeps_intro frame_cas_inv)

lemma keeps_query_reconstruction_v1 [keeps_intro]: "keeps cas_inv (query_reconstruction_v1 E ctx s h)"
  unfolding query_reconstruction_v1_def by (auto intro!: keeps_intro)

lemma keeps_query_reconstruction_v2 [keeps_intro]: "keeps cas_inv (query_reconstruction_v2 E ctx s h)"
  unfolding query_reconstruction_v2_def record_usage_reconstruction_v2_def
  by (auto intro!: keeps_intro split: option.split)

lemma keeps_batch_entries: "keeps cas_inv (batch_entries E ctx now names rows out)"
  by (induction rows arbitrary: out) (auto intro!: keeps_intro simp: Let_def)

lemma keeps_query_reconstructions_batch_v1 [keeps_intro]: "keeps cas_inv (query_reconstructions_batch_v1 E ctx raw)"
  unfolding query_reconstructions_batch_v1_def get_reconstructions_batch_def
  by (auto intro!: keeps_intro keeps_batch_entries frame_cas_inv split: prod.split)

lemma get_reconstruction_run:
  "faults w = [] \<Longrightarrow> get_reconstruction fid w = (Inr (reconstruction_of w fid), w)"
  by (simp add: get_reconstruction_def db_query_def io_step_no_fault reconstruction_of_def Let_def)

lemma check_run:
  assumes "faults w = []" and "fst (check s d c k w) = Inr ()"
  obtains rd where "check s d c k w = (Inr (), w\<lparr>redis := rd\<rparr>)"
proof -
  obtain rd fs where e: "snd (check s d c k w) = w\<lparr>redis := rd, faults := fs\<rparr>" using check_effect by blast
  moreover have "faults (snd (check s d c k w)) = []" by (rule check_clear [OF assms(1)])
  ultimately have "snd (check s d c k w) = w\<lparr>redis := rd\<rparr>" using assms(1) by (cases w) simp
  with assms(2) that show ?thesis by (metis prod.collapse)
qed

lemma reconstruction_of_redis [simp]: "reconstruction_of (w\<lparr>redis := rd\<rparr>) fid = reconstruction_of w fid"
  by (simp add: reconstruction_of_def joined_terms_def file_size_def xorb_pinned_def Let_def)

text \<open>The row a V1 query writes to the usage log.\<close>

definition reconstruction_usage :: "AuthContext \<Rightarrow> hash \<Rightarrow> int \<Rightarrow> usage_row" where
  "reconstruction_usage ctx fid now = \<lparr>u_event = Reconstruction, u_api_key_id = ctx_api_key_id ctx,
     u_user_id = ctx_user_id ctx, u_xorb_hash = None, u_shard_hash = None, u_file_id = Some fid, u_bytes = None,
     u_occurred_at = now\<rparr>"

lemma log_reconstruction_run:
  "faults w = [] \<Longrightarrow> log_on_err (record_reconstruction ctx fid) w
     = (Inr (), w\<lparr>usage_log := usage_log w @ [reconstruction_usage ctx fid (clock w)]\<rparr>)"
  by (simp add: log_on_err_def record_reconstruction_def usage_insert_def db_update_def io_step_no_fault discard_def
      reconstruction_usage_def)

subsection \<open>Ranged requests\<close>

definition range_header :: "u64 \<Rightarrow> u64 \<Rightarrow> string" where
  "range_header a b = ''bytes='' @ show_u64 a @ ''-'' @ show_u64 b"

lemma show_u64_digits: "list_all is_ascii_digit (show_u64 a)"
  unfolding show_u64_def list_all_iff is_ascii_digit_def using show_nat_notin not_le by blast

lemma digit_visible: "is_ascii_digit c \<Longrightarrow> 32 \<le> (of_char c :: nat) \<and> (of_char c :: nat) < 127"
  by (simp add: is_ascii_digit_def)

lemma digit_no_space: "is_ascii_digit c \<Longrightarrow> \<not> is_space c"
  by (auto simp: is_ascii_digit_def is_space_def)

lemma trim_digits: "s \<noteq> [] \<Longrightarrow> list_all is_ascii_digit s \<Longrightarrow> trim s = s"
  using digit_no_space by (intro trim_id) (auto simp: list_all_iff)

lemma range_start_of_header: "reconstruction_range_start (Some (range_header a b)) = Some a"
proof -
  have ne: "show_u64 a \<noteq> []" "show_u64 b \<noteq> []" by (simp_all add: show_u64_def)
  have "header_to_str (range_header a b) = Some (range_header a b)"
    using show_u64_digits [of a] show_u64_digits [of b] digit_visible
    by (auto simp: header_to_str_def range_header_def list_all_iff)
  moreover have "trim (range_header a b) = range_header a b"
  proof (rule trim_id)
    show "\<not> is_space (last (range_header a b))"
      using ne show_u64_digits [of b] digit_no_space by (auto simp: range_header_def list_all_iff)
  qed (simp_all add: range_header_def is_space_def)
  moreover have "split_on (CHR ''-'') (show_u64 a @ CHR ''-'' # show_u64 b) = show_u64 a # split_on (CHR ''-'') (show_u64 b)"
    by (rule split_on_append) (simp add: show_u64_notin)
  ultimately show ?thesis
    by (simp add: reconstruction_range_start_def trim_digits [OF ne(1) show_u64_digits] range_header_def)
qed


lemma starts_past_end_header:
  assumes "0 \<le> row_total_size row" and "row_total_size row < 2 ^ 63"
  shows "starts_past_end (Some (range_header a b)) row \<longleftrightarrow> row_total_size row \<le> uint a"
  using assms by (simp add: starts_past_end_def range_start_of_header word_le_def uint_as_u64 max_def)

text \<open>The block loop of the client ends. A query with the header \<^verbatim>\<open>Range: bytes=a-b\<close> for a known file is
  answered with 416 exactly when \<open>a\<close> is at or past the end of the file, and with the reply for the
  whole file otherwise; one usage row is written in the second case and none in the first.\<close>

lemma ranged_query_stops_at_end:
  assumes "faults w = []" and "decode_file_id_hex s = Some fid"
    and "fst (check (e_show_id E) (e_limits E) DownloadClass (ctx_api_key_id ctx) w) = Inr ()"
    and "reconstruction_of w fid = Some row" and "0 \<le> row_total_size row" and "row_total_size row < 2 ^ 63"
  shows "fst (query_reconstruction_v1 E ctx s (Some (range_header a b)) w)
      = (if row_total_size row \<le> uint a then Inl RangeNotSatisfiable
         else Inr (build_response (e_url E) (e_signer E) row (ctx_api_key_id ctx) (unix_now (clock w))))
    \<and> usage_log (snd (query_reconstruction_v1 E ctx s (Some (range_header a b)) w))
      = usage_log w @ (if row_total_size row \<le> uint a then [] else [reconstruction_usage ctx fid (clock w)])"
proof -
  obtain rd where "check (e_show_id E) (e_limits E) DownloadClass (ctx_api_key_id ctx) w = (Inr (), w\<lparr>redis := rd\<rparr>)"
    using check_run [OF assms(1,3)] .
  then show ?thesis
    using assms(1,2,4) starts_past_end_header [OF assms(5,6), of a b]
    by (simp add: query_reconstruction_v1_def bindE_def lift_res_def get_reconstruction_run raise_def gets_def
        log_reconstruction_run ret_def)
qed

subsection \<open>The disabled second version\<close>

lemma check_result_local:
  assumes "redis w = redis w'" and "clock w = clock w'" and "faults w = faults w'"
  shows "fst (check s d c k w) = fst (check s d c k w')"
  using assms by (auto simp: check_def eval_bucket_def bindE_def gets_def ret_def raise_def io_step_def split: prod.splits list.splits if_splits)

text \<open>With the V2 flag off nothing about the stored files can be learned from the V2 endpoint. The answer
  is the same for every file id, header and content of the tables, so that a request for a file
  that exists looks like any other, and the request changes nothing but the rate limit bucket.\<close>

lemma v2_disabled_reveals_nothing:
  fixes w w' :: "'z world_scheme"
  assumes "\<not> e_v2_enabled E" and "redis w = redis w'" and "clock w = clock w'" and "faults w = faults w'"
  shows "fst (query_reconstruction_v2 E ctx s h w) = fst (query_reconstruction_v2 E ctx s' h' w')
    \<and> (\<exists>rd fs. snd (query_reconstruction_v2 E ctx s h w) = w\<lparr>redis := rd, faults := fs\<rparr>)"
proof -
  let ?c = "check (e_show_id E) (e_limits E) DownloadClass (ctx_api_key_id ctx)"
  have q: "fst (query_reconstruction_v2 E ctx s h w) = (case fst (?c w) of Inl e \<Rightarrow> Inl e | Inr _ \<Rightarrow> Inr V2Disabled)"
    "snd (query_reconstruction_v2 E ctx s h w) = snd (?c w)" for s h and w :: "'z world_scheme"
    using assms(1) by (simp_all add: query_reconstruction_v2_def bindE_def ret_def split: prod.split sum.split)
  show ?thesis
    unfolding q check_result_local [OF assms(2-4)] using check_effect by blast
qed

subsection \<open>The batch\<close>

lemma decode_file_ids_Inr:
  assumes "list_all (\<lambda>p. decode_file_id_hex p \<noteq> None) params" and "bt_invar names"
  shows "\<exists>names'. decode_file_ids params ids names = Inr (ids @ map (the \<circ> decode_file_id_hex) params, names') \<and> bt_invar names'
    \<and> (\<forall>f. map_of names' f = (let ps = filter (\<lambda>p. decode_file_id_hex p = Some f) params
              in if ps = [] then map_of names f else Some (last ps)))"
  using assms
proof (induction params arbitrary: ids names)
  case (Cons p params)
  then obtain b where b: "decode_file_id_hex p = Some b" by auto
  have "bt_invar (bt_insert b p names)" using Cons.prems by (simp add: bt_invar_upsert)
  from Cons.IH [OF _ this, of "ids @ [b]"] Cons.prems b show ?case
    by (auto simp: map_of_bt_upsert Let_def)
qed simp

lemma batch_entries_run:
  assumes "faults w = []"
  shows "\<exists>w'. batch_entries E ctx now names rows out w = (Inr (fold (\<lambda>(fid, row). bt_insert
      (case map_of names fid of Some s \<Rightarrow> s | None \<Rightarrow> x_merkle_hex (e_url E) fid)
      (build_response (e_url E) (e_signer E) row (ctx_api_key_id ctx) now)) rows out), w')
    \<and> usage_log w' = usage_log w @ map (\<lambda>(fid, row). reconstruction_usage ctx fid (clock w)) rows"
  using assms
proof (induction rows arbitrary: out w)
  case (Cons p rows)
  obtain fid row where p: "p = (fid, row)" by fastforce
  let ?w = "w\<lparr>usage_log := usage_log w @ [reconstruction_usage ctx fid (clock w)]\<rparr>"
  have "faults ?w = []" using Cons.prems by simp
  from Cons.IH [OF this] show ?case
    by (simp add: p Let_def bindE_def log_reconstruction_run [OF Cons.prems])
qed (simp add: ret_def)


lemma map_of_rename:
  assumes "\<forall>f\<in>fst ` set rows. dec (nm f) = Some f"
  shows "map_of (map (\<lambda>p. (nm (fst p), g (snd p))) rows) x =
    (case dec x of None \<Rightarrow> None | Some f \<Rightarrow> if nm f = x then map_option g (map_of rows f) else None)"
  using assms by (induction rows) (auto split: option.splits)

lemma rename_distinct:
  assumes "\<forall>f\<in>fst ` set rows. dec (nm f) = Some f" and "distinct (map fst rows)"
  shows "distinct (map (\<lambda>p. nm (fst p)) rows)"
proof -
  have "inj_on nm (fst ` set rows)" using assms(1) by (metis inj_onI option.inject)
  then have "distinct (map nm (map fst rows))" using assms(2) by (simp only: distinct_map set_map simp_thms)
  then show ?thesis by (simp add: comp_def)
qed

lemma batch_rows_run:
  assumes "faults w = []" and "\<forall>f\<in>set ids. hash32 f"
  shows "\<exists>rows. get_reconstructions_batch ids w = (Inr rows, w) \<and> bt_invar rows
    \<and> (\<forall>f. map_of rows f = (if f \<in> set ids then reconstruction_of w f else None))"
proof (cases "ids = []")
  case True
  then show ?thesis by (simp add: get_reconstructions_batch_def ret_def bt_invar_def)
next
  case False
  let ?rows = "fold (\<lambda>x. bt_upsert (into_32 (fst x)) (bucket_row x)) (batch_rows w ids) []"
  have "bt_invar ?rows" by (rule bt.invar_fold) (rule bt.invar_empty)
  with False batch_lookup [OF assms(2), of w] show ?thesis
    by (simp add: get_reconstructions_batch_def db_query_def io_step_no_fault assms(1))
qed

text \<open>The spelling of a file id under which the batch answers: the last of the request.\<close>

definition last_spelling :: "string list \<Rightarrow> hash \<Rightarrow> string" where
  "last_spelling params f = last (filter (\<lambda>p. decode_file_id_hex p = Some f) params)"

lemma last_spelling_decodes:
  assumes "p \<in> set params" and "decode_file_id_hex p = Some f"
  shows "decode_file_id_hex (last_spelling params f) = Some f" and "last_spelling params f \<in> set params"
proof -
  have "filter (\<lambda>p. decode_file_id_hex p = Some f) params \<noteq> []" using assms by (auto simp: filter_empty_conv)
  from last_in_set [OF this] show "decode_file_id_hex (last_spelling params f) = Some f" and "last_spelling params f \<in> set params"
    by (auto simp: last_spelling_def)
qed

text \<open>A batch query is the sum of its single queries. When every id of the query string decodes, the reply
  has, under the spelling the client used, the reply of each file that has a pinned term and no
  entry for any other; where two spellings of one id are sent the last one is answered and the
  other is missing.\<close>

lemma batch_reply_exact:
  assumes "faults w = []" and "list_all (\<lambda>p. decode_file_id_hex p \<noteq> None) (parse_file_id_query q)"
    and "fst (check (e_show_id E) (e_limits E) DownloadClass (ctx_api_key_id ctx) w) = Inr ()"
  shows "\<exists>out. fst (query_reconstructions_batch_v1 E ctx (Some q) w) = Inr out \<and> (\<forall>name. map_of out name =
    (case decode_file_id_hex name of
       None \<Rightarrow> None
     | Some f \<Rightarrow> if name \<in> set (parse_file_id_query q) \<and> last_spelling (parse_file_id_query q) f = name
         then map_option (\<lambda>row. build_response (e_url E) (e_signer E) row (ctx_api_key_id ctx) (unix_now (clock w)))
                (reconstruction_of w f)
         else None))"
proof -
  let ?ps = "parse_file_id_query q" and ?g = "\<lambda>row. build_response (e_url E) (e_signer E) row (ctx_api_key_id ctx) (unix_now (clock w))"
  let ?ids = "map (the \<circ> decode_file_id_hex) ?ps"
  obtain rd where c: "check (e_show_id E) (e_limits E) DownloadClass (ctx_api_key_id ctx) w = (Inr (), w\<lparr>redis := rd\<rparr>)"
    using check_run [OF assms(1,3)] .
  let ?w = "w\<lparr>redis := rd\<rparr>"
  have no: "faults ?w = []" using assms(1) by simp
  obtain names where d: "decode_file_ids ?ps [] [] = Inr (?ids, names)"
    and n: "\<And>f. map_of names f = (let ps = filter (\<lambda>p. decode_file_id_hex p = Some f) ?ps in if ps = [] then None else Some (last ps))"
    using decode_file_ids_Inr [OF assms(2) bt.invar_empty, of "[]"] by (auto simp: Let_def)
  have dec: "\<exists>p\<in>set ?ps. decode_file_id_hex p = Some f" if "f \<in> set ?ids" for f
    using that assms(2) by (force simp: list_all_iff)
  have "\<forall>f\<in>set ?ids. hash32 f"
    using dec decode_hex32_length by (metis decode_file_id_hex_alt)
  from batch_rows_run [OF no this] obtain rows where r: "get_reconstructions_batch ?ids ?w = (Inr rows, ?w)" "bt_invar rows"
    "\<And>f. map_of rows f = (if f \<in> set ?ids then reconstruction_of w f else None)" by auto
  define nm where "nm f = (case map_of names f of Some s \<Rightarrow> s | None \<Rightarrow> x_merkle_hex (e_url E) f)" for f
  have nm: "nm f = last_spelling ?ps f" if "f \<in> set ?ids" for f
    using dec [OF that] n [of f] by (auto simp: nm_def last_spelling_def Let_def filter_empty_conv)
  have ids: "f \<in> set ?ids" if "f \<in> fst ` set rows" for f
    using that r(3) [of f] by (metis image_iff map_of_eq_None_iff)
  have inv: "\<forall>f\<in>fst ` set rows. decode_file_id_hex (nm f) = Some f"
    using ids nm dec last_spelling_decodes by metis
  let ?out = "fold (\<lambda>(fid, row). bt_insert (nm fid) (?g row)) rows []"
  have "map_of ?out x = (case decode_file_id_hex x of None \<Rightarrow> None | Some f \<Rightarrow> if nm f = x then map_option ?g (map_of rows f) else None)" for x
    using bt.lookup_fold_insert [OF bt.invar_empty rename_distinct [where dec = decode_file_id_hex and nm = nm, OF inv bt_invar_distinct [OF r(2)]], of "\<lambda>p. ?g (snd p)" x]
      map_of_rename [where dec = decode_file_id_hex and nm = nm, OF inv, of ?g x] by (simp add: case_prod_unfold split: option.splits)
  moreover have "f \<in> set ?ids \<longleftrightarrow> (\<exists>p\<in>set ?ps. decode_file_id_hex p = Some f)" for f
    using dec by force
  ultimately have L: "map_of ?out x = (case decode_file_id_hex x of None \<Rightarrow> None | Some f \<Rightarrow>
      if x \<in> set ?ps \<and> last_spelling ?ps f = x then map_option ?g (reconstruction_of w f) else None)" for x
    using nm last_spelling_decodes [of _ ?ps] by (auto simp: r(3) split: option.splits)
  from batch_entries_run [OF no, of E ctx "unix_now (clock w)" names rows "[]"]
  have "fst (query_reconstructions_batch_v1 E ctx (Some q) w) = Inr ?out"
    by (auto simp: query_reconstructions_batch_v1_def bindE_def lift_res_def d c r(1) gets_def nm_def)
  with L show ?thesis by blast
qed


section \<open>Witnesses\<close>

lemma hex_of_inj: "inj_on (x_merkle_hex toy_ext) (Collect hash32)"
  using hex32.enc_inj_on by (simp add: toy_ext_def)

definition ex_ext_term :: Term where
  "ex_ext_term = term_of_row (ex_term (replicate 32 7) 0 (replicate 32 1) 0 100)"

lemma ex_row_terms: "row_terms ex_row = [ex_ext_term]"
  by (simp add: ex_row_def ex_ext_term_def)

lemma ex_servable: "servable toy_ext toy_signer (row_terms ex_row)"
  by (simp add: servable_def toy_ext_laws hex_of_inj ex_row_terms ex_ext_term_def term_of_row_def ex_term_def span_ok_def
      hash32_def length_into_32)

theorem every_term_is_fetchable_witness:
  "\<exists>es e. map_of (qr_fetch_info (build_response toy_ext toy_signer ex_row 5 1000)) (rt_hash (reply_term toy_ext ex_ext_term)) = Some es
     \<and> e \<in> set es \<and> ur_start (fi_url_range e) = 0 \<and> 100 \<le> uint (ur_end_inclusive (fi_url_range e)) + 1"
proof -
  have "(2000::u64) < saturating_add 1000 (default_ttl_secs toy_signer)" by (simp add: toy_signer_def saturating_add_def)
  from every_term_is_fetchable [OF ex_servable _ this, of ex_ext_term 5]
  obtain es e where e: "map_of (qr_fetch_info (build_response toy_ext toy_signer ex_row 5 1000)) (rt_hash (reply_term toy_ext ex_ext_term)) = Some es"
    "e \<in> set es" "uint (ur_start (fi_url_range e)) \<le> t_xorb_byte_start ex_ext_term"
    "t_xorb_byte_end ex_ext_term \<le> uint (ur_end_inclusive (fi_url_range e)) + 1"
    unfolding ex_row_terms by auto
  have "t_xorb_byte_start ex_ext_term = 0" "t_xorb_byte_end ex_ext_term = 100"
    by (simp_all add: ex_ext_term_def term_of_row_def ex_term_def)
  moreover have "ur_start (fi_url_range e) = 0"
    using e(3) calculation(1) by (simp add: uint_0_iff [symmetric] order_antisym)
  ultimately show ?thesis using e by auto
qed

theorem urls_grant_only_the_file_witness:
  "\<exists>es. map_of (qr_fetch_info (build_response toy_ext toy_signer ex_row 5 1000)) (hex_of (replicate 32 1)) = Some es
     \<and> (\<Union>e\<in>set es. granted_bytes (url_grants (toy_ext, toy_signer) (fi_url e) 2000)) = {0..<100}"
proof -
  have t: "(2000::u64) < saturating_add 1000 (default_ttl_secs toy_signer)" by (simp add: toy_signer_def saturating_add_def)
  have h: "t_xorb_hash ex_ext_term = replicate 32 1"
    by (simp add: ex_ext_term_def term_of_row_def ex_term_def into_32_id hash32_def)
  have c: "coalesce_terms_by_xorb (row_terms ex_row) = [(replicate 32 1, [\<lparr>br_start = 0, br_end_inclusive = 99\<rparr>])]"
    unfolding ex_row_terms
    by (simp add: coalesce_terms_by_xorb_def group_spans_def term_span_def merge_spans_def merge_span_def to_byte_range_def
        push_entry_def as_u64_def h) (simp add: ex_ext_term_def term_of_row_def ex_term_def)
  obtain es where es: "map_of (qr_fetch_info (build_response toy_ext toy_signer ex_row 5 1000)) (hex_of (replicate 32 1)) = Some es"
    by (simp add: build_response_def c toy_ext_def)
  from urls_grant_only_the_file [OF ex_servable t es] h
  have "(\<Union>e\<in>set es. granted_bytes (url_grants (toy_ext, toy_signer) (fi_url e) 2000)) = term_bytes (replicate 32 1) (row_terms ex_row)"
    by (auto simp: ex_row_terms)
  also have "\<dots> = {0..<100}"
    unfolding ex_row_terms
    by (simp add: term_bytes_def span_bytes_def h) (simp add: term_span_def ex_ext_term_def term_of_row_def ex_term_def as_u64_def)
  finally show ?thesis using es by blast
qed

theorem v2_agrees_with_v1_witness:
  "\<exists>r2. build_v2_response toy_ext toy_signer ex_row 5 1000 = Some r2
     \<and> q2_terms r2 = qr_terms (build_response toy_ext toy_signer ex_row 5 1000)"
  using v2_agrees_with_v1 [OF ex_servable, of 2000 1000 5] by (auto simp: toy_signer_def saturating_add_def)

definition toy_renv :: recon_env where
  "toy_renv = cas_env.extend toy_env \<lparr>e_url = toy_ext, e_signer = toy_signer, e_v2_enabled = False\<rparr>"

lemma toy_renv_sel [simp]:
  "e_show_id toy_renv = toy_id" "e_limits toy_renv = default_limits" "e_url toy_renv = toy_ext"
  "e_signer toy_renv = toy_signer" "\<not> e_v2_enabled toy_renv"
  by (simp_all add: toy_renv_def toy_env_def cas_env.defs)

lemma ex_world_reconstruction: "reconstruction_of ex_world (replicate 32 7) = Some ex_row"
  using get_reconstruction_result [OF ex_world_single] by simp

lemma ex_world_check: "fst (check toy_id default_limits DownloadClass 5 ex_world) = Inr ()"
  by (simp add: check_def eval_bucket_def io_step_def bindE_def gets_def ret_def rate_limit_lua_def refilled_def redis_get_def
      default_limits_def Let_def ex_world_def empty_world_def)

lemma ranged_query_stops_at_end_witness:
  "fst (query_reconstruction_v1 toy_renv toy_ctx (hex_of (replicate 32 7)) (Some (range_header 200 300)) ex_world)
     = Inl RangeNotSatisfiable
   \<and> (\<exists>r. fst (query_reconstruction_v1 toy_renv toy_ctx (hex_of (replicate 32 7)) (Some (range_header 100 300)) ex_world) = Inr r)"
  using ranged_query_stops_at_end [OF ex_world_no_faults _ _ ex_world_reconstruction,
      of "hex_of (replicate 32 7)" toy_renv toy_ctx] decode_hex32_hex_of [of "replicate 32 7"] ex_world_check
  by (simp add: decode_file_id_hex_alt hash32_def toy_ctx_def ex_row_def)

lemma v2_disabled_reveals_nothing_witness:
  "fst (query_reconstruction_v2 toy_renv toy_ctx (hex_of (replicate 32 7)) None ex_world)
     = fst (query_reconstruction_v2 toy_renv toy_ctx ''nonsense'' None empty_world)"
  using v2_disabled_reveals_nothing [of toy_renv ex_world empty_world] by (simp add: ex_world_def)

lemma batch_reply_exact_witness:
  "\<exists>out. fst (query_reconstructions_batch_v1 toy_renv toy_ctx (Some (''file_id='' @ hex_of (replicate 32 7))) ex_world) = Inr out
     \<and> map_of out (hex_of (replicate 32 7)) \<noteq> None"
proof -
  let ?s = "hex_of (replicate 32 7)"
  have n: "CHR ''&'' \<notin> set (''file_id='' @ ?s)" "CHR '','' \<notin> set ?s" by (simp_all add: hex_of_notin)
  have "length ?s = 64" by simp
  then have "?s \<noteq> []" by (metis list.size(3) zero_neq_numeral)
  then have p: "parse_file_id_query (''file_id='' @ ?s) = [?s]"
    unfolding parse_file_id_query_def split_on_no_sep [OF n(1)]
    using split_on_no_sep [OF n(2)] by (auto simp: List.map_filter_simps)
  have d: "decode_file_id_hex ?s = Some (replicate 32 7)"
    using decode_hex32_hex_of [of "replicate 32 7"] by (simp add: decode_file_id_hex_alt hash32_def)
  from batch_reply_exact [OF ex_world_no_faults, of "''file_id='' @ ?s" toy_renv toy_ctx]
  show ?thesis
    unfolding p using ex_world_check ex_world_reconstruction by (auto simp: d last_spelling_def toy_ctx_def)
qed

end
