(* ===== verification/Store_System.thy ===== *)
theory Store_System
  imports Account_System Reconstruction Reconciler
begin

text \<open>
  The whole server: the storage routes behind the extractor \<^verbatim>\<open>AuthScoped\<close>, the account handlers,
  the sweeps of the reconciler, the passing of time, and an environment that decides which round
  trips fail and what Sia answers. The locale \<open>store_inv\<close> is the contract of a predicate with the
  elementary changes the storage handlers make for a caller; the properties are about every run.
\<close>

section \<open>The storage routes\<close>

text \<open>An axum handler runs its extractors from left to right; a rejection ends the request.\<close>

definition upload_xorb_route ::
  "auth_ext \<Rightarrow> recon_env \<Rightarrow> byte list \<Rightarrow> uuid \<Rightarrow> string option \<Rightarrow> string option \<Rightarrow> string \<Rightarrow> string \<Rightarrow> byte list option
     \<Rightarrow> ('z, AppError, bool) acc_io" where
  "upload_xorb_route X E key i ah xh prefix suffix body =
     bindE (auth_scoped X key SCOPE_UPLOAD i ah xh) (\<lambda>ctx. upload_xorb (cas_env.truncate E) ctx prefix suffix body)"

definition upload_shard_route ::
  "auth_ext \<Rightarrow> recon_env \<Rightarrow> byte list \<Rightarrow> uuid \<Rightarrow> string option \<Rightarrow> string option \<Rightarrow> byte list option
     \<Rightarrow> 'z accounts_scheme \<Rightarrow> ((AppError + UploadShardResponseType) \<times> 'z accounts_scheme) option" where
  "upload_shard_route X E key i ah xh body w =
     (case auth_scoped X key SCOPE_UPLOAD i ah xh w of
        (Inl e, w') \<Rightarrow> Some (Inl e, w')
      | (Inr ctx, w') \<Rightarrow> upload_shard (cas_env.truncate E) ctx body w')"

definition reconstruction_route ::
  "auth_ext \<Rightarrow> recon_env \<Rightarrow> byte list \<Rightarrow> uuid \<Rightarrow> string option \<Rightarrow> string option \<Rightarrow> string \<Rightarrow> string option
     \<Rightarrow> ('z, AppError, QueryReconstructionResponse) acc_io" where
  "reconstruction_route X E key i ah xh file_id rng =
     bindE (auth_scoped X key SCOPE_DOWNLOAD i ah xh) (\<lambda>ctx. query_reconstruction_v1 E ctx file_id rng)"

definition reconstruction_v2_route ::
  "auth_ext \<Rightarrow> recon_env \<Rightarrow> byte list \<Rightarrow> uuid \<Rightarrow> string option \<Rightarrow> string option \<Rightarrow> string \<Rightarrow> string option
     \<Rightarrow> ('z, AppError, v2_outcome) acc_io" where
  "reconstruction_v2_route X E key i ah xh file_id rng =
     bindE (auth_scoped X key SCOPE_DOWNLOAD i ah xh) (\<lambda>ctx. query_reconstruction_v2 E ctx file_id rng)"

definition reconstructions_batch_route ::
  "auth_ext \<Rightarrow> recon_env \<Rightarrow> byte list \<Rightarrow> uuid \<Rightarrow> string option \<Rightarrow> string option \<Rightarrow> string option
     \<Rightarrow> ('z, AppError, (string \<times> QueryReconstructionResponse) list) acc_io" where
  "reconstructions_batch_route X E key i ah xh raw =
     bindE (auth_scoped X key SCOPE_DOWNLOAD i ah xh) (\<lambda>ctx. query_reconstructions_batch_v1 E ctx raw)"

section \<open>The contract of a predicate with the storage handlers\<close>

lemma update_row_rows: "update_row h f t = update_rows (\<lambda>k _. k = h) f t"
  by (simp add: update_row_def update_rows_def)

locale store_inv =
  fixes P :: "'z world_scheme \<Rightarrow> bool" and mine :: "uuid \<Rightarrow> bool"
  assumes fr: "frame P"
    and on_xorb_insert: "P w \<Longrightarrow> mine (owner_api_key_id r) \<Longrightarrow> P (w\<lparr>xorbs := insert_row h r (xorbs w)\<rparr>)"
    and on_shard_insert: "P w \<Longrightarrow> mine (owner_api_key_id r') \<Longrightarrow> P (w\<lparr>shards := insert_row h r' (shards w)\<rparr>)"
    and on_xorb_rows: "P w \<Longrightarrow> (\<And>r. owner_api_key_id (f r) = owner_api_key_id r) \<Longrightarrow> P (w\<lparr>xorbs := update_rows Q f (xorbs w)\<rparr>)"
    and on_shard_rows: "P w \<Longrightarrow> (\<And>r. owner_api_key_id (f' r) = owner_api_key_id r) \<Longrightarrow> P (w\<lparr>shards := update_rows Q' f' (shards w)\<rparr>)"
    and on_body: "P w \<Longrightarrow> P (w\<lparr>xorb_bodies := b\<rparr>)"
    and on_file: "P w \<Longrightarrow> P (w\<lparr>reconstruction_files := put_file h x (reconstruction_files w)\<rparr>)"
    and on_term: "P w \<Longrightarrow> P (w\<lparr>reconstruction_terms := insert_row (term_key t) t (reconstruction_terms w)\<rparr>)"
    and on_usage: "P w \<Longrightarrow> mine (u_api_key_id u) \<Longrightarrow> P (w\<lparr>usage_log := usage_log w @ [u]\<rparr>)"
    and on_redis: "P w \<Longrightarrow> P (w\<lparr>redis := rd\<rparr>)"
    and on_metrics: "P w \<Longrightarrow> P (w\<lparr>m_sweeps := n\<rparr>)" "P w \<Longrightarrow> P (w\<lparr>m_failures := n\<rparr>)" "P w \<Longrightarrow> P (w\<lparr>m_orphaned_xorb := n\<rparr>)"
      "P w \<Longrightarrow> P (w\<lparr>m_orphaned_shard := n\<rparr>)" "P w \<Longrightarrow> P (w\<lparr>m_version_rejected := v\<rparr>)"
begin

lemma on_files: "P w \<Longrightarrow> P (w\<lparr>reconstruction_files := fold (put_file h) fs (reconstruction_files w)\<rparr>)"
proof (induction fs arbitrary: w)
  case (Cons x fs)
  from Cons.IH [OF on_file [OF Cons.prems, of h x]] show ?case by simp
qed simp

lemma on_terms: "P w \<Longrightarrow> P (w\<lparr>reconstruction_terms := fold (\<lambda>t. insert_row (term_key t) t) ts (reconstruction_terms w)\<rparr>)"
proof (induction ts arbitrary: w)
  case (Cons t ts)
  from Cons.IH [OF on_term [OF Cons.prems, of t]] show ?case by simp
qed simp

lemma check_kept: "keeps P (check s d c k)"
  unfolding check_def eval_bucket_def
  by (auto intro!: keeps_intro keeps_io_step [OF fr] on_redis simp: case_prod_beta split: prod.split)

lemma keeps_usage: "(\<And>t. mine (u_api_key_id (u t))) \<Longrightarrow> keeps P (usage_insert u)"
  unfolding usage_insert_def by (intro keeps_db_update fr on_usage)

lemma queries_kept: "keeps P (get_chunk_boundaries hs)" "keeps P (which_xorbs_are_pinned hs)"
  "keeps P (get_reconstruction f)" "keeps P (get_reconstructions_batch ids)"
  unfolding get_chunk_boundaries_def which_xorbs_are_pinned_def get_reconstruction_def get_reconstructions_batch_def
  by (auto intro!: keeps_ret keeps_db_query fr)

lemma insert_pending_kept: "mine k \<Longrightarrow> keeps P (insert_pending h sz o' k b)"
  unfolding insert_pending_def
  by (rule keeps_db_exec [OF fr]) (simp add: on_xorb_insert fresh_xorb_row_def fresh_pin_row_def pin_row.extend_def)

lemma owner_set_state: "owner_api_key_id (set_state_row st sid now r) = owner_api_key_id r"
  by (simp add: set_state_row_def)

lemma keeps_set_state: "keeps P (xorbs_set_pin_state h st sid)" "keeps P (shards_set_pin_state h st sid)"
  unfolding xorbs_set_pin_state_def shards_set_pin_state_def update_row_rows
  by (intro keeps_db_update fr on_xorb_rows on_shard_rows; simp add: owner_set_state)+

lemma revive_kept: "keeps P (revive_orphaned_xorbs hs)"
  unfolding revive_orphaned_xorbs_def
  by (auto intro!: keeps_ret keeps_db_exec fr on_xorb_rows simp: Let_def revive_row_def)

lemma insert_shard_kept: "mine k \<Longrightarrow> keeps P (insert_shard_with_reconstruction h sz o' k fs ts)"
  unfolding insert_shard_with_reconstruction_def insert_files_def insert_terms_def
  by (auto intro!: keeps_bind keeps_ret keeps_db_exec keeps_db_checked fr on_shard_insert on_files on_terms simp: fresh_pin_row_def)

lemma store_xorb_kept: "mine (ctx_api_key_id ctx) \<Longrightarrow> keeps P (store_xorb ctx h c b)"
  unfolding store_xorb_def Let_def finish_xorb_def cache_body_def log_on_err_def record_xorb_upload_def
  by (auto intro!: keeps_bind keeps_ret keeps_attempt insert_pending_kept keeps_usage keeps_db_update keeps_sia_op fr on_body
      keeps_set_state split: sia_reply.split SiaAdapterError.split)

lemma upload_xorb_kept: "mine (ctx_api_key_id ctx) \<Longrightarrow> keeps P (upload_xorb E ctx p s body)"
  unfolding upload_xorb_def by (intro keeps_bind keeps_ret check_kept store_xorb_kept)

lemma keeps_store_shard: "mine (ctx_api_key_id ctx) \<Longrightarrow> keeps P (store_shard ctx h c fs ts)"
  unfolding store_shard_def commit_shard_def Let_def log_on_err_def record_shard_upload_def finish_shard_def
  by (auto intro!: keeps_bind keeps_ret keeps_attempt keeps_transaction insert_shard_kept keeps_usage keeps_sia_op fr
      keeps_set_state split: sia_reply.split SiaAdapterError.split)

lemma upload_parsed_shard_kept: "mine (ctx_api_key_id ctx) \<Longrightarrow> keeps P (upload_parsed_shard E ctx c r)"
  unfolding upload_parsed_shard_def tolerated_def map_parse_err_with_metrics_def cross_check_def Let_def
  by (auto intro!: keeps_bind keeps_ret keeps_modify on_metrics revive_kept queries_kept check_kept keeps_store_shard
      split: sum.split ShardParseError.split)

lemma upload_shard_keeps: "mine (ctx_api_key_id ctx) \<Longrightarrow> P w \<Longrightarrow> upload_shard E ctx body w = Some (r, w') \<Longrightarrow> P w'"
  using keepsD [OF upload_parsed_shard_kept, of ctx w E]
  by (auto simp: upload_shard_def split: sum.splits) (metis snd_conv)

lemma keeps_query_v1: "mine (ctx_api_key_id ctx) \<Longrightarrow> keeps P (query_reconstruction_v1 E ctx f r)"
  unfolding query_reconstruction_v1_def log_on_err_def record_reconstruction_def
  by (auto intro!: keeps_bind keeps_ret check_kept queries_kept keeps_attempt keeps_usage)

lemma keeps_query_v2: "mine (ctx_api_key_id ctx) \<Longrightarrow> keeps P (query_reconstruction_v2 E ctx f r)"
  unfolding query_reconstruction_v2_def record_usage_reconstruction_v2_def
  by (auto intro!: keeps_bind keeps_ret check_kept queries_kept keeps_attempt keeps_usage split: option.split)

lemma keeps_batch: "mine (ctx_api_key_id ctx) \<Longrightarrow> keeps P (query_reconstructions_batch_v1 E ctx raw)"
proof -
  assume k: "mine (ctx_api_key_id ctx)"
  have "keeps P (batch_entries E ctx now names rows out)" for now names rows out
  proof (induction rows arbitrary: out)
    case (Cons x rows)
    then show ?case
      by (cases x) (auto simp: Let_def log_on_err_def record_reconstruction_def k intro!: keeps_bind keeps_attempt keeps_usage)
  qed (simp add: keeps_ret)
  then show ?thesis
    unfolding query_reconstructions_batch_v1_def
    by (auto intro!: keeps_bind keeps_ret check_kept queries_kept split: prod.split)
qed

end

sublocale store_inv \<subseteq> xs: xorb_sweep P
  by unfold_locales (auto simp: fr upd_xorb_def update_row_rows intro: on_xorb_rows on_metrics)

sublocale store_inv \<subseteq> ss: shard_sweep P
  by unfold_locales (auto simp: fr upd_shard_def update_row_rows intro: on_shard_rows on_metrics)

context store_inv
begin

lemma tick_keeps: "P w \<Longrightarrow> P (run_reconciler_tick w)"
proof -
  assume "P w"
  have "keeps P reconcile_once"
    unfolding reconcile_once_def fetch_stuck_xorbs_def fetch_stuck_shards_def
    by (auto intro!: keeps_bind keeps_ret keeps_db_query keeps_modify keeps_reconcile_rows xs.keeps_xorb_row ss.keeps_shard_row fr on_metrics)
  from keepsD [OF this \<open>P w\<close>] show ?thesis
    by (auto simp: run_reconciler_tick_def intro: on_metrics split: prod.split sum.split)
qed

end

section \<open>The system\<close>

inductive system_step ::
  "auth_ext \<Rightarrow> recon_env \<Rightarrow> github_env \<Rightarrow> password_env \<Rightarrow> byte list \<Rightarrow> 'z accounts_scheme \<Rightarrow> 'z accounts_scheme \<Rightarrow> bool"
  for X :: auth_ext and E :: recon_env and G :: github_env and Pw :: password_env and key :: "byte list" where
  sy_account: "console_step X G Pw key w w' \<Longrightarrow> system_step X E G Pw key w w'"
| sy_xorb: "system_step X E G Pw key w (snd (upload_xorb_route X E key i ah xh prefix suffix body w))"
| sy_shard: "upload_shard_route X E key i ah xh body w = Some (r, w') \<Longrightarrow> system_step X E G Pw key w w'"
| sy_v1: "system_step X E G Pw key w (snd (reconstruction_route X E key i ah xh f rng w))"
| sy_v2: "system_step X E G Pw key w (snd (reconstruction_v2_route X E key i ah xh f rng w))"
| sy_batch: "system_step X E G Pw key w (snd (reconstructions_batch_route X E key i ah xh raw w))"
| sy_sweep: "system_step X E G Pw key w (run_reconciler_tick w)"
| sy_world: "system_step X E G Pw key w (w\<lparr>faults := fs, sia_script := rs\<rparr>)"

text \<open>Every step is an account step, a sweep, a change of the environment, or a storage handler run for
  the caller the extractor returned.\<close>

lemma route_snd:
  assumes "P (snd (m w))" and "\<And>a w'. m w = (Inr a, w') \<Longrightarrow> P (snd (f a w'))"
  shows "P (snd (bindE m f w))"
proof (rule bind_snd)
  show "P w'" if "m w = (Inl e, w')" for e w' using assms(1) that by simp
qed (rule assms(2))

section \<open>The key behind an accepted caller\<close>

definition key_known :: "uuid \<Rightarrow> 'z accounts_scheme \<Rightarrow> bool" where
  "key_known k w \<longleftrightarrow> k \<in> fst ` set (api_keys w)"

interpretation known: account_inv "key_known k"
  by unfold_locales (auto simp: key_known_def frame_def keys_insert_row keys_image)

lemma find_in_set: "find Q xs = Some x \<Longrightarrow> x \<in> set xs"
  by (induction xs) (auto split: if_splits)

lemma pick_in_set:
  assumes "foldl (\<lambda>best p. case best of None \<Rightarrow> Some p | Some q \<Rightarrow> if R p q then Some p else Some q) b xs = Some q"
  shows "q \<in> set xs \<or> b = Some q"
  using assms
proof (induction xs arbitrary: b)
  case (Cons x xs)
  then have "q \<in> set xs \<or> (case b of None \<Rightarrow> Some x | Some q \<Rightarrow> if R x q then Some x else Some q) = Some q" by simp
  then show ?case by (cases b) (auto split: if_split_asm)
qed simp

lemma widest_key_known: "widest_key t uid = Some k \<Longrightarrow> k \<in> fst ` set t"
  unfolding widest_key_def by (auto intro: rev_image_eqI dest!: pick_in_set [where R = "\<lambda>p q. outranks (snd p) (snd q)"])

lemma synthetic_key_known:
  assumes "upsert_synthetic_api_key X i uid hf w = (Inr k, w')"
  shows "key_known k w'"
proof -
  let ?h = "x_digest X (as_bytes (synthetic_secret hf))"
  show ?thesis
  proof (cases "key_with_hash (api_keys w) ?h")
    case None
    then show ?thesis using assms
      by (auto simp: upsert_synthetic_api_key_def bindE_def db_exec_def io_step_def Let_def key_known_def keys_insert_row
          ret_def raise_def split: list.split_asm if_split_asm)
  next
    case (Some p)
    then have "fst p \<in> fst ` set (api_keys w)" by (simp add: key_with_hash_def find_in_set)
    moreover obtain j row where "p = (j, row)" by fastforce
    ultimately have "key_known j w" "p = (j, row)" by (simp_all add: key_known_def)
    then show ?thesis using assms Some
      by (auto simp: upsert_synthetic_api_key_def bindE_def db_exec_def io_step_def Let_def ret_def
          key_known_def keys_image split: list.split_asm if_split_asm) (metis fst_conv image_eqI)+
  qed
qed

lemma jwt_key_known:
  assumes "authenticate_xet_jwt X key S i t w = (Inr ctx, w')"
  shows "key_known (ctx_api_key_id ctx) w'"
proof -
  have o: "key_known k w'" if "resolve_openweights_user X key i t c w = (Inr (u, k), w')" for c u k w'
    using that
    by (auto simp: resolve_openweights_user_def bindE_def lift_res_def db_query_def io_step_def ret_def raise_def map_db_err_def key_known_def
        dest: widest_key_known synthetic_key_known [unfolded key_known_def]
        split: sum.split_asm list.split_asm if_split_asm option.split_asm prod.split_asm)
  have h: "key_known k w'" if "resolve_hf_user X i c w = (Inr (u, k), w')" for c u k w'
    using that
    by (auto simp: resolve_hf_user_def bindE_def map_db_err_def ret_def
        dest: synthetic_key_known split: sum.split_asm prod.split_asm)
  from assms o h show ?thesis
    by (auto simp: authenticate_xet_jwt_def bindE_def gets_def raise_def lift_res_def ret_def
        split: sum.split_asm prod.split_asm if_split_asm)
qed

lemma api_key_known:
  assumes "cache_inv w" and "authenticate_key X S p w = (Inr ctx, w')"
  shows "key_known (ctx_api_key_id ctx) w'"
proof -
  have f: "fst (authenticate_key X S p w) = Inr ctx" using assms(2) by simp
  obtain k where k: "fst (lookup_key (x_digest X (as_bytes p)) w) = Inr k" "ctx_api_key_id ctx = ac_id k"
    using authenticate_key_hit [OF f] by auto
  have "key_known (ac_id k) w"
    using lookup_key_hit [OF assms(1) k(1)] by (auto simp: entry_ok_def key_known_def dest: map_of_SomeD intro: rev_image_eqI split: option.splits)
  with keepsD [OF known.keeps_authenticate_key] assms(2) k(2) show ?thesis by (metis snd_conv)
qed

lemma auth_key_known:
  assumes "cache_inv w" and "auth_scoped X key S i ah xh w = (Inr ctx, w')"
  shows "key_known (ctx_api_key_id ctx) w'"
  using assms(2)
  by (auto simp: auth_scoped_def Let_def raise_def intro: jwt_key_known api_key_known [OF assms(1)]
      split: option.split_asm if_split_asm)

section \<open>Invariants of the system\<close>

text \<open>A predicate kept by the account handlers, by the sweeps, and by the storage handlers run for a
  stored key.\<close>

locale system_inv = account_inv P for P :: "'z accounts_scheme \<Rightarrow> bool" +
  assumes calls: "store_inv (\<lambda>w. P w \<and> key_known K w) (\<lambda>k. k = K)"
    and sweeps: "store_inv P (\<lambda>_. False)"
begin

lemma call_keeps:
  assumes "cache_inv w" and "P w" and "auth_scoped X key S i ah xh w = (Inr ctx, w')"
  shows "P w' \<and> key_known (ctx_api_key_id ctx) w'"
  using auth_key_known [OF assms(1,3)] keepsD [OF keeps_auth_scoped assms(2)] assms(3) by (metis snd_conv)

lemma route_keeps:
  assumes "cache_inv w" and "P w"
    and "\<And>ctx. keeps (\<lambda>w. P w \<and> key_known (ctx_api_key_id ctx) w) (f ctx)"
  shows "P (snd (bindE (auth_scoped X key S i ah xh) f w))"
proof (rule route_snd)
  show "P (snd (auth_scoped X key S i ah xh w))" using keepsD [OF keeps_auth_scoped assms(2)] .
  show "P (snd (f ctx w'))" if "auth_scoped X key S i ah xh w = (Inr ctx, w')" for ctx w'
    using keepsD [OF assms(3) call_keeps [OF assms(1,2) that]] by blast
qed

lemma shard_route_keeps:
  assumes "cache_inv w" and "P w" and "upload_shard_route X E key i ah xh body w = Some (r, w')"
  shows "P w'"
proof (cases "auth_scoped X key SCOPE_UPLOAD i ah xh w")
  case (Pair a w1)
  show ?thesis
  proof (cases a)
    case (Inl e)
    then show ?thesis using keepsD [OF keeps_auth_scoped assms(2), of X key SCOPE_UPLOAD i ah xh] assms(3) Pair
      by (simp add: upload_shard_route_def)
  next
    case (Inr ctx)
    then have "upload_shard (cas_env.truncate E) ctx body w1 = Some (r, w')"
      using assms(3) Pair by (simp add: upload_shard_route_def)
    from store_inv.upload_shard_keeps [OF calls refl _ this] call_keeps [OF assms(1,2)] Pair Inr show ?thesis by blast
  qed
qed

lemma system_step_keeps: "system_step X E G Pw key w w' \<Longrightarrow> cache_inv w \<and> P w \<Longrightarrow> P w'"
proof (induction rule: system_step.induct)
  case (sy_account w w')
  then show ?case using console_step_keeps by blast
next
  case (sy_xorb w i ah xh p s b)
  then show ?case unfolding upload_xorb_route_def by (intro route_keeps store_inv.upload_xorb_kept [OF calls]) simp_all
next
  case (sy_v1 w i ah xh f r)
  then show ?case unfolding reconstruction_route_def by (intro route_keeps store_inv.keeps_query_v1 [OF calls]) simp_all
next
  case (sy_v2 w i ah xh f r)
  then show ?case unfolding reconstruction_v2_route_def by (intro route_keeps store_inv.keeps_query_v2 [OF calls]) simp_all
next
  case (sy_batch w i ah xh r)
  then show ?case unfolding reconstructions_batch_route_def by (intro route_keeps store_inv.keeps_batch [OF calls]) simp_all
next
  case (sy_shard i ah xh b w r w')
  then show ?case using shard_route_keeps by blast
next
  case (sy_sweep w)
  then show ?case using store_inv.tick_keeps [OF sweeps] by blast
next
  case (sy_world w fs rs)
  then show ?case by (simp add: frameD [OF fr])
qed

end

subsection \<open>The key cache\<close>

interpretation sys_cache: system_inv cache_inv
  by unfold_locales (auto simp: frame_def cache_inv_def key_known_def)

lemma system_cache_inv: "system_step X E G Pw key w w' \<Longrightarrow> cache_inv w \<Longrightarrow> cache_inv w'"
  using sys_cache.system_step_keeps by blast

sublocale system_inv \<subseteq> whole: step_system "\<lambda>w. cache_inv w \<and> P w" "system_step X E G Pw key" "\<lambda>w. cache_inv w \<and> P w"
  by unfold_locales (auto intro: system_cache_inv system_step_keeps)

subsection \<open>Every stored object and every usage record names a stored key\<close>

definition owners_known :: "'z accounts_scheme \<Rightarrow> bool" where
  "owners_known w \<longleftrightarrow> (\<forall>(h, r)\<in>set (xorbs w). key_known (owner_api_key_id r) w)
     \<and> (\<forall>(h, r)\<in>set (shards w). key_known (owner_api_key_id r) w)
     \<and> (\<forall>u\<in>set (usage_log w). key_known (u_api_key_id u) w)"

interpretation sys_owners: system_inv owners_known
  by unfold_locales (auto simp: frame_def owners_known_def key_known_def insert_row_def update_rows_def keys_image keys_insert_row
      split: if_splits)

subsection \<open>What was published stays\<close>

definition extends :: "'z accounts_scheme \<Rightarrow> 'z accounts_scheme \<Rightarrow> bool" where
  "extends v w \<longleftrightarrow>
     (\<forall>f r. map_of (reconstruction_files v) f = Some r \<longrightarrow>
        (\<exists>r'. map_of (reconstruction_files w) f = Some r' \<and> rf_shard_hash r' = rf_shard_hash r \<and> rf_total_size r' = rf_total_size r))
   \<and> (\<forall>k t. map_of (reconstruction_terms v) k = Some t \<longrightarrow> map_of (reconstruction_terms w) k = Some t)"

lemma map_of_put_file:
  "map_of (put_file h x t) f =
     (if f = pf_file_id x then Some (case map_of t f of
          None \<Rightarrow> \<lparr>rf_shard_hash = h, rf_total_size = pf_total_size x, rf_sha256 = pf_sha256 x\<rparr>
        | Some r \<Rightarrow> r\<lparr>rf_sha256 := (case pf_sha256 x of Some s \<Rightarrow> Some s | None \<Rightarrow> rf_sha256 r)\<rparr>)
      else map_of t f)"
  by (auto simp: put_file_def map_of_update_row map_add_def split: option.splits)

lemma extends_put_file: "extends v w \<Longrightarrow> extends v (w\<lparr>reconstruction_files := put_file h x (reconstruction_files w)\<rparr>)"
  unfolding extends_def by (fastforce simp: map_of_put_file split: option.split)

lemma extends_put_term: "extends v w \<Longrightarrow> extends v (w\<lparr>reconstruction_terms := insert_row (term_key t) t (reconstruction_terms w)\<rparr>)"
  unfolding extends_def by (simp add: map_of_insert_row) (metis option.distinct(1))

interpretation sys_published: system_inv "extends v"
  by unfold_locales (auto simp: frame_def key_known_def extends_put_file extends_put_term, auto simp: extends_def)

subsection \<open>The tables\<close>

interpretation acc_tables: account_inv cas_inv
  by unfold_locales (auto simp: frame_cas_inv cas_inv_other, auto simp: cas_inv_def rows_ok_def)

lemma tick_cas_inv: "cas_inv w \<Longrightarrow> cas_inv (run_reconciler_tick w)"
  using keepsD [OF keeps_reconcile_once, of w]
  by (auto simp: run_reconciler_tick_def cas_inv_other split: prod.split sum.split)

lemma route_cas_inv: "cas_inv w \<Longrightarrow> (\<And>ctx. keeps cas_inv (f ctx)) \<Longrightarrow> cas_inv (snd (bindE (auth_scoped X key S i ah xh) f w))"
  by (rule keepsD [OF keeps_bind [OF acc_tables.keeps_auth_scoped]])

lemma shard_route_cas_inv:
  assumes "cas_inv w" and "upload_shard_route X E key i ah xh body w = Some (r, w')"
  shows "cas_inv w'"
proof (cases "auth_scoped X key SCOPE_UPLOAD i ah xh w")
  case (Pair a w1)
  then have "cas_inv w1" using keepsD [OF acc_tables.keeps_auth_scoped assms(1)] by (metis snd_conv)
  then show ?thesis using assms(2) Pair upload_shard_inv by (auto simp: upload_shard_route_def split: sum.split_asm)
qed

lemma system_step_cas_inv: "system_step X E G Pw key w w' \<Longrightarrow> cas_inv w \<Longrightarrow> cas_inv w'"
  by (induction rule: system_step.induct)
    (auto simp: upload_xorb_route_def reconstruction_route_def reconstruction_v2_route_def reconstructions_batch_route_def
      frameD [OF frame_cas_inv] intro: acc_tables.console_step_keeps route_cas_inv shard_route_cas_inv tick_cas_inv
      keeps_upload_xorb keeps_query_reconstruction_v1 keeps_query_reconstruction_v2 keeps_query_reconstructions_batch_v1)

interpretation sys_tables: step_system "\<lambda>w. w = empty_accounts" "system_step X E G Pw key" cas_inv
proof unfold_locales
  show "cas_inv w" if "w = empty_accounts" for w
    using that by (simp add: empty_accounts_def cas_inv_def rows_ok_def empty_world_def world.defs)
qed (rule system_step_cas_inv)

section \<open>Properties\<close>

text \<open>C1: in every state the server reaches, the tables are consistent and accountable. A pinned row names
  its Sia object, every term names a known file and a known xorb, every file a known shard, every
  body a known xorb, no key occurs twice; and every xorb, shard and usage record was written for an
  API key that is stored, whichever token the caller presented.\<close>

theorem reachable_state_ok:
  assumes "(system_step X E G Pw key)\<^sup>*\<^sup>* empty_accounts w"
  shows "cas_inv w \<and> owners_known w"
proof
  show "cas_inv w" by (rule sys_tables.reachable_inv [OF refl assms])
  have "cache_inv empty_accounts \<and> owners_known empty_accounts"
    by (simp add: cache_inv_empty) (simp add: owners_known_def empty_accounts_def empty_world_def world.defs)
  from sys_owners.whole.reachable_inv [OF this assms] show "owners_known w" ..
qed

text \<open>C5: what was published is never taken back or rewritten. Whatever requests, sweeps, faults and Sia
  answers follow, a file keeps its shard and its size, and each of its terms stays as it was written.\<close>

theorem published_file_is_stable:
  assumes "(system_step X E G Pw key)\<^sup>*\<^sup>* empty_accounts v" and "(system_step X E G Pw key)\<^sup>*\<^sup>* v w"
    and "map_of (reconstruction_files v) f = Some r"
  shows "(\<exists>r'. map_of (reconstruction_files w) f = Some r' \<and> rf_shard_hash r' = rf_shard_hash r \<and> rf_total_size r' = rf_total_size r)
    \<and> (\<forall>n t. map_of (reconstruction_terms v) (f, n) = Some t \<longrightarrow> map_of (reconstruction_terms w) (f, n) = Some t)"
proof -
  have "cache_inv v \<and> cache_inv v"
    by (rule sys_cache.whole.reachable_inv [OF _ assms(1)]) (simp add: cache_inv_empty)
  then have "cache_inv v \<and> extends v v" by (simp add: extends_def)
  from sys_published.whole.reachable_inv [OF this assms(2)] assms(3) show ?thesis by (auto simp: extends_def)
qed

text \<open>C32: but it can be added to by anybody who may upload. A new shard that claims a known file id is not
  checked against the file: its term at a free index joins the file's reconstruction, its digest
  replaces the file's, the recorded size stays that of the first shard. The caller need not be the
  owner.\<close>

theorem foreign_shard_extends_file:
  assumes "faults w = []" and "map_of (reconstruction_files w) f = Some r" and "map_of (shards w) h = None"
    and "pt_file_id t = f" and "map_of (reconstruction_terms w) (f, pt_term_index t) = None" and "xorb_pinned w (pt_xorb_hash t)"
    and c: "c = commit_shard ctx h sz [\<lparr>pf_file_id = f, pf_total_size = n, pf_sha256 = Some d\<rparr>] [t] w"
  shows "fst c = Inr True \<and> set (joined_terms (snd c) f) = insert t (set (joined_terms w f))
    \<and> map_of (reconstruction_files (snd c)) f = Some (r\<lparr>rf_sha256 := Some d\<rparr>)"
proof -
  obtain x where x: "map_of (xorbs w) (pt_xorb_hash t) = Some x" "pin_state x = Pinned"
    using assms(6) by (auto simp: xorb_pinned_def split: option.splits)
  let ?fs = "put_file h \<lparr>pf_file_id = f, pf_total_size = n, pf_sha256 = Some d\<rparr> (reconstruction_files w)"
  have fs: "map_of ?fs f = Some (r\<lparr>rf_sha256 := Some d\<rparr>)" by (simp add: map_of_put_file assms(2))
  have "c = (Inr True, with_shard ctx h sz [\<lparr>pf_file_id = f, pf_total_size = n, pf_sha256 = Some d\<rparr>] [t] w)"
    using assms(1,3) fs x
    by (simp add: c commit_shard_def transaction_def insert_shard_with_reconstruction_def insert_files_def insert_terms_def db_query_def
        db_exec_def db_checked_def io_step_no_fault bindE_def ret_def insert_row_def record_shard_upload_def usage_insert_def
        db_update_def assms(4) with_shard_def shard_audit_def)
  moreover have "insert_row (term_key t) t (reconstruction_terms w) = reconstruction_terms w @ [(term_key t, t)]"
    using assms(4,5) by (simp add: insert_row_def term_key_def)
  ultimately show ?thesis
    using assms(2,4) x fs
    by (simp add: with_shard_def joined_terms_def xorb_pinned_def)
qed

section \<open>Witnesses\<close>

text \<open>The operator signs in, creates a key, and uploads with it a shard of one empty file.\<close>

definition toy_system :: recon_env where
  "toy_system = \<lparr>e_xet = toy_xet\<lparr>x_file_info := toy_entry \<lparr>fi_file_hash = replicate 32 7, fi_segments = [], fi_sha256 = None\<rparr>\<rparr>,
     e_show_id = toy_id, e_limits = default_limits, e_url = toy_ext, e_signer = toy_signer, e_v2_enabled = True\<rparr>"

lemma with_key_eq:
  "with_key = signed_in\<lparr>api_keys := [(9, new_key (toy_aext hf_claims) [1, 2] toy_session_user toy_request 0)]\<rparr>"
  by (simp add: with_key_def create_key_no_fault signed_in_eq toy_request_def trim_def is_space_def key_acceptable_def
      toy_session_user_def key_with_hash_def)

lemma toy_caller:
  "\<exists>w. auth_scoped (toy_aext hf_claims) [] SCOPE_UPLOAD 0 (Some ''Bearer 0102'') None with_key
       = (Inr \<lparr>ctx_api_key_id = 9, ctx_user_id = - 1, ctx_scopes = [Download, Upload]\<rparr>, w)
     \<and> redis w = (\<lambda>_. None) \<and> faults w = [] \<and> shards w = [] \<and> reconstruction_files w = [] \<and> sia_script w = []"
proof -
  have h: "header_to_str ''Bearer 0102'' = Some ''Bearer 0102''" by (simp add: header_to_str_def)
  have b: "hex_of [1, 2] = ''0102''" by code_simp
  have p: "strip_prefix ''Bearer '' ''Bearer 0102'' = Some ''0102''" by simp
  have j: "\<not> looks_like_jwt ''0102''" by (simp add: looks_like_jwt_def)
  have "\<exists>w. authenticate_key (toy_aext hf_claims) SCOPE_UPLOAD ''0102'' with_key
       = (Inr \<lparr>ctx_api_key_id = 9, ctx_user_id = - 1, ctx_scopes = [Download, Upload]\<rparr>, w)
     \<and> redis w = (\<lambda>_. None) \<and> faults w = [] \<and> shards w = [] \<and> reconstruction_files w = [] \<and> sia_script w = []"
    by (simp add: with_key_eq signed_in_eq authenticate_key_def lookup_key_def io_defs cache_get_def fetch_active_key_by_hash_def
        db_query_def io_step_no_fault active_key_def touch_last_used_def db_update_def new_key_def b toy_request_def toy_session_user_def
        require_scope_def scope_consts from_u8_def empty_accounts_def empty_world_def world.defs)
  then show ?thesis using j by (simp add: auth_scoped_def h p)
qed

lemma toy_published:
  "\<exists>r v. upload_shard_route (toy_aext hf_claims) toy_system [] 0 (Some ''Bearer 0102'') None (Some toy_shard) with_key = Some (r, v)
     \<and> map_of (reconstruction_files v) (replicate 32 7) \<noteq> None"
proof -
  let ?ctx = "\<lparr>ctx_api_key_id = 9, ctx_user_id = - 1, ctx_scopes = [Download, Upload]\<rparr>"
  obtain w where w: "auth_scoped (toy_aext hf_claims) [] SCOPE_UPLOAD 0 (Some ''Bearer 0102'') None with_key = (Inr ?ctx, w)"
    "redis w = (\<lambda>_. None)" "faults w = []" "shards w = []" "reconstruction_files w = []" "sia_script w = []"
    using toy_caller by blast
  obtain rd where c: "check toy_id default_limits UploadClass 9 w = (Inr (), w\<lparr>redis := rd\<rparr>)"
    using toy_check [OF w(2,3)] by blast
  let ?xet = "toy_xet\<lparr>x_file_info := toy_entry \<lparr>fi_file_hash = replicate 32 7, fi_segments = [], fi_sha256 = None\<rparr>\<rparr>"
  obtain p where p: "parse_and_validate ?xet toy_shard = Some (Inr p)"
    "ps_referenced_xorb_hashes p = []" "ps_terms p = []" "map pf_file_id (ps_files p) = [replicate 32 7]"
    by (simp add: parse_and_validate_def toy_xet_def toy_shard_def EXPECTED_HEADER_VERSION_def toy_read toy_xorb_info_def Let_def parsed_file_def)
  have "\<exists>r v. upload_parsed_shard (cas_env.truncate toy_system) ?ctx toy_shard (Inr p) w = (r, v)
      \<and> map_of (reconstruction_files v) (replicate 32 7) \<noteq> None"
    using w(2-) c p(2-)
    by (auto simp: upload_parsed_shard_def tolerated_def io_defs cross_check_def revive_orphaned_xorbs_def which_xorbs_are_pinned_def
        get_chunk_boundaries_def toy_system_def cas_env.defs rewrite_terms_def store_shard_def Let_def commit_shard_def transaction_def
        insert_shard_with_reconstruction_def insert_files_def insert_terms_def db_query_def db_exec_def db_checked_def io_step_no_fault
        insert_row_def record_shard_upload_def usage_insert_def db_update_def sia_op_def finish_shard_def shards_set_pin_state_def
        map_of_put_file)
  moreover have "read_body MAX_SHARD_BYTES ''shard_too_large'' (Some toy_shard) = Inr toy_shard"
    by (simp add: read_body_def MAX_SHARD_BYTES_def toy_shard_def)
  ultimately show ?thesis
    using w(1) p(1) by (simp add: upload_shard_route_def upload_shard_def toy_system_def cas_env.defs)
qed

lemma toy_reached: "(system_step (toy_aext hf_claims) toy_system toy_github toy_pw [])\<^sup>*\<^sup>* empty_accounts with_key"
  using with_key_reachable
  by (rule rtranclp_mono [THEN predicate2D, rotated]) (auto intro: sy_account)

theorem reachable_state_ok_witness:
  "\<exists>w. map_of (reconstruction_files w) (replicate 32 7) \<noteq> None \<and> cas_inv w \<and> owners_known (w :: accounts)"
proof -
  obtain r v where v: "upload_shard_route (toy_aext hf_claims) toy_system [] 0 (Some ''Bearer 0102'') None (Some toy_shard) with_key = Some (r, v)"
    "map_of (reconstruction_files v) (replicate 32 7) \<noteq> None" using toy_published by blast
  have "(system_step (toy_aext hf_claims) toy_system toy_github toy_pw [])\<^sup>*\<^sup>* empty_accounts v"
    using toy_reached sy_shard [OF v(1)] by (rule rtranclp.rtrancl_into_rtrancl)
  from reachable_state_ok [OF this] v(2) show ?thesis by blast
qed

theorem published_file_is_stable_witness:
  "\<exists>v r r'. map_of (reconstruction_files v) (replicate 32 7) = Some r
     \<and> map_of (reconstruction_files (run_reconciler_tick (v :: accounts))) (replicate 32 7) = Some r' \<and> rf_total_size r' = rf_total_size r"
proof -
  obtain a v r where v: "upload_shard_route (toy_aext hf_claims) toy_system [] 0 (Some ''Bearer 0102'') None (Some toy_shard) with_key = Some (a, v)"
    "map_of (reconstruction_files v) (replicate 32 7) = Some r" using toy_published by blast
  have "(system_step (toy_aext hf_claims) toy_system toy_github toy_pw [])\<^sup>*\<^sup>* empty_accounts v"
    using toy_reached sy_shard [OF v(1)] by (rule rtranclp.rtrancl_into_rtrancl)
  moreover have "(system_step (toy_aext hf_claims) toy_system toy_github toy_pw [])\<^sup>*\<^sup>* v (run_reconciler_tick v)"
    by (rule r_into_rtranclp) (rule sy_sweep)
  ultimately show ?thesis using published_file_is_stable v(2) by blast
qed

theorem foreign_shard_extends_file_witness:
  "\<exists>w t. pt_file_id t = replicate 32 7 \<and> fst (commit_shard toy_ctx [8] 1
        [\<lparr>pf_file_id = replicate 32 7, pf_total_size = 0, pf_sha256 = Some [6]\<rparr>] [t] (w :: world)) = Inr True"
proof -
  let ?t = "ex_term (replicate 32 7) 5 (replicate 32 1) 0 100"
  let ?w = "empty_world\<lparr>xorbs := [(replicate 32 1, ex_xorb Pinned)],
    reconstruction_files := [(replicate 32 7, \<lparr>rf_shard_hash = [9], rf_total_size = 10, rf_sha256 = None\<rparr>)]\<rparr>"
  have "pt_file_id ?t = replicate 32 7" "faults ?w = []" "map_of (shards ?w) [8] = None"
    "map_of (reconstruction_terms ?w) (replicate 32 7, pt_term_index ?t) = None" "xorb_pinned ?w (pt_xorb_hash ?t)"
    by (simp_all add: empty_world_def ex_term_def ex_xorb_def xorb_pinned_def)
  moreover have "map_of (reconstruction_files ?w) (replicate 32 7) = Some \<lparr>rf_shard_hash = [9], rf_total_size = 10, rf_sha256 = None\<rparr>"
    by simp
  ultimately show ?thesis
    using foreign_shard_extends_file [where w = ?w and t = ?t and h = "[8]" and ctx = toy_ctx and sz = 1 and n = 0 and d = "[6]"]
    by blast
qed

end
