(* ===== verification/Hub_Commit.thy ===== *)
theory Hub_Commit
  imports Hub Uploads
begin

text \<open>
  \<^verbatim>\<open>hfapi::commit\<close>: a commit is a newline-delimited list of JSON entries; every file entry is resolved to
  a stored object, then the commit, its files and the branch are written in one transaction.
\<close>

section \<open>Reading the body\<close>

definition json_get :: "string \<Rightarrow> json \<Rightarrow> json option" where
  "json_get k v = (case v of JObj m \<Rightarrow> map_of m k | _ \<Rightarrow> None)"

definition entry_key :: "json \<Rightarrow> string" where
  "entry_key v = (case json_get ''key'' v of Some (JStr s) \<Rightarrow> s | _ \<Rightarrow> [])"

definition entry_value :: "json \<Rightarrow> json" where
  "entry_value v = (case json_get ''value'' v of Some x \<Rightarrow> x | None \<Rightarrow> JNull)"

definition default_header :: CommitHeader where
  "default_header = \<lparr>ch_summary = None, ch_description = None\<rparr>"

fun commit_entries ::
  "hub_env \<Rightarrow> byte list list \<Rightarrow> CommitHeader \<Rightarrow> CommitFile list \<Rightarrow> AppError + (CommitHeader \<times> CommitFile list)" where
  "commit_entries H [] hdr fs = Inr (hdr, fs)"
| "commit_entries H (line # ls) hdr fs =
     (case h_json H line of
        None \<Rightarrow> Inl (BadRequest ''malformed_ndjson'')
      | Some v \<Rightarrow>
          if entry_key v = ''header'' then
            commit_entries H ls (case h_commit_header H (entry_value v) of Some h \<Rightarrow> h | None \<Rightarrow> default_header) fs
          else if entry_key v \<in> {''file'', ''lfsFile'', ''xetFile''} then
            (case h_commit_file H (entry_value v) of
               None \<Rightarrow> Inl (BadRequest ''malformed_file_entry'')
             | Some f \<Rightarrow> commit_entries H ls hdr (fs @ [f]))
          else commit_entries H ls hdr fs)"

definition parse_commit :: "hub_env \<Rightarrow> byte list \<Rightarrow> AppError + (CommitHeader \<times> CommitFile list)" where
  "parse_commit H raw = commit_entries H (filter (\<lambda>l. l \<noteq> []) (split_on 10 raw)) default_header []"

section \<open>Resolving the files\<close>

type_synonym staged = "string \<times> file_row"

definition xet_row :: "byte list \<Rightarrow> int \<Rightarrow> file_row" where
  "xet_row h sz = \<lparr>fl_size_bytes = sz, fl_xet_hash = Some h, fl_lfs_oid = None\<rparr>"

definition lfs_file_row :: "byte list \<Rightarrow> int \<Rightarrow> file_row" where
  "lfs_file_row oid sz = \<lparr>fl_size_bytes = sz, fl_xet_hash = None, fl_lfs_oid = Some oid\<rparr>"

definition inline_content :: "'x auth_ext_scheme \<Rightarrow> string \<Rightarrow> hub_error + byte list" where
  "inline_content X inline =
     (case x_b64_std_decode X inline of
        None \<Rightarrow> Inl (App (BadRequest ''bad_inline_content''))
      | Some decoded \<Rightarrow>
          if length decoded > MAX_LFS_INLINE_BYTES then Inl (App (BadRequest ''lfs_object_too_large'')) else Inr decoded)"

text \<open>The file registered last among those with this digest and size.\<close>

definition claimed_file :: "'z world_scheme \<Rightarrow> byte list \<Rightarrow> int \<Rightarrow> hash option" where
  "claimed_file w oid sz =
     map_option fst (find (\<lambda>(f, r). rf_sha256 r = Some oid \<and> rf_total_size r = sz) (rev (reconstruction_files w)))"

definition stage_xet :: "CommitFile \<Rightarrow> string \<Rightarrow> ('z, hub_error, staged) hub_io" where
  "stage_xet f xh =
     bindE (lift_res (hex_arg ''bad_xet_hash'' xh)) (\<lambda>bytes.
     bindE (app (db_query (\<lambda>w. map_option size_bytes (map_of (xorbs w) bytes)))) (\<lambda>present.
     bindE (lift_res (ok_or (App (BadRequest ''xet_hash_not_uploaded''))
        (case present of Some s \<Rightarrow> Some s | None \<Rightarrow> cf_size f))) (\<lambda>sz.
     ret (cf_path f, xet_row bytes sz))))"

definition stage_oid :: "'x auth_ext_scheme \<Rightarrow> CommitFile \<Rightarrow> string \<Rightarrow> ('z, hub_error, staged) hub_io" where
  "stage_oid X f oid =
     bindE (lift_res (hex_arg ''bad_oid'' oid)) (\<lambda>oid_bytes.
     case cf_content f of
       Some inline \<Rightarrow>
         bindE (lift_res (inline_content X inline)) (\<lambda>decoded.
         if oid_bytes \<noteq> x_digest X decoded then raise (App (BadRequest ''inline_oid_mismatch''))
         else
         bindE (app (put_lfs oid_bytes decoded)) (\<lambda>_.
         ret (cf_path f, lfs_file_row oid_bytes (int (length decoded)))))
     | None \<Rightarrow>
         bindE (app (db_query (\<lambda>w. map_option lo_size_bytes (map_of (lfs_objects w) oid_bytes)))) (\<lambda>present.
         case present of
           Some sz \<Rightarrow> ret (cf_path f, lfs_file_row oid_bytes sz)
         | None \<Rightarrow>
             bindE (lift_res (ok_or (App (BadRequest ''missing_size'')) (cf_size f))) (\<lambda>sz.
             bindE (app (db_query (\<lambda>w. claimed_file w oid_bytes sz))) (\<lambda>claim.
             case claim of
               Some fid \<Rightarrow> ret (cf_path f, xet_row fid sz)
             | None \<Rightarrow> raise (App (BadRequest ''lfs_oid_not_uploaded''))))))"

definition stage_inline :: "'x auth_ext_scheme \<Rightarrow> CommitFile \<Rightarrow> string \<Rightarrow> ('z, hub_error, staged) hub_io" where
  "stage_inline X f inline =
     bindE (lift_res (inline_content X inline)) (\<lambda>decoded.
     bindE (app (put_lfs (x_digest X decoded) decoded)) (\<lambda>_.
     ret (cf_path f, lfs_file_row (x_digest X decoded) (int (length decoded)))))"

definition stage_file :: "'x auth_ext_scheme \<Rightarrow> CommitFile \<Rightarrow> ('z, hub_error, staged) hub_io" where
  "stage_file X f =
     (case cf_xet_hash f of
        Some xh \<Rightarrow> stage_xet f xh
      | None \<Rightarrow>
     (case cf_oid f of
        Some oid \<Rightarrow> stage_oid X f oid
      | None \<Rightarrow>
     (case cf_content f of
        Some inline \<Rightarrow> stage_inline X f inline
      | None \<Rightarrow> raise (App (BadRequest ''file_entry_missing_backend'')))))"

fun stage_files :: "'x auth_ext_scheme \<Rightarrow> CommitFile list \<Rightarrow> ('z, hub_error, staged list) hub_io" where
  "stage_files X [] = ret []"
| "stage_files X (f # fs) = bindE (stage_file X f) (\<lambda>r. bindE (stage_files X fs) (\<lambda>rs. ret (r # rs)))"

section \<open>Writing the commit\<close>

fun insert_repo_files :: "int \<Rightarrow> staged list \<Rightarrow> ('z, AppError, unit) hub_io" where
  "insert_repo_files cid [] = ret ()"
| "insert_repo_files cid ((path, row) # rs) =
     bindE (db_checked
        (\<lambda>w. map_of (repo_commits w) cid \<noteq> None \<and> map_of (repo_files w) (cid, path) = None
           \<and> (fl_xet_hash row \<noteq> None) \<noteq> (fl_lfs_oid row \<noteq> None))
        (\<lambda>w. w\<lparr>repo_files := insert_row (cid, path) row (repo_files w)\<rparr>)) (\<lambda>_.
     insert_repo_files cid rs)"

definition upsert :: "'k \<Rightarrow> 'v \<Rightarrow> ('k \<times> 'v) list \<Rightarrow> ('k \<times> 'v) list" where
  "upsert k v t = (if map_of t k = None then t @ [(k, v)] else update_row k (\<lambda>_. v) t)"

definition commit_message :: "CommitHeader \<Rightarrow> string" where
  "commit_message hdr = (case ch_summary hdr of Some s \<Rightarrow> s | None \<Rightarrow>
     (case ch_description hdr of Some s \<Rightarrow> s | None \<Rightarrow> ''Upload via hf CLI''))"

definition commit_tx ::
  "int \<Rightarrow> int \<Rightarrow> AuthContext \<Rightarrow> CommitHeader \<Rightarrow> staged list \<Rightarrow> ('z, AppError, unit) hub_io" where
  "commit_tx cid rid ctx hdr rows =
     bindE (db_query (\<lambda>w. map_of (repo_refs w) (rid, ''main''))) (\<lambda>parent.
     bindE (db_checked
       (\<lambda>w. map_of (repos w) rid \<noteq> None \<and> map_of (users w) (ctx_user_id ctx) \<noteq> None
          \<and> map_of (api_keys w) (ctx_api_key_id ctx) \<noteq> None \<and> map_of (repo_commits w) cid = None)
       (\<lambda>w. w\<lparr>repo_commits := insert_row cid
          \<lparr>cm_repo_id = rid, cm_parent = parent, cm_author_user_id = ctx_user_id ctx,
           cm_author_api_key_id = ctx_api_key_id ctx, cm_message = commit_message hdr, cm_committed_at = clock w\<rparr>
          (repo_commits w)\<rparr>)) (\<lambda>_.
     bindE (insert_repo_files cid rows) (\<lambda>_.
     bindE (db_update (\<lambda>w. w\<lparr>repo_refs := upsert (rid, ''main'') cid (repo_refs w)\<rparr>)) (\<lambda>_.
     db_update (\<lambda>w. w\<lparr>repos := update_row rid (\<lambda>r. r\<lparr>rp_updated_at := clock w\<rparr>) (repos w)\<rparr>)))))"

definition write_commit ::
  "int \<Rightarrow> int \<Rightarrow> AuthContext \<Rightarrow> CommitHeader \<Rightarrow> staged list \<Rightarrow> ('z, AppError, unit) hub_io" where
  "write_commit cid rid ctx hdr rows = transaction (commit_tx cid rid ctx hdr rows)"

record CommitResp =
  cr_success :: bool
  cr_commit_url :: string
  cr_commit_oid :: string

definition starts_with :: "string \<Rightarrow> string \<Rightarrow> bool" where
  "starts_with p s \<longleftrightarrow> strip_prefix p s \<noteq> None"

definition header_text :: "string option \<Rightarrow> string option" where
  "header_text h = (case h of None \<Rightarrow> None | Some v \<Rightarrow> header_to_str v)"

definition commit_url :: "string option \<Rightarrow> string option \<Rightarrow> string \<Rightarrow> string \<Rightarrow> string \<Rightarrow> string" where
  "commit_url host_header proto_header owner repo oid =
     (let host = (case header_text host_header of Some h \<Rightarrow> h | None \<Rightarrow> ''localhost'');
          scheme = (case header_text proto_header of Some p \<Rightarrow> p | None \<Rightarrow>
             if starts_with ''localhost'' host \<or> starts_with ''127.'' host then ''http'' else ''https'')
      in scheme @ ''://'' @ host @ ''/'' @ owner @ ''/'' @ repo @ ''/commit/'' @ oid)"

definition commit ::
  "hub_env \<Rightarrow> int \<Rightarrow> AuthContext \<Rightarrow> string \<Rightarrow> string \<Rightarrow> string \<Rightarrow> string option \<Rightarrow> string option \<Rightarrow> byte list option
     \<Rightarrow> ('z, hub_error, CommitResp) hub_io" where
  "commit H new_id ctx owner repo ref_name host_header proto_header body =
     (if ref_name \<noteq> ''main'' then raise (App (BadRequest ''only_main_ref_in_v1''))
      else
      bindE (app (find_repo_id owner repo)) (\<lambda>rid.
      bindE (app (require_ownership rid (ctx_user_id ctx))) (\<lambda>_.
      bindE (lift_res (bounded_body MAX_COMMIT_BYTES ''commit_too_large'' body)) (\<lambda>raw.
      case parse_commit H raw of
        Inl e \<Rightarrow> raise (App e)
      | Inr (hdr, files) \<Rightarrow>
          bindE (stage_files H files) (\<lambda>rows.
          bindE (app (write_commit new_id rid ctx hdr rows)) (\<lambda>_.
          let oid = commit_oid_for H new_id in
          ret \<lparr>cr_success = True, cr_commit_url = commit_url host_header proto_header owner repo oid, cr_commit_oid = oid\<rparr>))))))"

section \<open>A commit is one change\<close>

lemma hub_checked_Inr:
  assumes "db_checked ok f w = (Inr u, w')"
  obtains fs where "ok (w\<lparr>faults := fs\<rparr>)" "w' = f (w\<lparr>faults := fs\<rparr>)"
proof (cases rule: io_step_cases [of db_error "\<lambda>w. if ok w then (True, f w) else (False, w)" w])
  case (fault fs)
  with assms show ?thesis by (simp add: db_checked_def db_exec_def bindE_def)
next
  case (ran fs)
  with assms show ?thesis
    by (intro that [of fs]) (auto simp: db_checked_def db_exec_def bindE_def ret_def raise_def split: if_split_asm)
qed

lemma db_update_Inr:
  assumes "db_update f w = (Inr u, w')"
  obtains fs where "w' = f (w\<lparr>faults := fs\<rparr>)"
  by (cases rule: io_step_cases [of db_error "\<lambda>w. ((), f w)" w]) (use assms that in \<open>auto simp: db_update_def\<close>)

lemma hub_query_Inr:
  assumes "db_query f w = (Inr a, w')"
  obtains fs where "a = f (w\<lparr>faults := fs\<rparr>)" "w' = w\<lparr>faults := fs\<rparr>"
  by (cases rule: io_step_cases [of db_error "\<lambda>w. (f w, w)" w]) (use assms that in \<open>auto simp: db_query_def\<close>)

lemma bind_Inr:
  assumes "bindE m f w = (Inr b, w')"
  obtains a w1 where "m w = (Inr a, w1)" "f a w1 = (Inr b, w')"
  using assms by (auto simp: bindE_def split: prod.split_asm sum.split_asm)

definition tree_rows :: "int \<Rightarrow> staged list \<Rightarrow> ((int \<times> string) \<times> file_row) list" where
  "tree_rows cid rows = map (\<lambda>(p, r). ((cid, p), r)) rows"

definition one_backend :: "file_row \<Rightarrow> bool" where
  "one_backend r \<longleftrightarrow> (fl_xet_hash r \<noteq> None) \<noteq> (fl_lfs_oid r \<noteq> None)"

definition fresh_tree :: "int \<Rightarrow> staged list \<Rightarrow> 'z hub_scheme \<Rightarrow> bool" where
  "fresh_tree cid rows w \<longleftrightarrow> distinct (map fst rows)
     \<and> (\<forall>r\<in>set rows. one_backend (snd r) \<and> map_of (repo_files w) (cid, fst r) = None)"

lemma insert_repo_file_Inr:
  assumes "insert_repo_files cid ((p, r) # rows) w = (Inr u, w')"
  obtains fs where "map_of (repo_files w) (cid, p) = None" "one_backend r"
    "insert_repo_files cid rows (w\<lparr>faults := fs, repo_files := repo_files w @ [((cid, p), r)]\<rparr>) = (Inr u, w')"
  using assms unfolding insert_repo_files.simps
  by (elim bind_Inr hub_checked_Inr) (auto simp: one_backend_def insert_row_def)

lemma insert_repo_files_Inr:
  assumes "insert_repo_files cid rows w = (Inr u, w')"
  shows "\<exists>fs. w' = w\<lparr>faults := fs, repo_files := repo_files w @ tree_rows cid rows\<rparr> \<and> fresh_tree cid rows w"
  using assms
proof (induction rows arbitrary: w)
  case Nil
  then have "w' = w\<lparr>faults := faults w, repo_files := repo_files w\<rparr>" by (simp add: ret_def)
  then show ?case by (intro exI [of _ "faults w"]) (simp add: tree_rows_def fresh_tree_def)
next
  case (Cons row rows)
  obtain p r where row: "row = (p, r)" by fastforce
  from Cons.prems [unfolded row] obtain f0 where free: "map_of (repo_files w) (cid, p) = None" and ob: "one_backend r"
    and rest: "insert_repo_files cid rows (w\<lparr>faults := f0, repo_files := repo_files w @ [((cid, p), r)]\<rparr>) = (Inr u, w')"
    by (rule insert_repo_file_Inr)
  from Cons.IH [OF rest] obtain fs where
    w': "w' = w\<lparr>faults := fs, repo_files := repo_files w @ tree_rows cid (row # rows)\<rparr>" and
    q: "fresh_tree cid rows (w\<lparr>faults := f0, repo_files := repo_files w @ [((cid, p), r)]\<rparr>)"
    by (auto simp: tree_rows_def row)
  from q free ob row have "fresh_tree cid (row # rows) w"
    by (auto simp: fresh_tree_def map_add_def split: option.splits if_splits)
  with w' show ?case by blast
qed

definition new_commit :: "int \<Rightarrow> AuthContext \<Rightarrow> CommitHeader \<Rightarrow> 'z hub_scheme \<Rightarrow> commit_row" where
  "new_commit rid ctx hdr w =
     \<lparr>cm_repo_id = rid, cm_parent = map_of (repo_refs w) (rid, ''main''), cm_author_user_id = ctx_user_id ctx,
      cm_author_api_key_id = ctx_api_key_id ctx, cm_message = commit_message hdr, cm_committed_at = clock w\<rparr>"

text \<open>The abstract commit: one more row of the history, its tree, the branch moved to it, the repository touched.\<close>

definition committed :: "int \<Rightarrow> int \<Rightarrow> AuthContext \<Rightarrow> CommitHeader \<Rightarrow> staged list \<Rightarrow> 'z hub_scheme \<Rightarrow> 'z hub_scheme" where
  "committed cid rid ctx hdr rows w =
     w\<lparr>repo_commits := repo_commits w @ [(cid, new_commit rid ctx hdr w)],
       repo_files := repo_files w @ tree_rows cid rows,
       repo_refs := upsert (rid, ''main'') cid (repo_refs w),
       repos := update_row rid (\<lambda>r. r\<lparr>rp_updated_at := clock w\<rparr>) (repos w)\<rparr>"

definition can_commit :: "int \<Rightarrow> int \<Rightarrow> staged list \<Rightarrow> 'z hub_scheme \<Rightarrow> bool" where
  "can_commit cid rid rows w \<longleftrightarrow> map_of (repos w) rid \<noteq> None \<and> map_of (repo_commits w) cid = None \<and> fresh_tree cid rows w"

lemma committed_faults:
  "(committed cid rid ctx hdr rows (w\<lparr>faults := f\<rparr>))\<lparr>faults := g\<rparr> = (committed cid rid ctx hdr rows w)\<lparr>faults := g\<rparr>"
  by (simp add: committed_def new_commit_def)

lemma commit_tx_Inr:
  assumes "commit_tx cid rid ctx hdr rows w = (Inr u, w')"
  shows "\<exists>fs. w' = (committed cid rid ctx hdr rows w)\<lparr>faults := fs\<rparr> \<and> can_commit cid rid rows w"
proof -
  from assms [unfolded commit_tx_def] obtain parent w1 w2 w3 w4 where
    q: "db_query (\<lambda>w. map_of (repo_refs w) (rid, ''main'')) w = (Inr parent, w1)" and
    c: "db_checked
       (\<lambda>w. map_of (repos w) rid \<noteq> None \<and> map_of (users w) (ctx_user_id ctx) \<noteq> None
          \<and> map_of (api_keys w) (ctx_api_key_id ctx) \<noteq> None \<and> map_of (repo_commits w) cid = None)
       (\<lambda>w. w\<lparr>repo_commits := insert_row cid
          \<lparr>cm_repo_id = rid, cm_parent = parent, cm_author_user_id = ctx_user_id ctx,
           cm_author_api_key_id = ctx_api_key_id ctx, cm_message = commit_message hdr, cm_committed_at = clock w\<rparr>
          (repo_commits w)\<rparr>) w1 = (Inr (), w2)" and
    f: "insert_repo_files cid rows w2 = (Inr (), w3)" and
    r: "db_update (\<lambda>w. w\<lparr>repo_refs := upsert (rid, ''main'') cid (repo_refs w)\<rparr>) w3 = (Inr (), w4)" and
    t: "db_update (\<lambda>w. w\<lparr>repos := update_row rid (\<lambda>r. r\<lparr>rp_updated_at := clock w\<rparr>) (repos w)\<rparr>) w4 = (Inr u, w')"
    by (elim bind_Inr) auto
  from q obtain f1 where w1: "parent = map_of (repo_refs w) (rid, ''main'')" "w1 = w\<lparr>faults := f1\<rparr>"
    by (rule hub_query_Inr) simp
  from c obtain f2 where
    g: "map_of (repos (w1\<lparr>faults := f2\<rparr>)) rid \<noteq> None \<and> map_of (users (w1\<lparr>faults := f2\<rparr>)) (ctx_user_id ctx) \<noteq> None
        \<and> map_of (api_keys (w1\<lparr>faults := f2\<rparr>)) (ctx_api_key_id ctx) \<noteq> None \<and> map_of (repo_commits (w1\<lparr>faults := f2\<rparr>)) cid = None" and
    e: "w2 = w1\<lparr>faults := f2, repo_commits := insert_row cid
          \<lparr>cm_repo_id = rid, cm_parent = parent, cm_author_user_id = ctx_user_id ctx,
           cm_author_api_key_id = ctx_api_key_id ctx, cm_message = commit_message hdr, cm_committed_at = clock w1\<rparr>
          (repo_commits w1)\<rparr>"
    by (rule hub_checked_Inr) (rule that, assumption, simp)
  from g w1 have free: "map_of (repos w) rid \<noteq> None" "map_of (repo_commits w) cid = None" by simp_all
  have w2: "w2 = w\<lparr>faults := f2, repo_commits := repo_commits w @ [(cid, new_commit rid ctx hdr w)]\<rparr>"
    by (simp add: e w1 free new_commit_def insert_row_def)
  from insert_repo_files_Inr [OF f] obtain f3 where
    w3: "w3 = w2\<lparr>faults := f3, repo_files := repo_files w2 @ tree_rows cid rows\<rparr>" and ft: "fresh_tree cid rows w2" by blast
  from r obtain f4 where w4: "w4 = w3\<lparr>faults := f4, repo_refs := upsert (rid, ''main'') cid (repo_refs w3)\<rparr>"
    by (rule db_update_Inr) simp
  from t obtain f5 where w5: "w' = w4\<lparr>faults := f5, repos := update_row rid (\<lambda>r. r\<lparr>rp_updated_at := clock w4\<rparr>) (repos w4)\<rparr>"
    by (rule db_update_Inr) simp
  have "w' = (committed cid rid ctx hdr rows w)\<lparr>faults := f5\<rparr>"
    by (simp add: w5 w4 w3 w2 committed_def)
  with free ft show ?thesis by (auto simp: can_commit_def fresh_tree_def w2)
qed

lemma write_commit_outcome:
  obtains (refused) e fs where "write_commit cid rid ctx hdr rows w = (Inl e, w\<lparr>faults := fs\<rparr>)"
  | (ok) fs where "write_commit cid rid ctx hdr rows w = (Inr (), (committed cid rid ctx hdr rows w)\<lparr>faults := fs\<rparr>)"
      "can_commit cid rid rows w"
proof (cases "write_commit cid rid ctx hdr rows w")
  case (Pair r w')
  note t = transaction_outcome [where body = "commit_tx cid rid ctx hdr rows" and w = w, folded write_commit_def, unfolded Pair]
  show ?thesis
  proof (cases r)
    case (Inl e)
    with t Pair show ?thesis by (auto intro: refused)
  next
    case (Inr u)
    with t obtain fs f0 w1 where w': "w' = w1\<lparr>faults := fs\<rparr>" and b: "commit_tx cid rid ctx hdr rows (w\<lparr>faults := f0\<rparr>) = (Inr u, w1)"
      by auto
    from commit_tx_Inr [OF b] w' have "w' = (committed cid rid ctx hdr rows w)\<lparr>faults := fs\<rparr>" "can_commit cid rid rows w"
      by (auto simp: committed_faults can_commit_def fresh_tree_def committed_def new_commit_def)
    with Pair Inr show ?thesis by (auto intro: ok)
  qed
qed

end
