(* ===== verification/Hub_System.thy ===== *)
theory Hub_System
  imports Store_System Hub_Commit Hub_Read
begin

text \<open>
  The whole server with its hub: the endpoints of \<^verbatim>\<open>handlers/hfapi.rs\<close> behind their extractors, beside every
  step of \<open>Store_System\<close>. The locale \<open>hub_inv\<close> is the contract of a predicate with the changes the hub makes;
  the properties are about commits, the history of repositories, and the stored objects.
\<close>

section \<open>The steps\<close>

text \<open>An endpoint behind \<^verbatim>\<open>AuthScoped\<close>.\<close>

definition hub_auth :: "hub_env \<Rightarrow> byte \<Rightarrow> uuid \<Rightarrow> string option \<Rightarrow> string option \<Rightarrow> ('z, AppError, AuthContext) hub_io" where
  "hub_auth H S i ah xh = auth_scoped H (h_signing_key H) S i ah xh"

definition whoami_route :: "hub_env \<Rightarrow> uuid \<Rightarrow> string option \<Rightarrow> string option \<Rightarrow> ('z, AppError, WhoAmI) hub_io" where
  "whoami_route H i ah xh = bindE (hub_auth H SCOPE_ANY i ah xh) whoami_v2"

definition create_repo_route ::
  "hub_env \<Rightarrow> uuid \<Rightarrow> string option \<Rightarrow> string option \<Rightarrow> int \<Rightarrow> CreateRepoReq \<Rightarrow> ('z, AppError, CreateRepoResp) hub_io" where
  "create_repo_route H i ah xh new_id req = bindE (hub_auth H SCOPE_UPLOAD i ah xh) (\<lambda>ctx. create_repo new_id ctx req)"

definition preupload_route ::
  "hub_env \<Rightarrow> uuid \<Rightarrow> string option \<Rightarrow> string option \<Rightarrow> string \<Rightarrow> string \<Rightarrow> (string \<times> int option) list
     \<Rightarrow> ('z, AppError, PreuploadFileResp list) hub_io" where
  "preupload_route H i ah xh owner repo files = bindE (hub_auth H SCOPE_UPLOAD i ah xh) (\<lambda>ctx. preupload ctx owner repo files)"

definition write_token_route ::
  "hub_env \<Rightarrow> uuid \<Rightarrow> string option \<Rightarrow> string option \<Rightarrow> string \<Rightarrow> string \<Rightarrow> ('z, AppError, XetTokenResp) hub_io" where
  "write_token_route H i ah xh owner repo = bindE (hub_auth H SCOPE_UPLOAD i ah xh) (\<lambda>ctx. xet_write_token H ctx owner repo)"

definition read_token_route ::
  "hub_env \<Rightarrow> uuid \<Rightarrow> string option \<Rightarrow> string option \<Rightarrow> string \<Rightarrow> string \<Rightarrow> ('z, AppError, XetTokenResp) hub_io" where
  "read_token_route H i ah xh owner repo = bindE (hub_auth H SCOPE_DOWNLOAD i ah xh) (\<lambda>ctx. xet_read_token H ctx owner repo)"

definition lfs_batch_route ::
  "hub_env \<Rightarrow> uuid \<Rightarrow> string option \<Rightarrow> string option \<Rightarrow> string \<Rightarrow> string \<Rightarrow> string \<Rightarrow> string list \<Rightarrow> (string \<times> int) list
     \<Rightarrow> ('z, hub_error, string \<times> LfsObjectResp list) hub_io" where
  "lfs_batch_route H i ah xh owner repo operation transfers objects =
     bindE (app (hub_auth H SCOPE_UPLOAD i ah xh)) (\<lambda>ctx. lfs_objects_batch H ctx owner repo ah operation transfers objects)"

definition commit_route ::
  "hub_env \<Rightarrow> uuid \<Rightarrow> string option \<Rightarrow> string option \<Rightarrow> int \<Rightarrow> string \<Rightarrow> string \<Rightarrow> string \<Rightarrow> string option \<Rightarrow> string option
     \<Rightarrow> byte list option \<Rightarrow> ('z, hub_error, CommitResp) hub_io" where
  "commit_route H i ah xh new_id owner repo ref_name host proto body =
     bindE (app (hub_auth H SCOPE_UPLOAD i ah xh)) (\<lambda>ctx. commit H new_id ctx owner repo ref_name host proto body)"

inductive hub_step ::
  "hub_env \<Rightarrow> recon_env \<Rightarrow> github_env \<Rightarrow> password_env \<Rightarrow> 'z hub_scheme \<Rightarrow> 'z hub_scheme \<Rightarrow> bool"
  for H :: hub_env and E :: recon_env and G :: github_env and Pw :: password_env where
  hs_system: "system_step (auth_ext.truncate H) E G Pw (h_signing_key H) w w' \<Longrightarrow> hub_step H E G Pw w w'"
| hs_whoami: "hub_step H E G Pw w (snd (whoami_route H i ah xh w))"
| hs_create: "hub_step H E G Pw w (snd (create_repo_route H i ah xh new_id req w))"
| hs_preupload: "hub_step H E G Pw w (snd (preupload_route H i ah xh owner repo files w))"
| hs_write_token: "hub_step H E G Pw w (snd (write_token_route H i ah xh owner repo w))"
| hs_read_token: "hub_step H E G Pw w (snd (read_token_route H i ah xh owner repo w))"
| hs_batch: "hub_step H E G Pw w (snd (lfs_batch_route H i ah xh owner repo operation transfers objects w))"
| hs_commit: "hub_step H E G Pw w (snd (commit_route H i ah xh new_id owner repo ref_name host proto body w))"
| hs_lfs_put: "hub_step H E G Pw w (snd (lfs_upload H oid body w))"
| hs_lfs_get: "hub_step H E G Pw w (snd (lfs_download H oid rid ah w))"
| hs_serve: "hub_step H E G Pw w (snd (xet_file_serve H hx rid ah w))"
| hs_info: "hub_step H E G Pw w (snd (model_info H owner repo ah w))"
| hs_info_rev: "hub_step H E G Pw w (snd (model_info_rev H owner repo revision ah w))"
| hs_objects: "hub_step H E G Pw w (snd (model_objects H owner repo ah w))"
| hs_trend: "hub_step H E G Pw w (snd (model_downloads_trend H owner repo ah w))"
| hs_list: "hub_step H E G Pw w (snd (list_models H w))"
| hs_stats: "hub_step H E G Pw w (snd (platform_stats w))"
| hs_head: "hub_step H E G Pw w (snd (resolve_head H owner repo revision p ah w))"
| hs_get: "hub_step H E G Pw w (snd (resolve_get H owner repo revision p ah w))"
| hs_gateway: "hub_step H E G Pw w (w\<lparr>download_log := download_log w @ [d]\<rparr>)"

section \<open>Staging a commit\<close>

lemma keeps_put_lfs:
  assumes "frame P" and "\<And>w. P w \<Longrightarrow> P (w\<lparr>lfs_objects := insert_row oid \<lparr>lo_size_bytes = int (length c), lo_content = c, lo_created_at = clock w\<rparr> (lfs_objects w)\<rparr>)"
  shows "keeps P (put_lfs oid c)"
  unfolding put_lfs_def by (rule keeps_db_checked [OF assms(1)]) (rule assms(2))

locale lfs_inv =
  fixes P :: "'z hub_scheme \<Rightarrow> bool" and dig :: "byte list \<Rightarrow> byte list"
  assumes frame_P: "frame P"
    and on_lfs: "P w \<Longrightarrow> P (w\<lparr>lfs_objects := insert_row (dig c) \<lparr>lo_size_bytes = int (length c), lo_content = c, lo_created_at = clock w\<rparr> (lfs_objects w)\<rparr>)"
begin

lemma keeps_put: "keeps P (put_lfs (dig c) c)"
  by (rule keeps_put_lfs [OF frame_P on_lfs])

lemma keeps_stage_file:
  assumes "x_digest X = dig"
  shows "keeps P (stage_file X f)"
  unfolding stage_file_def stage_xet_def stage_oid_def stage_inline_def assms
  by (auto intro!: keeps_bind keeps_ret keeps_app keeps_db_query frame_P keeps_put split: option.split)

lemma keeps_stage_files: "x_digest X = dig \<Longrightarrow> keeps P (stage_files X fs)"
  by (induction fs) (auto intro!: keeps_bind keeps_ret keeps_stage_file)

lemma keeps_lfs_upload:
  assumes "x_digest X = dig"
  shows "keeps P (lfs_upload X oid body)"
  unfolding lfs_upload_def assms by (auto intro!: keeps_bind keeps_ret keeps_app keeps_put)

end

text \<open>Staging and uploading change the objects only, and never take one away.\<close>

definition same_history :: "'z hub_scheme \<Rightarrow> 'z hub_scheme \<Rightarrow> bool" where
  "same_history v w \<longleftrightarrow> repos w = repos v \<and> repo_commits w = repo_commits v \<and> repo_refs w = repo_refs v \<and> repo_files w = repo_files v
     \<and> users w = users v \<and> api_keys w = api_keys v \<and> clock w = clock v"

definition has_object :: "byte list \<Rightarrow> 'z hub_scheme \<Rightarrow> bool" where
  "has_object oid w \<longleftrightarrow> map_of (lfs_objects w) oid \<noteq> None"

lemma frame_has_object: "frame (has_object oid)"
  by (simp add: frame_def has_object_def)

interpretation grows: lfs_inv "has_object oid" dig
  by unfold_locales (auto simp: frame_def has_object_def map_of_insert_row)

definition row_stored :: "'z hub_scheme \<Rightarrow> file_row \<Rightarrow> bool" where
  "row_stored w r \<longleftrightarrow> one_backend r \<and> (\<forall>oid. fl_lfs_oid r = Some oid \<longrightarrow> has_object oid w)"

lemma row_storedI: "row_stored w (xet_row h n)" "has_object oid w \<Longrightarrow> row_stored w (lfs_file_row oid n)"
  by (simp_all add: row_stored_def one_backend_def xet_row_def lfs_file_row_def)

lemma put_lfs_stores: "put_lfs oid c w = (Inr u, w') \<Longrightarrow> has_object oid w'"
  unfolding put_lfs_def by (erule hub_checked_Inr) (auto simp: has_object_def map_of_insert_row)

lemma app_Inr: "app m w = (Inr a, w') \<Longrightarrow> m w = (Inr a, w')"
  by (auto simp: app_def split: prod.splits sum.splits)

lemma lift_res_Inr: "lift_res r w = (Inr a, w') \<Longrightarrow> r = Inr a \<and> w' = w"
  by (simp add: lift_res_def)

lemma size_known: "Some n = map_option lo_size_bytes (map_of (lfs_objects w) oid) \<Longrightarrow> has_object oid (w\<lparr>faults := fs\<rparr>)"
  by (cases "map_of (lfs_objects w) oid") (auto simp: has_object_def)

lemma stage_oid_stores:
  assumes "stage_oid X f oid w = (Inr (p, r), w')"
  shows "p = cf_path f \<and> row_stored w' r"
  using assms unfolding stage_oid_def
  by (auto elim!: bind_Inr dest!: app_Inr lift_res_Inr put_lfs_stores simp: ret_def raise_def split: option.splits if_splits
      intro: row_storedI) (auto elim!: hub_query_Inr intro!: row_storedI size_known)

lemma stage_file_stores:
  assumes "stage_file X f w = (Inr (p, r), w')"
  shows "p = cf_path f \<and> row_stored w' r"
proof -
  have "p = cf_path f \<and> row_stored w' r" if "stage_xet f xh w = (Inr (p, r), w')" for xh
    using that unfolding stage_xet_def by (auto elim!: bind_Inr simp: ret_def intro: row_storedI)
  moreover have "p = cf_path f \<and> row_stored w' r" if "stage_inline X f c w = (Inr (p, r), w')" for c
    using that unfolding stage_inline_def
    by (auto elim!: bind_Inr dest!: app_Inr put_lfs_stores simp: ret_def intro: row_storedI)
  ultimately show ?thesis
    using assms stage_oid_stores [of X f _ w p r w'] by (auto simp: stage_file_def raise_def split: option.splits)
qed

lemma stage_files_store:
  assumes "stage_files X fs w = (Inr rows, w')"
  shows "map fst rows = map cf_path fs \<and> (\<forall>r\<in>set rows. row_stored w' (snd r))"
  using assms
proof (induction fs arbitrary: w rows)
  case (Cons f fs)
  from Cons.prems obtain p r w1 rs where 1: "stage_file X f w = (Inr (p, r), w1)" and 2: "stage_files X fs w1 = (Inr rs, w')"
    and rows: "rows = (p, r) # rs" by (auto elim!: bind_Inr simp: ret_def)
  from stage_file_stores [OF 1] have p: "p = cf_path f" "row_stored w1 r" by auto
  have "row_stored w' r"
    using p(2) keepsD [OF grows.keeps_stage_files [OF refl], of _ w1 X fs] 2 by (auto simp: row_stored_def)
  with Cons.IH [OF 2] p(1) rows show ?case by simp
qed (simp add: ret_def)

section \<open>The contract of a predicate with the hub\<close>

locale hub_inv = lfs_inv P dig + acc: account_inv P + sto: store_inv P "\<lambda>_. True"
  for P :: "'z hub_scheme \<Rightarrow> bool" and dig :: "byte list \<Rightarrow> byte list" +
  assumes on_repo: "P w \<Longrightarrow> map_of (repos w) i = None \<Longrightarrow> is_valid_repo_name (rp_name r) \<Longrightarrow>
      find (\<lambda>(_, r'). rp_owner_user_id r' = rp_owner_user_id r \<and> rp_name r' = rp_name r) (repos w) = None \<Longrightarrow>
      P (w\<lparr>repos := insert_row i r (repos w)\<rparr>)"
    and on_commit: "P w \<Longrightarrow> can_commit cid rid rows w \<Longrightarrow> (\<forall>r\<in>set rows. row_stored w (snd r)) \<Longrightarrow>
      P (committed cid rid ctx hdr rows w)"
    and on_downloads: "P w \<Longrightarrow> P (w\<lparr>repo_downloads := d\<rparr>)" "P w \<Longrightarrow> P (w\<lparr>download_log := l\<rparr>)"
begin

lemma keeps_create_repo: "keeps P (create_repo i ctx req)"
  unfolding create_repo_def Let_def
  by (intro keeps_bind reads_keeps [OF reads_helpers(1) frame_P])
    (auto intro!: keeps_bind keeps_ret keeps_db_query keeps_db_checked frame_P on_repo split: option.split)

lemma keeps_record_download: "keeps P (record_download rid k n fid oid)"
  unfolding record_download_def Let_def
  by (cases rid) (auto intro!: keeps_bind keeps_ret keeps_attempt keeps_db_checked keeps_db_update frame_P on_downloads)

lemma keeps_lfs_download: "keeps P (lfs_download X oid rid ah)"
  unfolding lfs_download_def
  by (auto intro!: keeps_bind keeps_ret keeps_app keeps_db_query frame_P keeps_record_download reads_keeps [OF reads_viewer(2) frame_P])

lemma keeps_xet_file_serve: "keeps P (xet_file_serve H hx rid ah)"
  unfolding xet_file_serve_def
  by (auto intro!: keeps_bind keeps_ret keeps_app keeps_db_query frame_P keeps_record_download
      reads_keeps [OF reads_viewer(2) frame_P] reads_keeps [OF reads_serve_terms frame_P])

lemma write_commit_keeps:
  assumes "P w" and "\<forall>r\<in>set rows. row_stored w (snd r)"
  shows "P (snd (write_commit cid rid ctx hdr rows w))"
  using assms on_commit [OF assms(1) _ assms(2)]
  by (cases rule: write_commit_outcome [of cid rid ctx hdr rows w]) (auto simp: frameD(1) [OF frame_P])

lemma keeps_stage_then_write:
  assumes "x_digest H = dig"
  shows "keeps P (bindE (stage_files H files) (\<lambda>rows. bindE (app (write_commit cid rid ctx hdr rows)) (\<lambda>_. ret (g rows))))"
  unfolding keeps_def
proof (intro allI impI)
  fix w assume "P w"
  note s = keepsD [OF keeps_stage_files [OF assms] this, of files]
  show "P (snd (bindE (stage_files H files) (\<lambda>rows. bindE (app (write_commit cid rid ctx hdr rows)) (\<lambda>_. ret (g rows))) w))"
  proof (rule bind_snd)
    show "P w'" if "stage_files H files w = (Inl e, w')" for e w' using s that by simp
    show "P (snd (bindE (app (write_commit cid rid ctx hdr rows)) (\<lambda>_. ret (g rows)) w'))"
      if "stage_files H files w = (Inr rows, w')" for rows w'
    proof (rule bind_keeps_snd)
      show "P (snd (app (write_commit cid rid ctx hdr rows) w'))"
        using write_commit_keeps [of w' rows] stage_files_store [OF that] s that by simp
    qed (rule keeps_ret)
  qed
qed

lemma keeps_commit:
  assumes "x_digest H = dig"
  shows "keeps P (commit H cid ctx owner repo rv hh ph body)"
  unfolding commit_def Let_def
  by (auto intro!: keeps_bind keeps_ret keeps_app reads_keeps [OF reads_helpers(2) frame_P] reads_keeps [OF reads_helpers(3) frame_P]
      keeps_stage_then_write [OF assms]
      split: sum.split prod.split)

end

lemma bind_kept: "keeps P m \<Longrightarrow> (\<And>a. keeps P (f a)) \<Longrightarrow> P w \<Longrightarrow> P (snd (bindE m f w))"
  by (rule keepsD [OF keeps_bind])

context hub_inv
begin

lemma storage_step_keeps: "system_step X E G Pw key w w' \<Longrightarrow> P w \<Longrightarrow> P w'"
proof (induction rule: system_step.induct)
  case (sy_account w w')
  then show ?case by (rule acc.console_step_keeps)
next
  case (sy_shard i ah xh body w r w')
  note k = keepsD [OF acc.keeps_auth_scoped sy_shard(2), of X key SCOPE_UPLOAD i ah xh]
  show ?case
  proof (cases "auth_scoped X key SCOPE_UPLOAD i ah xh w")
    case (Pair a w1)
    with k sy_shard(1) show ?thesis
      by (cases a) (simp_all add: upload_shard_route_def sto.upload_shard_keeps [OF TrueI])
  qed
next
  case (sy_sweep w)
  then show ?case by (rule sto.tick_keeps)
next
  case (sy_world w fs rs)
  then show ?case by (simp add: frameD [OF frame_P])
next
  case (sy_xorb w i ah xh prefix suffix body)
  then show ?case unfolding upload_xorb_route_def
    by (rule bind_kept [OF acc.keeps_auth_scoped sto.upload_xorb_kept [OF TrueI]])
next
  case (sy_v1 w i ah xh f rng)
  then show ?case unfolding reconstruction_route_def
    by (rule bind_kept [OF acc.keeps_auth_scoped sto.keeps_query_v1 [OF TrueI]])
next
  case (sy_v2 w i ah xh f rng)
  then show ?case unfolding reconstruction_v2_route_def
    by (rule bind_kept [OF acc.keeps_auth_scoped sto.keeps_query_v2 [OF TrueI]])
next
  case (sy_batch w i ah xh raw)
  then show ?case unfolding reconstructions_batch_route_def
    by (rule bind_kept [OF acc.keeps_auth_scoped sto.keeps_batch [OF TrueI]])
qed

lemmas read_endpoints_kept = reads_models [THEN reads_keeps, OF frame_P] reads_resolve [THEN reads_keeps, OF frame_P]

lemma hub_step_keeps:
  assumes "hub_step H E G Pw w w'" and "x_digest H = dig" and "P w"
  shows "P w'"
  using assms(1,3)
proof (induction rule: hub_step.induct)
  case (hs_system w w')
  then show ?case by (rule storage_step_keeps)
qed (auto intro!: keepsD [of P] keeps_bind keeps_app acc.keeps_auth_scoped keeps_create_repo keeps_commit [OF assms(2)]
    keeps_lfs_upload [OF assms(2)] keeps_lfs_download keeps_xet_file_serve read_endpoints_kept
    reads_keeps [OF reads_identity(1) frame_P] reads_keeps [OF reads_identity(2) frame_P] reads_keeps [OF reads_token frame_P]
    reads_keeps [OF reads_batch frame_P] on_downloads
    simp: whoami_route_def create_repo_route_def preupload_route_def write_token_route_def read_token_route_def
      lfs_batch_route_def commit_route_def hub_auth_def xet_write_token_def xet_read_token_def)

end

section \<open>Well-formed tables\<close>

definition repo_key :: "int \<times> repo_row \<Rightarrow> int \<times> string" where
  "repo_key p = (rp_owner_user_id (snd p), rp_name (snd p))"

definition repo_table_ok :: "(int \<times> repo_row) list \<Rightarrow> bool" where
  "repo_table_ok rs \<longleftrightarrow> distinct (map fst rs) \<and> distinct (map repo_key rs) \<and> (\<forall>k\<in>set (map repo_key rs). is_valid_repo_name (snd k))"

definition repos_ok :: "'z hub_scheme \<Rightarrow> bool" where
  "repos_ok w \<longleftrightarrow> repo_table_ok (repos w)"

definition commit_in :: "(int \<times> commit_row) list \<Rightarrow> int \<Rightarrow> int \<Rightarrow> bool" where
  "commit_in cs rid cid \<longleftrightarrow> (\<exists>c. map_of cs cid = Some c \<and> cm_repo_id c = rid)"

definition hist_ok ::
  "(int \<times> repo_row) list \<Rightarrow> (int \<times> commit_row) list \<Rightarrow> ((int \<times> string) \<times> int) list \<Rightarrow> ((int \<times> string) \<times> file_row) list \<Rightarrow> bool" where
  "hist_ok rs cs refs fs \<longleftrightarrow> distinct (map fst cs) \<and> distinct (map fst refs) \<and> distinct (map fst fs)
     \<and> (\<forall>(_, c)\<in>set cs. map_of rs (cm_repo_id c) \<noteq> None \<and> pred_option (commit_in cs (cm_repo_id c)) (cm_parent c))
     \<and> (\<forall>((rid, name), cid)\<in>set refs. name = ''main'' \<and> commit_in cs rid cid)
     \<and> (\<forall>((cid, _), _)\<in>set fs. map_of cs cid \<noteq> None)"

definition history_ok :: "'z hub_scheme \<Rightarrow> bool" where
  "history_ok w \<longleftrightarrow> hist_ok (repos w) (repo_commits w) (repo_refs w) (repo_files w)"

definition stored_in :: "(byte list \<times> lfs_row) list \<Rightarrow> file_row \<Rightarrow> bool" where
  "stored_in os r \<longleftrightarrow> one_backend r \<and> (\<forall>oid. fl_lfs_oid r = Some oid \<longrightarrow> map_of os oid \<noteq> None)"

definition files_ok :: "'z hub_scheme \<Rightarrow> bool" where
  "files_ok w \<longleftrightarrow> list_all (\<lambda>(_, f). stored_in (lfs_objects w) f) (repo_files w)"

definition object_ok :: "(byte list \<Rightarrow> byte list) \<Rightarrow> byte list \<times> lfs_row \<Rightarrow> bool" where
  "object_ok dig x \<longleftrightarrow> fst x = dig (lo_content (snd x)) \<and> lo_size_bytes (snd x) = int (length (lo_content (snd x)))"

definition objects_ok :: "(byte list \<Rightarrow> byte list) \<Rightarrow> 'z hub_scheme \<Rightarrow> bool" where
  "objects_ok dig w \<longleftrightarrow> list_all (object_ok dig) (lfs_objects w)"

lemma repo_key_update: "map repo_key (update_row i (\<lambda>r. r\<lparr>rp_updated_at := t\<rparr>) rs) = map repo_key rs"
  by (simp add: update_row_def repo_key_def comp_def case_prod_beta if_distrib cong: if_cong)

lemma repo_table_update: "repo_table_ok (update_row i (\<lambda>r. r\<lparr>rp_updated_at := t\<rparr>) rs) = repo_table_ok rs"
  by (simp only: repo_table_ok_def repo_key_update keys_update_row)

lemma repo_table_insert:
  assumes "repo_table_ok rs" and "map_of rs i = None" and "is_valid_repo_name (rp_name r)"
    and "find (\<lambda>(_, r'). rp_owner_user_id r' = rp_owner_user_id r \<and> rp_name r' = rp_name r) rs = None"
  shows "repo_table_ok (insert_row i r rs)"
proof -
  have "repo_key (i, r) \<notin> repo_key ` set rs" using assms(4) by (auto simp: find_None_iff repo_key_def) blast
  with assms(1-3) show ?thesis by (auto simp: repo_table_ok_def insert_row_def map_of_eq_None_iff) (simp add: repo_key_def)
qed

interpretation repos_kept: hub_inv repos_ok dig
  by unfold_locales (auto simp: frame_def repos_ok_def repo_table_insert committed_def repo_table_update)

lemma commit_in_mono: "commit_in cs rid cid \<Longrightarrow> map_of cs cid' = None \<Longrightarrow> commit_in (cs @ [(cid', c)]) rid cid"
  by (auto simp: commit_in_def)

lemma map_of_upsert: "map_of (upsert k v t) k' = (if k' = k then Some v else map_of t k')"
  by (auto simp: upsert_def map_of_update_row map_add_def split: option.split)

lemma set_upsert: "set (upsert k v t) \<subseteq> insert (k, v) (set t)"
  by (auto simp: upsert_def update_row_def split: if_splits)

lemma keys_upsert: "distinct (map fst (upsert k v t)) = distinct (map fst t)"
  by (auto simp: upsert_def map_of_eq_None_iff)

lemma distinct_tree:
  assumes "distinct (map fst fs)" and "fresh_tree cid rows w" and "fs = repo_files w"
  shows "distinct (map fst (fs @ tree_rows cid rows))"
proof -
  have "distinct (map fst (tree_rows cid rows))"
    using assms(2) by (auto simp: tree_rows_def fresh_tree_def distinct_map comp_def case_prod_beta inj_on_def)
  moreover have "fst ` set fs \<inter> fst ` set (tree_rows cid rows) = {}"
    using assms(2,3) by (force simp: tree_rows_def fresh_tree_def map_of_eq_None_iff)
  ultimately show ?thesis using assms(1) by simp
qed

text \<open>The parts of a commit: the old history is still there, the new commit hangs off the old head.\<close>

lemma committed_sel:
  "repo_commits (committed cid rid ctx hdr rows w) = repo_commits w @ [(cid, new_commit rid ctx hdr w)]"
  "repo_files (committed cid rid ctx hdr rows w) = repo_files w @ tree_rows cid rows"
  "repo_refs (committed cid rid ctx hdr rows w) = upsert (rid, ''main'') cid (repo_refs w)"
  "repos (committed cid rid ctx hdr rows w) = update_row rid (\<lambda>r. r\<lparr>rp_updated_at := clock w\<rparr>) (repos w)"
  "lfs_objects (committed cid rid ctx hdr rows w) = lfs_objects w"
  by (simp_all add: committed_def)

lemma commits_ok_commit:
  assumes h: "hist_ok rs cs refs fs" and r: "map_of rs rid \<noteq> None" and new: "map_of cs cid = None"
    and c: "cm_repo_id c = rid" "cm_parent c = map_of refs (rid, ''main'')" and m: "(i, d) \<in> set (cs @ [(cid, c)])"
  shows "map_of rs (cm_repo_id d) \<noteq> None \<and> pred_option (commit_in (cs @ [(cid, c)]) (cm_repo_id d)) (cm_parent d)"
proof -
  have par: "pred_option (commit_in cs rid) (map_of refs (rid, ''main''))"
    using h by (cases "map_of refs (rid, ''main'')") (auto simp: hist_ok_def dest!: map_of_SomeD)
  have "map_of rs (cm_repo_id d) \<noteq> None \<and> pred_option (commit_in cs (cm_repo_id d)) (cm_parent d)"
  proof (cases "(i, d) \<in> set cs")
    case True
    with h show ?thesis by (auto simp: hist_ok_def)
  next
    case False
    with m have "d = c" by simp
    with c r par show ?thesis by simp
  qed
  then show ?thesis using commit_in_mono [OF _ new] by (cases "cm_parent d") auto
qed

lemma ref_ok_commit:
  assumes h: "hist_ok rs cs refs fs" and new: "map_of cs cid = None" and c: "cm_repo_id c = rid"
    and m: "((i, n), j) \<in> set (upsert (rid, ''main'') cid refs)"
  shows "n = ''main'' \<and> commit_in (cs @ [(cid, c)]) i j"
proof -
  from m consider "((i, n), j) = ((rid, ''main''), cid)" | "((i, n), j) \<in> set refs"
    using set_upsert [of "(rid, ''main'')" cid refs] by auto
  then show ?thesis
  proof cases
    case 1
    with new c show ?thesis by (auto simp: commit_in_def map_add_def)
  next
    case 2
    with h have "n = ''main''" "commit_in cs i j" by (auto simp: hist_ok_def)
    then show ?thesis using commit_in_mono [OF _ new] by simp
  qed
qed

lemma hist_ok_repos:
  assumes "hist_ok rs cs refs fs" and "\<And>i. map_of rs i \<noteq> None \<Longrightarrow> map_of rs' i \<noteq> None"
  shows "hist_ok rs' cs refs fs"
  using assms unfolding hist_ok_def by fast

lemma hist_ok_commit:
  assumes h: "hist_ok rs cs refs fs" and r: "map_of rs rid \<noteq> None" and new: "map_of cs cid = None"
    and c: "cm_repo_id c = rid" "cm_parent c = map_of refs (rid, ''main'')" and d: "distinct (map fst (fs @ tree_rows cid rows))"
  shows "hist_ok rs (cs @ [(cid, c)]) (upsert (rid, ''main'') cid refs) (fs @ tree_rows cid rows)"
proof -
  have "distinct (map fst (cs @ [(cid, c)]))" "distinct (map fst (upsert (rid, ''main'') cid refs))"
    using h new by (auto simp: hist_ok_def keys_upsert map_of_eq_None_iff)
  moreover have "map_of (cs @ [(cid, c)]) i \<noteq> None" if "((i, p), f) \<in> set (fs @ tree_rows cid rows)" for i p f
    using that h by (auto simp: hist_ok_def tree_rows_def map_add_def split: option.split)
  ultimately show ?thesis
    using commits_ok_commit [OF h r new c] ref_ok_commit [OF h new c(1)] d unfolding hist_ok_def by blast
qed

lemma history_ok_commit:
  assumes "history_ok w" and "can_commit cid rid rows w"
  shows "history_ok (committed cid rid ctx hdr rows w)"
proof -
  have "hist_ok (repos (committed cid rid ctx hdr rows w)) (repo_commits w) (repo_refs w) (repo_files w)"
    using assms(1) unfolding history_ok_def by (rule hist_ok_repos) (auto simp: committed_sel map_of_update_row)
  moreover have "distinct (map fst (repo_files w @ tree_rows cid rows))"
    using assms by (intro distinct_tree [OF _ _ refl, of w]) (simp_all add: history_ok_def hist_ok_def can_commit_def)
  ultimately show ?thesis
    unfolding history_ok_def committed_sel
    by (intro hist_ok_commit) (use assms(2) in \<open>auto simp: can_commit_def new_commit_def map_of_update_row\<close>)
qed

lemma history_ok_repo: "history_ok w \<Longrightarrow> history_ok (w\<lparr>repos := insert_row i r (repos w)\<rparr>)"
  by (simp add: history_ok_def) (erule hist_ok_repos, simp add: map_of_insert_row)

interpretation history_kept: hub_inv history_ok dig
  by unfold_locales (auto simp: history_ok_repo history_ok_commit frame_def, simp_all add: history_ok_def)

lemma stored_in_mono: "stored_in os r \<Longrightarrow> (\<And>k. map_of os k \<noteq> None \<Longrightarrow> map_of os' k \<noteq> None) \<Longrightarrow> stored_in os' r"
  by (simp add: stored_in_def)

lemma files_ok_commit:
  "files_ok w \<Longrightarrow> \<forall>r\<in>set rows. row_stored w (snd r) \<Longrightarrow> files_ok (committed cid rid ctx hdr rows w)"
  by (auto simp: files_ok_def committed_sel list_all_iff tree_rows_def row_stored_def stored_in_def has_object_def)

lemma files_ok_object: "files_ok w \<Longrightarrow> files_ok (w\<lparr>lfs_objects := insert_row k x (lfs_objects w)\<rparr>)"
  by (auto simp: files_ok_def list_all_iff map_of_insert_row elim!: stored_in_mono)

interpretation files_kept: hub_inv files_ok dig
  by unfold_locales (auto simp: files_ok_commit files_ok_object frame_def, simp_all add: files_ok_def)

lemma objects_ok_insert:
  "list_all (object_ok dig) os \<Longrightarrow> list_all (object_ok dig) (insert_row (dig c) \<lparr>lo_size_bytes = int (length c), lo_content = c, lo_created_at = t\<rparr> os)"
  by (simp add: insert_row_def object_ok_def)

interpretation objects_kept: hub_inv "objects_ok dig" dig
  by unfold_locales (auto simp: frame_def objects_ok_def objects_ok_insert committed_sel)

section \<open>Runs\<close>

context hub_inv
begin

lemma hub_run_keeps: "(hub_step H E G Pw)\<^sup>*\<^sup>* s w \<Longrightarrow> x_digest H = dig \<Longrightarrow> P s \<Longrightarrow> P w"
  by (induction rule: rtranclp_induct) (auto intro: hub_step_keeps)

end

definition empty_hub :: "'z hub_scheme \<Rightarrow> bool" where
  "empty_hub w \<longleftrightarrow> repos w = [] \<and> repo_commits w = [] \<and> repo_refs w = [] \<and> repo_files w = [] \<and> lfs_objects w = []"

lemma empty_hub_ok:
  assumes "empty_hub w"
  shows "repos_ok w" "history_ok w" "files_ok w" "objects_ok dig w"
  using assms by (simp_all add: empty_hub_def repos_ok_def repo_table_ok_def history_ok_def hist_ok_def files_ok_def objects_ok_def)

text \<open>C13: whatever requests, sweeps and failures come, the tables of the hub are well formed. Repositories have
  valid names, unique for their owner; the only branch is main and it names a commit of its
  repository; the parent of a commit is a commit of the same repository; every file belongs to a
  commit and has exactly one backend, and the object behind a small file is stored.\<close>

theorem hub_tables_well_formed:
  assumes "(hub_step H E G Pw)\<^sup>*\<^sup>* s w" and "empty_hub s"
  shows "repos_ok w \<and> history_ok w \<and> files_ok w"
  using repos_kept.hub_run_keeps [OF assms(1) refl] history_kept.hub_run_keeps [OF assms(1) refl] files_kept.hub_run_keeps [OF assms(1) refl]
    empty_hub_ok [OF assms(2)] by blast

lemma lfs_download_content:
  assumes "fst (lfs_download X hx rid ah w) = Inr bytes"
  shows "\<exists>oid x. hex_decode hx = Inr (Some oid) \<and> (oid, x) \<in> set (lfs_objects w) \<and> lo_content x = bytes"
proof -
  obtain w' where "lfs_download X hx rid ah w = (Inr bytes, w')" using assms by (metis prod.collapse)
  then obtain oid row w1 where h: "hex_arg ''bad_oid'' hx = Inr oid"
    and q: "db_query (\<lambda>w. map_option lo_content (map_of (lfs_objects w) oid)) w = (Inr row, w1)" and r: "row = Some bytes"
    unfolding lfs_download_def
    by (auto elim!: bind_Inr dest!: app_Inr lift_res_Inr simp: ret_def ok_or_def split: option.splits)
  from h have "hex_decode hx = Inr (Some oid)" by (auto simp: hex_arg_def split: sum.splits option.splits)
  moreover from q have "row = map_option lo_content (map_of (lfs_objects w) oid)" by (auto elim!: hub_query_Inr)
  with r have "map_option lo_content (map_of (lfs_objects w) oid) = Some bytes" by simp
  ultimately show ?thesis by (auto dest!: map_of_SomeD)
qed

text \<open>C17: what is served under a digest has that digest. In every state the server reaches, whoever put the
  object there, the bytes an LFS download returns hash to the object id that was asked for.\<close>

theorem lfs_bytes_match_their_oid:
  assumes "(hub_step H E G Pw)\<^sup>*\<^sup>* s w" and "empty_hub s" and "fst (lfs_download H hx rid ah w) = Inr bytes"
  shows "hex_decode hx = Inr (Some (x_digest H bytes))"
proof -
  have "objects_ok (x_digest H) w"
    using objects_kept.hub_run_keeps [OF assms(1) refl] empty_hub_ok(4) [OF assms(2)] by blast
  with lfs_download_content [OF assms(3)] show ?thesis by (auto simp: objects_ok_def list_all_iff object_ok_def)
qed

section \<open>History is never rewritten\<close>

definition history_extends :: "'z hub_scheme \<Rightarrow> 'z hub_scheme \<Rightarrow> bool" where
  "history_extends v w \<longleftrightarrow> (\<exists>cs. repo_commits w = repo_commits v @ cs)
     \<and> (\<forall>cid p. map_of (repo_commits v) cid \<noteq> None \<longrightarrow> map_of (repo_files w) (cid, p) = map_of (repo_files v) (cid, p))"

lemma tree_rows_other: "c \<noteq> cid \<Longrightarrow> map_of (tree_rows cid rows) (c, p) = None"
  by (auto simp: tree_rows_def map_of_eq_None_iff)

lemma history_extends_commit:
  assumes "history_extends v w" and "can_commit cid rid rows w"
  shows "history_extends v (committed cid rid ctx hdr rows w)"
proof -
  from assms obtain cs where cs: "repo_commits w = repo_commits v @ cs" by (auto simp: history_extends_def)
  with assms(2) have "map_of (repo_commits v) cid = None" by (auto simp: can_commit_def map_add_def split: option.splits)
  then have "map_of (tree_rows cid rows) (c, p) = None" if "map_of (repo_commits v) c \<noteq> None" for c p
    using that by (intro tree_rows_other) auto
  with assms(1) cs show ?thesis by (auto simp: history_extends_def committed_sel map_add_def split: option.split)
qed

interpretation append_only: hub_inv "history_extends v" dig
  by unfold_locales (auto simp: history_extends_commit frame_def, simp_all add: history_extends_def)

text \<open>C16: a pinned revision is for ever. Once a commit can be found under its commit id, every later request
  finds the same commit under that id, with the same row and, path by path, the same files.\<close>

theorem pinned_revision_is_stable:
  assumes "(hub_step H E G Pw)\<^sup>*\<^sup>* v w" and "commit_with_sha H revision (commits_of v rid) = Some cid"
  shows "commit_with_sha H revision (commits_of w rid) = Some cid
    \<and> map_of (repo_commits w) cid = map_of (repo_commits v) cid
    \<and> (\<forall>p. map_of (repo_files w) (cid, p) = map_of (repo_files v) (cid, p))"
proof -
  have "history_extends v v" by (simp add: history_extends_def)
  then have e: "history_extends v w" by (rule append_only.hub_run_keeps [OF assms(1) refl])
  then obtain cs where cs: "repo_commits w = repo_commits v @ cs" by (auto simp: history_extends_def)
  have f: "find Q (xs @ ys) = Some x" if "find Q xs = Some x" for Q and xs ys :: "int list" and x
    using that by (induction xs) auto
  from assms(2) have "cid \<in> set (commits_of v rid)" by (auto simp: commit_with_sha_def find_Some_iff)
  then have "map_of (repo_commits v) cid \<noteq> None" by (auto simp: commits_of_def map_of_eq_None_iff intro: rev_image_eqI)
  with e cs assms(2) show ?thesis
    by (auto simp: history_extends_def commit_with_sha_def commits_of_def intro!: f)
qed

section \<open>A commit\<close>

interpretation staged: lfs_inv "same_history v" dig
  by unfold_locales (auto simp: frame_def same_history_def)

lemma same_history_simps [simp]: "same_history w w" "same_history v (w\<lparr>faults := fs\<rparr>) = same_history v w"
  by (simp_all add: same_history_def)

lemma bind_Inl:
  assumes "bindE m f w = (Inl e, w')"
  obtains "m w = (Inl e, w')" | a w1 where "m w = (Inr a, w1)" "f a w1 = (Inl e, w')"
  using assms by (auto simp: bindE_def split: prod.split_asm sum.split_asm)

text \<open>A computation whose failures leave the history alone.\<close>

definition fails_clean :: "('z hub_scheme \<Rightarrow> ('e + 'a) \<times> 'z hub_scheme) \<Rightarrow> bool" where
  "fails_clean m \<longleftrightarrow> (\<forall>w e w'. m w = (Inl e, w') \<longrightarrow> same_history w w')"

lemma fails_cleanD: "fails_clean m \<Longrightarrow> m w = (Inl e, w') \<Longrightarrow> same_history w w'"
  by (simp add: fails_clean_def)

lemma same_history_trans: "same_history u v \<Longrightarrow> same_history v w \<Longrightarrow> same_history u w"
  by (simp add: same_history_def)

lemma fails_clean_bind:
  assumes "\<And>v. keeps (same_history v) m" and "\<And>a. fails_clean (f a)"
  shows "fails_clean (bindE m f)"
  unfolding fails_clean_def
proof (intro allI impI)
  fix w e w' assume b: "bindE m f w = (Inl e, w')"
  have k: "same_history w (snd (m w))" by (rule keepsD [OF assms(1)]) simp
  from b show "same_history w w'"
  proof (rule bind_Inl)
    assume "m w = (Inl e, w')" with k show ?thesis by simp
  next
    fix a w1 assume "m w = (Inr a, w1)" "f a w1 = (Inl e, w')"
    with k assms(2) [of a] show ?thesis by (auto simp: fails_clean_def intro: same_history_trans)
  qed
qed

lemma fails_clean_pure: "fails_clean (raise e)" "fails_clean (lift_res r)"
  by (simp_all add: fails_clean_def raise_def lift_res_def)

lemma fails_clean_write: "fails_clean (bindE (app (write_commit cid rid ctx hdr rows)) (\<lambda>_. ret a))"
  unfolding fails_clean_def
proof (intro allI impI)
  fix w e w' assume "bindE (app (write_commit cid rid ctx hdr rows)) (\<lambda>_. ret a) w = (Inl e, w')"
  then show "same_history w w'"
    by (cases rule: write_commit_outcome [of cid rid ctx hdr rows w]) (auto simp: bindE_def app_def ret_def)
qed

lemma reads_same: "reads m \<Longrightarrow> keeps (same_history v) m"
  by (rule reads_keeps [OF _ staged.frame_P])

lemma fails_clean_commit: "fails_clean (commit H cid ctx owner repo rv hh ph body)"
proof -
  have w: "fails_clean (bindE (stage_files H files) (\<lambda>rows. bindE (app (write_commit cid rid ctx hdr rows)) (\<lambda>_. ret a)))"
    for files rid hdr and a :: CommitResp
    by (intro fails_clean_bind fails_clean_write staged.keeps_stage_files [OF refl])
  have p: "fails_clean (case parse_commit H raw of Inl e \<Rightarrow> raise (App e) | Inr (hdr, files) \<Rightarrow>
      bindE (stage_files H files) (\<lambda>rows. bindE (app (write_commit cid rid ctx hdr rows)) (\<lambda>_. ret a)))" for raw rid and a :: CommitResp
    by (simp add: fails_clean_pure w split: sum.split prod.split)
  show ?thesis
  proof (cases "rv = ''main''")
    case True
    show ?thesis unfolding commit_def Let_def True simp_thms if_False
      by (rule fails_clean_bind, intro reads_same reads_intro, rule fails_clean_bind, intro reads_same reads_intro,
        rule fails_clean_bind, intro reads_same reads_intro, rule p)
  qed (simp add: commit_def fails_clean_pure)
qed

definition owned_by :: "'z hub_scheme \<Rightarrow> int \<Rightarrow> int \<Rightarrow> bool" where
  "owned_by w rid uid \<longleftrightarrow> (\<exists>r. map_of (repos w) rid = Some r \<and> rp_owner_user_id r = uid)"

lemma find_repo_id_Inr: "find_repo_id owner repo w = (Inr rid, w') \<Longrightarrow> repo_named w owner repo = Some rid \<and> same_history w w' \<and> lfs_objects w' = lfs_objects w"
  unfolding find_repo_id_def
  by (auto elim!: bind_Inr hub_query_Inr dest!: lift_res_Inr simp: ok_or_def split: option.splits)

lemma require_ownership_Inr: "require_ownership rid uid w = (Inr u, w') \<Longrightarrow> owned_by w rid uid \<and> same_history w w' \<and> lfs_objects w' = lfs_objects w"
  unfolding require_ownership_def
  by (auto elim!: bind_Inr hub_query_Inr simp: owned_by_def ret_def raise_def split: option.splits if_splits)

lemma write_commit_Inr:
  assumes "write_commit cid rid ctx hdr rows w = (Inr u, w')"
  obtains fs where "w' = (committed cid rid ctx hdr rows w)\<lparr>faults := fs\<rparr>" "can_commit cid rid rows w"
  using assms by (cases rule: write_commit_outcome [of cid rid ctx hdr rows w]) (auto intro: that)

lemma commit_Inr:
  assumes "commit H cid ctx owner repo rv hh ph body w = (Inr resp, w')"
  obtains rid raw hdr files rows v0 v fs where "rv = ''main''" "body = Some raw" "parse_commit H raw = Inr (hdr, files)"
    "repo_named w owner repo = Some rid" "owned_by w rid (ctx_user_id ctx)" "same_history w v0" "lfs_objects v0 = lfs_objects w" "stage_files H files v0 = (Inr rows, v)"
    "can_commit cid rid rows v" "w' = (committed cid rid ctx hdr rows v)\<lparr>faults := fs\<rparr>" "cr_commit_oid resp = commit_oid_for H cid"
proof -
  have rv: "rv = ''main''" using assms by (auto simp: commit_def raise_def split: if_splits)
  from assms [unfolded commit_def rv simp_thms if_False] obtain rid w1 w2 raw w3 where
    a: "find_repo_id owner repo w = (Inr rid, w1)" and o: "require_ownership rid (ctx_user_id ctx) w1 = (Inr (), w2)" and
    b: "bounded_body MAX_COMMIT_BYTES ''commit_too_large'' body = Inr raw" and
    c: "(case parse_commit H raw of Inl e \<Rightarrow> raise (App e) | Inr (hdr, files) \<Rightarrow>
          bindE (stage_files H files) (\<lambda>rows. bindE (app (write_commit cid rid ctx hdr rows)) (\<lambda>_.
          let oid = commit_oid_for H cid in
          ret \<lparr>cr_success = True, cr_commit_url = commit_url hh ph owner repo oid, cr_commit_oid = oid\<rparr>))) w2 = (Inr resp, w')"
    by (elim bind_Inr) (auto dest!: app_Inr lift_res_Inr)
  from c obtain hdr files where p: "parse_commit H raw = Inr (hdr, files)"
    by (auto simp: raise_def split: sum.splits)
  from c [unfolded p] obtain rows v where s: "stage_files H files w2 = (Inr rows, v)" and
    wc: "write_commit cid rid ctx hdr rows v = (Inr (), w')" and r: "cr_commit_oid resp = commit_oid_for H cid"
    by (auto simp: Let_def ret_def elim!: bind_Inr dest!: app_Inr)
  from wc obtain fs where "w' = (committed cid rid ctx hdr rows v)\<lparr>faults := fs\<rparr>" "can_commit cid rid rows v"
    by (rule write_commit_Inr)
  moreover from b have "body = Some raw" by (auto simp: bounded_body_def split: option.splits if_splits)
  moreover from find_repo_id_Inr [OF a] require_ownership_Inr [OF o]
  have "repo_named w owner repo = Some rid" "owned_by w rid (ctx_user_id ctx)" "same_history w w2" "lfs_objects w2 = lfs_objects w"
    by (auto simp: owned_by_def same_history_def)
  ultimately show ?thesis using that rv p s r by blast
qed

text \<open>What the row of a file has to be, by its entry in the body: an entry with a Xet hash keeps that hash, with the size of the
  xorb if there is one; inline content is stored as an object under its digest, which is the id the entry gives if it gives one;
  an id alone names a stored object, or a registered file with that digest and the given size.\<close>

definition entry_row :: "'x auth_ext_scheme \<Rightarrow> 'z hub_scheme \<Rightarrow> CommitFile \<Rightarrow> file_row \<Rightarrow> bool" where
  "entry_row X w f r \<longleftrightarrow>
     (case (cf_xet_hash f, cf_oid f, cf_content f) of
        (Some xh, _, _) \<Rightarrow> hex_decode xh = Inr (fl_xet_hash r) \<and> fl_xet_hash r \<noteq> None \<and> fl_lfs_oid r = None
          \<and> (case map_of (xorbs w) (the (fl_xet_hash r)) of
               Some x \<Rightarrow> fl_size_bytes r = size_bytes x | None \<Rightarrow> cf_size f = Some (fl_size_bytes r))
      | (None, oid, Some inline) \<Rightarrow> \<exists>b. x_b64_std_decode X inline = Some b \<and> fl_xet_hash r = None \<and> fl_lfs_oid r = Some (x_digest X b)
          \<and> fl_size_bytes r = int (length b) \<and> has_object (x_digest X b) w \<and> (\<forall>i. oid = Some i \<longrightarrow> hex_decode i = Inr (Some (x_digest X b)))
      | (None, Some i, None) \<Rightarrow> \<exists>oid. hex_decode i = Inr (Some oid)
          \<and> ((\<exists>x. map_of (lfs_objects w) oid = Some x \<and> fl_xet_hash r = None \<and> fl_lfs_oid r = Some oid \<and> fl_size_bytes r = lo_size_bytes x)
             \<or> (cf_size f = Some (fl_size_bytes r) \<and> fl_lfs_oid r = None \<and> claimed_file w oid (fl_size_bytes r) = fl_xet_hash r \<and> fl_xet_hash r \<noteq> None))
      | (None, None, None) \<Rightarrow> False)"

definition stages :: "'z hub_scheme \<Rightarrow> 'z hub_scheme \<Rightarrow> bool" where
  "stages v w \<longleftrightarrow> xorbs w = xorbs v \<and> reconstruction_files w = reconstruction_files v
     \<and> (\<forall>oid x. map_of (lfs_objects v) oid = Some x \<longrightarrow> map_of (lfs_objects w) oid = Some x)"

interpretation staging: lfs_inv "stages v" dig
  by unfold_locales (auto simp: frame_def stages_def map_of_insert_row)

lemma entry_row_stages:
  assumes "stages v w" and "entry_row X v f r"
  shows "entry_row X w f r"
proof -
  have "has_object oid v \<Longrightarrow> has_object oid w" for oid using assms(1) by (auto simp: stages_def has_object_def)
  moreover have "claimed_file w = claimed_file v" "xorbs w = xorbs v" using assms(1) by (auto simp: stages_def claimed_file_def fun_eq_iff)
  ultimately show ?thesis using assms unfolding entry_row_def stages_def by (auto split: option.splits)
qed

lemma hex_arg_Inr: "hex_arg msg s = Inr b \<Longrightarrow> hex_decode s = Inr (Some b)"
  by (auto simp: hex_arg_def split: sum.splits option.splits)

lemma inline_content_Inr: "inline_content X c = Inr b \<Longrightarrow> x_b64_std_decode X c = Some b"
  by (auto simp: inline_content_def split: option.splits if_splits)

lemma claimed_file_faults [simp]: "claimed_file (w\<lparr>faults := fs\<rparr>) = claimed_file w"
  by (simp add: claimed_file_def fun_eq_iff)

lemma stage_file_entry:
  assumes "stage_file X f w = (Inr (p, r), w')"
  shows "p = cf_path f \<and> entry_row X w' f r"
proof (cases "cf_xet_hash f")
  case (Some xh)
  from assms Some show ?thesis
    by (auto simp: stage_file_def stage_xet_def ret_def entry_row_def xet_row_def ok_or_def elim!: bind_Inr hub_query_Inr
        dest!: app_Inr lift_res_Inr hex_arg_Inr split: option.splits)
next
  case xet: None
  show ?thesis
  proof (cases "cf_content f")
    case None
    with assms xet show ?thesis
      by (auto simp: stage_file_def stage_oid_def ret_def raise_def entry_row_def xet_row_def lfs_file_row_def ok_or_def
          elim!: bind_Inr hub_query_Inr dest!: app_Inr lift_res_Inr hex_arg_Inr split: option.splits)
  next
    case (Some inline)
    with assms xet show ?thesis
      by (auto simp: stage_file_def stage_oid_def stage_inline_def ret_def raise_def entry_row_def lfs_file_row_def
          elim!: bind_Inr dest!: app_Inr lift_res_Inr hex_arg_Inr inline_content_Inr put_lfs_stores split: option.splits if_splits)
  qed
qed

lemma stage_files_entries:
  assumes "stage_files X fs w = (Inr rows, w')"
  shows "list_all2 (\<lambda>f row. fst row = cf_path f \<and> entry_row X w' f (snd row)) fs rows"
  using assms
proof (induction fs arbitrary: w rows)
  case (Cons f fs)
  from Cons.prems obtain p r w1 rs where 1: "stage_file X f w = (Inr (p, r), w1)" and 2: "stage_files X fs w1 = (Inr rs, w')"
    and rows: "rows = (p, r) # rs" by (auto elim!: bind_Inr simp: ret_def)
  have "stages w1 w'" using keepsD [OF staging.keeps_stage_files [OF refl], of w1 w1 X fs] 2 by (simp add: stages_def)
  with stage_file_entry [OF 1] Cons.IH [OF 2] rows show ?case by (simp add: entry_row_stages)
qed (simp add: ret_def)

lemma entry_row_committed: "entry_row X ((committed cid rid ctx hdr rows w)\<lparr>faults := fs\<rparr>) f r = entry_row X w f r"
proof -
  let ?w = "(committed cid rid ctx hdr rows w)\<lparr>faults := fs\<rparr>"
  have "xorbs ?w = xorbs w" "lfs_objects ?w = lfs_objects w" "reconstruction_files ?w = reconstruction_files w" by (simp_all add: committed_def)
  then show ?thesis unfolding entry_row_def has_object_def claimed_file_def by (simp only:)
qed

text \<open>C8: a commit is one change of the history. When it fails, at whatever point, no repository, commit, branch
  or file has changed; when it succeeds, the caller owned the repository and the new state is the
  old one with the abstract commit applied: one commit on top of the old head, with the branch moved to it, whose files are
  the entries of the body in their order, each with the path, the hash or object id and the size its entry stands for.\<close>

theorem commit_is_one_change:
  "case commit H cid ctx owner repo ref_name host proto body w of
     (Inl e, w') \<Rightarrow> same_history w w'
   | (Inr resp, w') \<Rightarrow> \<exists>rid raw hdr files rows v fs. body = Some raw \<and> parse_commit H raw = Inr (hdr, files)
       \<and> repo_named w owner repo = Some rid \<and> owned_by w rid (ctx_user_id ctx)
       \<and> list_all2 (\<lambda>f row. fst row = cf_path f \<and> entry_row H w' f (snd row)) files rows
       \<and> same_history w v \<and> w' = (committed cid rid ctx hdr rows v)\<lparr>faults := fs\<rparr> \<and> map_of (repo_commits w) cid = None
       \<and> cr_commit_oid resp = commit_oid_for H cid"
proof (cases "commit H cid ctx owner repo ref_name host proto body w")
  case (Pair r w')
  show ?thesis
  proof (cases r)
    case (Inl e)
    with Pair fails_cleanD [OF fails_clean_commit] show ?thesis by simp
  next
    case (Inr resp)
    with Pair have "commit H cid ctx owner repo ref_name host proto body w = (Inr resp, w')" by simp
    then obtain rid raw hdr files rows v0 v fs where c: "body = Some raw" "parse_commit H raw = Inr (hdr, files)"
      "repo_named w owner repo = Some rid" "owned_by w rid (ctx_user_id ctx)" "same_history w v0" "stage_files H files v0 = (Inr rows, v)"
      "can_commit cid rid rows v" "w' = (committed cid rid ctx hdr rows v)\<lparr>faults := fs\<rparr>" "cr_commit_oid resp = commit_oid_for H cid"
      by (rule commit_Inr)
    have "same_history w v" using keepsD [OF staged.keeps_stage_files [OF refl] c(5), of H files] c(6) by simp
    moreover from this c(7) have "map_of (repo_commits w) cid = None" by (simp add: can_commit_def same_history_def)
    moreover have "list_all2 (\<lambda>f row. fst row = cf_path f \<and> entry_row H w' f (snd row)) files rows"
      using stage_files_entries [OF c(6)] unfolding c(8) entry_row_committed .
    ultimately show ?thesis using Pair Inr c by auto
  qed
qed

lemma files_of_committed:
  assumes "history_ok w" and "can_commit cid rid rows w"
  shows "files_of (committed cid rid ctx hdr rows w) cid = rows" and "head_of (committed cid rid ctx hdr rows w) rid = Some cid"
proof -
  have "filter (\<lambda>((c, _), _). c = cid) (repo_files w) = []"
    using assms by (auto simp: history_ok_def hist_ok_def can_commit_def filter_empty_conv)
  moreover have "map (\<lambda>((_, p), f). (p, f)) (filter (\<lambda>((c, _), _). c = cid) (tree_rows cid rows)) = rows"
    by (induction rows) (auto simp: tree_rows_def)
  ultimately show "files_of (committed cid rid ctx hdr rows w) cid = rows" by (simp add: files_of_def committed_sel)
  show "head_of (committed cid rid ctx hdr rows w) rid = Some cid" by (simp add: head_of_def committed_sel map_of_upsert)
qed

lemma history_ok_same: "same_history v w \<Longrightarrow> history_ok v = history_ok w"
  by (simp add: same_history_def history_ok_def)

lemma commit_result:
  assumes "history_ok w" and "commit H cid ctx owner repo ref_name host proto (Some raw) w = (Inr resp, w')"
    and "parse_commit H raw = Inr (hdr, files)" and "repo_named w owner repo = Some rid"
  obtains v0 v rows where "same_history w v0" "lfs_objects v0 = lfs_objects w" "stage_files H files v0 = (Inr rows, v)" "same_history w v" "can_commit cid rid rows v"
    "head_of w' rid = Some cid" "files_of w' cid = rows" "lfs_objects w' = lfs_objects v" "map fst rows = map cf_path files"
    "repo_files w' = repo_files v @ tree_rows cid rows"
proof -
  from assms(2) obtain v0 v rows fs where c: "same_history w v0" "stage_files H files v0 = (Inr rows, v)"
      "can_commit cid rid rows v" "w' = (committed cid rid ctx hdr rows v)\<lparr>faults := fs\<rparr>" "lfs_objects v0 = lfs_objects w"
    by (rule commit_Inr) (use assms(3,4) in auto)
  have v: "same_history w v" using keepsD [OF staged.keeps_stage_files [OF refl] c(1), of H files] c(2) by simp
  with assms(1) have "history_ok v" by (simp add: history_ok_same)
  from files_of_committed [OF this c(3), of ctx hdr] c(4)
  have "head_of w' rid = Some cid" "files_of w' cid = rows" by (simp_all add: head_of_def)
  with c v stage_files_store [OF c(2)] show ?thesis by (intro that) (auto simp: committed_sel)
qed

text \<open>A commit replaces the tree. After a successful commit the main branch lists exactly the paths of its own
  entries: a file of an earlier commit that this one does not repeat is gone from the branch.\<close>

lemma commit_replaces_tree:
  assumes "history_ok w" and "commit H cid ctx owner repo ref_name host proto (Some raw) w = (Inr resp, w')"
    and "parse_commit H raw = Inr (hdr, files)" and "repo_named w owner repo = Some rid"
  shows "map fst (head_files w' rid) = map cf_path files"
  using assms by (rule commit_result) (simp add: head_files_def)

lemma stage_inline_row:
  assumes "cf_xet_hash f = None" and "cf_oid f = None" and "cf_content f = Some inline" and "x_b64_std_decode X inline = Some bytes"
    and "stage_file X f w = (Inr r, w')"
  shows "r = (cf_path f, lfs_file_row (x_digest X bytes) (int (length bytes)))"
  using assms by (auto simp: stage_file_def stage_inline_def inline_content_def ret_def elim!: bind_Inr dest!: lift_res_Inr split: if_splits)

lemma stage_files_inline:
  assumes "stage_files X fs w = (Inr rows, w')" and "f \<in> set fs" and "cf_xet_hash f = None" and "cf_oid f = None"
    and "cf_content f = Some inline" and "x_b64_std_decode X inline = Some bytes"
  shows "(cf_path f, lfs_file_row (x_digest X bytes) (int (length bytes))) \<in> set rows"
  using assms(1,2)
proof (induction fs arbitrary: w rows)
  case (Cons g fs)
  from Cons.prems(1) obtain r w1 rs where 1: "stage_file X g w = (Inr r, w1)" and 2: "stage_files X fs w1 = (Inr rs, w')"
    and rows: "rows = r # rs" by (auto elim!: bind_Inr simp: ret_def)
  show ?case
  proof (cases "f \<in> set fs")
    case True
    with Cons.IH [OF 2] rows show ?thesis by simp
  next
    case False
    with Cons.prems(2) 1 have "stage_file X f w = (Inr r, w1)" by simp
    from stage_inline_row [OF assms(3-6) this] rows show ?thesis by simp
  qed
qed simp

lemma hex_decode_hex_encode: "hex_decode (hex_encode bs) = Inr (Some bs)"
proof -
  have "even (length (hex_of bs))" by (induction bs) (auto simp: hex_of_def hex_byte_def)
  then show ?thesis
    by (simp add: hex_encode_eq_hex_of hex_decode_def hex_of_no_prefix hex_decode_pairs_hex_of even_iff_mod_2_eq_zero)
qed

lemma lfs_download_stored:
  assumes "faults w = []" and "map_of (lfs_objects w) oid = Some x"
  shows "fst (lfs_download X (hex_encode oid) rid ah w) = Inr (lo_content x)"
  using recorded_reply [of X ah rid "int (length (lo_content x))" None "Some oid" "lo_content x" w] assms
  by (simp add: lfs_download_def hex_arg_def hex_decode_hex_encode lift_res_def app_def db_query_def io_step_no_fault ok_or_def bind_run)

lemma resolve_main:
  assumes "readable_repo X owner repo ah w = (Inr rid, w)" and "faults w = []" and "head_of w rid = Some cid"
    and "map_of (repo_files w) (cid, p) = Some (lfs_file_row oid n)"
  shows "\<exists>info. fst (resolve_lookup X owner repo ''main'' p ah w) = Inr info \<and> ri_backend info = LfsBackend oid \<and> ri_size info = n"
  using assms(3,4)
  by (simp add: resolve_lookup_def bindE_def assms(1) db_query_def io_step_no_fault [OF assms(2)] lift_res_def ok_or_def Let_def
      lfs_file_row_def ret_def)

lemma committed_row:
  assumes "can_commit cid rid rows v" and "(p, r) \<in> set rows"
  shows "map_of (repo_files v @ tree_rows cid rows) (cid, p) = Some r"
proof -
  have "distinct (map fst (tree_rows cid rows))"
    using assms(1) by (auto simp: can_commit_def fresh_tree_def tree_rows_def distinct_map comp_def case_prod_beta inj_on_def)
  then have "map_of (tree_rows cid rows) (cid, p) = Some r" using assms(2) by (auto simp: tree_rows_def intro: rev_image_eqI)
  moreover have "map_of (repo_files v) (cid, p) = None" using assms by (force simp: can_commit_def fresh_tree_def)
  ultimately show ?thesis by (simp add: map_add_def)
qed

text \<open>Staging an entry stores at most its own inline content, under its digest.\<close>

definition holds_only :: "byte list \<Rightarrow> byte list \<Rightarrow> 'z hub_scheme \<Rightarrow> bool" where
  "holds_only oid b w \<longleftrightarrow> (\<forall>x. map_of (lfs_objects w) oid = Some x \<longrightarrow> lo_content x = b)"

lemma holds_only_faults [simp]: "holds_only oid b (w\<lparr>faults := fs\<rparr>) = holds_only oid b w"
  by (simp add: holds_only_def)

lemma put_lfs_objects:
  assumes "put_lfs oid c w = (Inr u, w')"
  shows "map_of (lfs_objects w') i = (if i = oid \<and> map_of (lfs_objects w) i = None
    then Some \<lparr>lo_size_bytes = int (length c), lo_content = c, lo_created_at = clock w\<rparr> else map_of (lfs_objects w) i)"
  using assms unfolding put_lfs_def by (elim hub_checked_Inr) (auto simp: map_of_insert_row)

lemma put_holds_only:
  assumes "put_lfs (x_digest X b') b' v = (Inr u, v')" and "holds_only oid b v" and "x_digest X b' = oid \<Longrightarrow> b' = b"
  shows "holds_only oid b v'"
  using put_lfs_objects [OF assms(1)] assms(2,3) by (auto simp: holds_only_def)

lemma stage_file_holds_only:
  assumes "stage_file X f w = (Inr r, w')" and "holds_only oid b w"
    and "\<And>c b'. cf_content f = Some c \<Longrightarrow> x_b64_std_decode X c = Some b' \<Longrightarrow> x_digest X b' = oid \<Longrightarrow> b' = b"
  shows "holds_only oid b w'"
proof -
  show ?thesis
  proof (cases "cf_content f")
    case None
    with assms(1,2) show ?thesis
      by (auto simp: stage_file_def stage_xet_def stage_oid_def ret_def raise_def elim!: bind_Inr hub_query_Inr
          dest!: app_Inr lift_res_Inr split: option.splits)
  next
    case (Some c)
    with assms(1,2) show ?thesis
      by (auto simp: stage_file_def stage_xet_def stage_oid_def stage_inline_def ret_def raise_def elim!: bind_Inr hub_query_Inr
          dest!: app_Inr lift_res_Inr inline_content_Inr intro: put_holds_only assms(3) split: option.splits if_splits)
        (rule put_holds_only, assumption+, rule assms(3))
  qed
qed

lemma stage_files_hold_only:
  assumes "stage_files X fs w = (Inr rows, w')" and "holds_only oid b w"
    and "\<And>g c b'. g \<in> set fs \<Longrightarrow> cf_content g = Some c \<Longrightarrow> x_b64_std_decode X c = Some b' \<Longrightarrow> x_digest X b' = oid \<Longrightarrow> b' = b"
  shows "holds_only oid b w'"
  using assms
proof (induction fs arbitrary: w rows)
  case (Cons f fs)
  from Cons.prems(1) obtain r w1 rs where 1: "stage_file X f w = (Inr r, w1)" and 2: "stage_files X fs w1 = (Inr rs, w')"
    by (auto elim!: bind_Inr simp: ret_def)
  from stage_file_holds_only [OF 1 Cons.prems(2)] Cons.prems(3) have "holds_only oid b w1" by auto
  from Cons.IH [OF 2 this] Cons.prems(3) show ?case by auto
qed (simp add: ret_def)

text \<open>C14: what is committed can be downloaded. A file committed inline is afterwards found under its path on main by
  every reader who passes the gate, with its size, and the object it resolves to is downloaded as
  exactly the bytes the client encoded, provided that neither an object stored before nor another entry of the same
  body has other bytes with the same digest.\<close>

theorem committed_file_downloads:
  assumes "history_ok w"
    and "commit H cid ctx owner repo ref_name host proto (Some raw) w = (Inr resp, w')"
    and "parse_commit H raw = Inr (hdr, files)" and "repo_named w owner repo = Some rid"
    and "f \<in> set files" and "cf_xet_hash f = None" and "cf_oid f = None" and "cf_content f = Some inline"
    and "x_b64_std_decode H inline = Some bytes"
    and "\<forall>x. map_of (lfs_objects w) (x_digest H bytes) = Some x \<longrightarrow> lo_content x = bytes"
    and "\<forall>g\<in>set files. \<forall>c b. cf_content g = Some c \<longrightarrow> x_b64_std_decode H c = Some b \<longrightarrow> x_digest H b = x_digest H bytes \<longrightarrow> b = bytes"
    and "faults w' = []" and "readable_repo H owner repo ah w' = (Inr rid, w')"
  shows "\<exists>info. fst (resolve_lookup H owner repo ''main'' (cf_path f) ah w') = Inr info
    \<and> ri_backend info = LfsBackend (x_digest H bytes) \<and> ri_size info = int (length bytes)
    \<and> fst (lfs_download H (hex_encode (x_digest H bytes)) r ah' w') = Inr bytes"
proof -
  from assms(1-4) obtain v0 v rows where c: "same_history w v0" "lfs_objects v0 = lfs_objects w" "stage_files H files v0 = (Inr rows, v)" "can_commit cid rid rows v"
    and h: "head_of w' rid = Some cid" "lfs_objects w' = lfs_objects v" "repo_files w' = repo_files v @ tree_rows cid rows"
    by (rule commit_result)
  have m: "(cf_path f, lfs_file_row (x_digest H bytes) (int (length bytes))) \<in> set rows"
    by (rule stage_files_inline [OF c(3) assms(5-9)])
  have "row_stored v (lfs_file_row (x_digest H bytes) (int (length bytes)))"
    using stage_files_store [OF c(3)] m by fastforce
  then obtain x where x: "map_of (lfs_objects w') (x_digest H bytes) = Some x"
    by (auto simp: row_stored_def lfs_file_row_def has_object_def h)
  have "holds_only (x_digest H bytes) bytes v0" using assms(10) by (simp add: holds_only_def c(2))
  from stage_files_hold_only [OF c(3) this] assms(11) x have "lo_content x = bytes" by (auto simp: holds_only_def h)
  with lfs_download_stored [OF assms(12) x] have "fst (lfs_download H (hex_encode (x_digest H bytes)) r ah' w') = Inr bytes" by simp
  moreover have "map_of (repo_files w') (cid, cf_path f) = Some (lfs_file_row (x_digest H bytes) (int (length bytes)))"
    unfolding h by (rule committed_row [OF c(4) m])
  ultimately show ?thesis using resolve_main [OF assms(13,12) h(1)] by blast
qed

text \<open>A commit id is accepted as a revision and then never found. In a well-formed history the model information
  of an existing commit, asked for under its commit id, is answered with 404, because the id is looked
  up again as the name of a branch.\<close>

lemma sha_revision_is_never_found:
  assumes "history_ok w" and "faults w = []" and "readable_repo H owner repo ah w = (Inr rid, w)" and "revision \<noteq> ''main''"
    and "commit_with_sha H revision (commits_of w rid) = Some cid"
  shows "fst (model_info_rev H owner repo revision ah w) = Inl NotFound"
proof -
  have "map_of (repo_refs w) (rid, revision) = None"
    using assms(1,4) by (cases "map_of (repo_refs w) (rid, revision)") (auto simp: history_ok_def hist_ok_def dest!: map_of_SomeD)
  then show ?thesis
    using assms(4,5)
    by (simp add: model_info_rev_def build_model_info_def bindE_def assms(3) db_query_def io_step_no_fault [OF assms(2)] lift_res_def ok_or_def
        ref_commit_def)
qed

text \<open>A commit accepts a file nobody has uploaded. An entry with a xet hash that is neither a xorb nor a registered
  file is staged with the size the client claims, and the download it resolves to is a 404.\<close>

lemma unknown_xet_hash_is_staged:
  assumes "faults w = []" and "cf_xet_hash f = Some xh" and "hex_decode xh = Inr (Some h)" and "cf_size f = Some n"
    and "map_of (xorbs w) h = None" and "map_of (reconstruction_files w) h = None"
  shows "stage_file H f w = (Inr (cf_path f, xet_row h n), w) \<and> fst (xet_file_serve H xh rid ah w) = Inl (App NotFound)"
  using assms(2-6)
  by (simp add: stage_file_def stage_xet_def xet_file_serve_def hex_arg_def bindE_def lift_res_def app_def db_query_def
      io_step_no_fault [OF assms(1)] ok_or_def ret_def)

lemma lfs_download_result:
  "fst (lfs_download X hx rid ah w) =
     (case hex_arg ''bad_oid'' hx of Inl e \<Rightarrow> Inl e | Inr oid \<Rightarrow>
       (case fst (db_query (\<lambda>w. map_option lo_content (map_of (lfs_objects w) oid)) w) of
          Inl e \<Rightarrow> Inl (App e) | Inr row \<Rightarrow> (case row of None \<Rightarrow> Inl (App NotFound) | Some c \<Rightarrow> Inr c)))"
  unfolding lfs_download_def
  by (auto simp: bind_run lift_res_def app_def ok_or_def bindE_def [of "app (db_query f)" for f] bindE_def [of "lift_res r" for r]
      recorded_reply split: sum.split option.split prod.split)

text \<open>The bytes of a private repository are not private. What an LFS download answers does not depend on who asks,
  on the repository it is counted for, or on who owns or may see any repository.\<close>

lemma lfs_bytes_ignore_visibility:
  "fst (lfs_download H hx rid ah w) = fst (lfs_download H hx rid' ah' (w\<lparr>repos := rs, users := us, api_keys := ks\<rparr>))"
proof -
  have "fst (db_query (\<lambda>w. map_option lo_content (map_of (lfs_objects w) oid)) (w\<lparr>repos := rs, users := us, api_keys := ks\<rparr>))
      = fst (db_query (\<lambda>w. map_option lo_content (map_of (lfs_objects w) oid)) w)" for oid
    by (simp add: db_query_def io_step_def split: list.split)
  then show ?thesis by (simp add: lfs_download_result split: sum.split)
qed

section \<open>Witnesses\<close>

lemma own_sha_is_found: "i \<in> set ids \<Longrightarrow> \<exists>j. commit_with_sha X (commit_oid_for X i) ids = Some j"
  unfolding commit_with_sha_def commit_oid_for_def to_lowercase_hex by (induction ids) auto

abbreviation toy_H :: hub_env where
  "toy_H \<equiv> toy_henv hf_claims toy_file"

definition toy_key :: key_row where
  "toy_key = \<lparr>ak_user_id = 69, ak_key_hash = [], ak_scopes = [Upload], ak_label = None, ak_masked_prefix = None, ak_created_at = 0,
     ak_revoked_at = None, ak_last_used_at = None\<rparr>"

definition hub_ctx :: AuthContext where
  "hub_ctx = \<lparr>ctx_api_key_id = 1, ctx_user_id = 69, ctx_scopes = [Upload]\<rparr>"

text \<open>The repository of the other witnesses made public, and a server with an empty hub.\<close>

definition toy_pub :: hub where
  "toy_pub = toy_hub\<lparr>api_keys := [(1, toy_key)],
     repos := [(1, \<lparr>rp_owner_user_id = 69, rp_name = ''m'', rp_visibility = Public, rp_description = None, rp_created_at = 0, rp_updated_at = 0\<rparr>)]\<rparr>"

definition toy_start :: hub where
  "toy_start = toy_hub\<lparr>repos := [], repo_commits := [], repo_refs := []\<rparr>"

lemma toy_start_empty: "empty_hub toy_start" "faults toy_start = []" "lfs_objects toy_start = []"
  by (simp_all add: empty_hub_def toy_start_def toy_hub_sel)

lemma toy_hex: "hex_decode ''01'' = Inr (Some [1])" "hex_decode ''02'' = Inr (Some [2])"
  by (simp_all add: hex_decode_def continuation_byte_def u8_from_str_radix16_def to_digit16_def)

lemma toy_put: "(hub_step toy_H E G Pw)\<^sup>*\<^sup>* w (snd (lfs_upload toy_H ''01'' (Some [1]) w))"
  by (rule r_into_rtranclp) (rule hs_lfs_put)

lemma toy_put_state: "snd (lfs_upload toy_H ''01'' (Some [1]) toy_start) = toy_start\<lparr>lfs_objects := [([1], \<lparr>lo_size_bytes = 1, lo_content = [1], lo_created_at = clock toy_start\<rparr>)]\<rparr>"
  by (simp add: lfs_upload_def bounded_body_def MAX_LFS_INLINE_BYTES_def lift_res_def hex_arg_def toy_hex bindE_def toy_henv_sel app_def put_lfs_def
      db_checked_def db_exec_def io_step_no_fault toy_start_empty ret_def insert_row_def)

theorem hub_tables_well_formed_witness:
  "repos_ok (snd (lfs_upload toy_H ''01'' (Some [1]) toy_start)) \<and> history_ok (snd (lfs_upload toy_H ''01'' (Some [1]) toy_start))"
  using hub_tables_well_formed [OF toy_put toy_start_empty(1)] by blast

theorem lfs_bytes_match_their_oid_witness:
  "fst (lfs_download toy_H ''01'' None None (snd (lfs_upload toy_H ''01'' (Some [1]) toy_start))) = Inr [1]
    \<and> hex_decode ''01'' = Inr (Some (x_digest toy_H [1]))"
proof -
  have "fst (lfs_download toy_H ''01'' None None (snd (lfs_upload toy_H ''01'' (Some [1]) toy_start))) = Inr [1]"
    by (simp add: lfs_download_result hex_arg_def toy_hex toy_put_state db_query_def io_step_no_fault toy_start_empty)
  with lfs_bytes_match_their_oid [OF toy_put toy_start_empty(1)] show ?thesis by blast
qed

lemma toy_pub_tables: "faults toy_pub = []" "clock toy_pub = 0" "users toy_pub = [(69, toy_user)]" "api_keys toy_pub = [(1, toy_key)]"
  "repos toy_pub = [(1, \<lparr>rp_owner_user_id = 69, rp_name = ''m'', rp_visibility = Public, rp_description = None, rp_created_at = 0, rp_updated_at = 0\<rparr>)]"
  "repo_commits toy_pub = [(5, \<lparr>cm_repo_id = 1, cm_parent = None, cm_author_user_id = 69, cm_author_api_key_id = 1, cm_message = '''',
        cm_committed_at = 0\<rparr>)]"
  "repo_refs toy_pub = [((1, ''main''), 5)]" "repo_files toy_pub = []" "lfs_objects toy_pub = []"
  by (simp_all add: toy_pub_def toy_hub_sel) (simp_all add: toy_hub_def accounts.defs)

lemma toy_pub_named: "repo_named toy_pub ''o'' ''m'' = Some 1"
  by (simp add: repo_named_def toy_pub_tables toy_user_def)

lemma toy_pub_ok: "history_ok toy_pub" "objects_ok dig toy_pub" "commits_of toy_pub 1 = [5]"
  by (simp_all add: history_ok_def hist_ok_def commit_in_def objects_ok_def commits_of_def toy_pub_tables)

lemma toy_pub_gate: "readable_repo X ''o'' ''m'' None toy_pub = (Inr 1, toy_pub)"
  by (rule open_gate [OF toy_pub_named _ toy_pub_tables(1)], simp add: toy_pub_tables, simp)

lemma toy_sha: "commit_with_sha toy_H (commit_oid_for toy_H 5) (commits_of toy_pub 1) = Some 5"
  unfolding toy_pub_ok(3) commit_with_sha_def commit_oid_for_def to_lowercase_hex by simp

theorem pinned_revision_is_stable_witness:
  "commit_with_sha toy_H (commit_oid_for toy_H 5) (commits_of (snd (lfs_upload toy_H ''01'' (Some [1]) toy_pub)) 1) = Some 5"
  using pinned_revision_is_stable [OF toy_put toy_sha] by blast

lemma sha_revision_is_never_found_witness:
  "fst (model_info_rev toy_H ''o'' ''m'' (commit_oid_for toy_H 5) None toy_pub) = Inl NotFound"
proof -
  have "length (commit_oid_for toy_H 5) = 40" by (simp add: commit_oid_for_def toy_henv_sel i64_be_bytes_def as_bytes_def)
  then have "commit_oid_for toy_H 5 \<noteq> ''main''" by auto
  from sha_revision_is_never_found [OF toy_pub_ok(1) toy_pub_tables(1) toy_pub_gate this toy_sha] show ?thesis .
qed

definition ghost_file :: CommitFile where
  "ghost_file = \<lparr>cf_path = ''a'', cf_content = None, cf_oid = None, cf_size = Some 5, cf_xet_hash = Some ''02''\<rparr>"

lemma unknown_xet_hash_is_staged_witness:
  "stage_file toy_H ghost_file toy_hub = (Inr (''a'', xet_row [2] 5), toy_hub)
    \<and> fst (xet_file_serve toy_H ''02'' None None toy_hub) = Inl (App NotFound)"
proof -
  have "map_of (xorbs toy_hub) [2] = None" "map_of (reconstruction_files toy_hub) [2] = None"
    by (simp_all add: toy_hub_def accounts.defs)
  with unknown_xet_hash_is_staged [OF toy_hub_sel(1) _ toy_hex(2), of ghost_file 5 toy_H None None] show ?thesis
    by (simp add: ghost_file_def)
qed

text \<open>One commit of one empty file on the public repository.\<close>

lemma toy_commit_parse: "parse_commit toy_H [123] = Inr (default_header, [toy_file])"
  by (simp add: parse_commit_def toy_henv_def auth_ext.defs entry_key_def json_get_def)

lemma toy_stage: "stage_files toy_H [toy_file] toy_pub =
    (Inr [(''a'', lfs_file_row [] 0)], toy_pub\<lparr>lfs_objects := [([], \<lparr>lo_size_bytes = 0, lo_content = [], lo_created_at = clock toy_pub\<rparr>)]\<rparr>)"
  by (simp add: stage_file_def toy_file_def stage_inline_def inline_content_def toy_henv_def auth_ext.defs toy_aext_def url_ext.defs toy_ext_def
      bindE_def lift_res_def app_def put_lfs_def db_checked_def db_exec_def io_step_no_fault toy_pub_tables ret_def insert_row_def as_bytes_def)

definition toy_staged :: hub where
  "toy_staged = toy_pub\<lparr>lfs_objects := [([], \<lparr>lo_size_bytes = 0, lo_content = [], lo_created_at = clock toy_pub\<rparr>)]\<rparr>"

lemma toy_write: "write_commit 6 1 hub_ctx default_header [(''a'', lfs_file_row [] 0)] toy_staged
    = (Inr (), committed 6 1 hub_ctx default_header [(''a'', lfs_file_row [] 0)] toy_staged)"
  by (simp add: write_commit_def transaction_def commit_tx_def bindE_def db_query_def db_checked_def db_exec_def db_update_def io_step_no_fault
      toy_staged_def toy_pub_tables hub_ctx_def ret_def insert_row_def lfs_file_row_def committed_def new_commit_def tree_rows_def)

lemma toy_commit:
  "\<exists>resp. commit toy_H 6 hub_ctx ''o'' ''m'' ''main'' None None (Some [123]) toy_pub
     = (Inr resp, committed 6 1 hub_ctx default_header [(''a'', lfs_file_row [] 0)] toy_staged)"
proof -
  have "find_repo_id ''o'' ''m'' toy_pub = (Inr 1, toy_pub)" "require_ownership 1 (ctx_user_id hub_ctx) toy_pub = (Inr (), toy_pub)"
    by (simp_all add: find_repo_id_def require_ownership_def bindE_def db_query_def io_step_no_fault toy_pub_tables toy_pub_named lift_res_def
        ok_or_def ret_def hub_ctx_def)
  with toy_stage toy_write show ?thesis
    by (simp add: commit_def bindE_def app_def lift_res_def bounded_body_def MAX_COMMIT_BYTES_def toy_commit_parse toy_staged_def ret_def Let_def)
qed

lemma commit_replaces_tree_witness:
  "map fst (head_files (committed 6 1 hub_ctx default_header [(''a'', lfs_file_row [] 0)] toy_staged) 1) = [''a'']"
  using commit_replaces_tree [OF toy_pub_ok(1) _ toy_commit_parse toy_pub_named] toy_commit by (auto simp: toy_file_def)

theorem committed_file_downloads_witness:
  "fst (lfs_download toy_H (hex_encode []) None None (committed 6 1 hub_ctx default_header [(''a'', lfs_file_row [] 0)] toy_staged)) = Inr []"
proof -
  let ?w = "committed 6 1 hub_ctx default_header [(''a'', lfs_file_row [] 0)] toy_staged"
  obtain resp where c: "commit toy_H 6 hub_ctx ''o'' ''m'' ''main'' None None (Some [123]) toy_pub = (Inr resp, ?w)" using toy_commit by blast
  have f: "faults ?w = []" by (simp add: committed_def toy_staged_def toy_pub_tables)
  have "repo_named ?w ''o'' ''m'' = Some 1"
    by (simp add: repo_named_def committed_def toy_staged_def toy_pub_tables toy_user_def update_row_def)
  then have g: "readable_repo toy_H ''o'' ''m'' None ?w = (Inr 1, ?w)"
    by (rule open_gate [OF _ _ f], simp add: committed_def toy_staged_def toy_pub_tables update_row_def, simp)
  have b: "x_b64_std_decode toy_H [] = Some []" "x_digest toy_H = (\<lambda>b. b)"
    by (simp_all add: toy_henv_def auth_ext.defs toy_aext_def url_ext.defs toy_ext_def as_bytes_def)
  have tf: "cf_xet_hash toy_file = None" "cf_oid toy_file = None" "cf_content toy_file = Some []" by (simp_all add: toy_file_def)
  from committed_file_downloads [OF toy_pub_ok(1) c toy_commit_parse toy_pub_named, of toy_file "[]" "[]" None None None] b f g tf show ?thesis
    by (auto simp: toy_pub_tables)
qed

end
