(* ===== verification/Platform.thy ===== *)
theory Platform
  imports Admin Hub_System
begin

text \<open>
  The pages about the deployment (\<^verbatim>\<open>handlers/admin/map.rs\<close>, \<^verbatim>\<open>setup.rs\<close>, \<^verbatim>\<open>handlers/health.rs\<close>): the map of the hosts,
  the probes of the subsystems, the public Sia snapshot and the readiness probe; and the console routes, each a
  page behind the session extractor. The admin API of indexd is a parameter: the JSON reply to a GET, and serde's
  reader of a list of hosts. A probe's timeout is a failed round trip; the time it took is an argument.
\<close>

section \<open>Reading JSON\<close>

definition json_str :: "json \<Rightarrow> string option" where
  "json_str v = (case v of JStr s \<Rightarrow> Some s | _ \<Rightarrow> None)"

definition json_bool :: "json \<Rightarrow> bool option" where
  "json_bool v = (case v of JBool b \<Rightarrow> Some b | _ \<Rightarrow> None)"

definition json_u64 :: "json \<Rightarrow> u64 option" where
  "json_u64 v = (case v of JNum n \<Rightarrow> if 0 \<le> n \<and> n < 2 ^ 64 then Some (word_of_int n) else None | _ \<Rightarrow> None)"

definition json_list :: "json \<Rightarrow> json list option" where
  "json_list v = (case v of JArr vs \<Rightarrow> Some vs | _ \<Rightarrow> None)"

definition field_str :: "string \<Rightarrow> json \<Rightarrow> string option" where
  "field_str k v = (case json_get k v of None \<Rightarrow> None | Some x \<Rightarrow> json_str x)"

definition field_bool :: "string \<Rightarrow> json \<Rightarrow> bool option" where
  "field_bool k v = (case json_get k v of None \<Rightarrow> None | Some x \<Rightarrow> json_bool x)"

definition or_else :: "'a option \<Rightarrow> 'a \<Rightarrow> 'a" where
  "or_else x d = (case x of Some a \<Rightarrow> a | None \<Rightarrow> d)"

section \<open>The map\<close>

text \<open>Coordinates are doubles, carried unchanged.\<close>

record 'f IndexdHost =
  ih_public_key :: string
  ih_country_code :: "string option"
  ih_latitude :: "'f option"
  ih_longitude :: "'f option"
  ih_contract_count :: "32 word option"

record 'f MapHost =
  mh_public_key :: string
  mh_country_code :: "string option"
  mh_lat :: 'f
  mh_lon :: 'f
  mh_usable :: bool
  mh_contract_count :: "32 word option"

text \<open>\<open>ix_get password url\<close> is the reply of indexd.\<close>

record 'f indexd_env =
  ix_admin_url :: string
  ix_admin_password :: string
  ix_get :: "string \<Rightarrow> string \<Rightarrow> json http"
  ix_hosts :: "json \<Rightarrow> 'f IndexdHost list option"
  ix_github_oauth_configured :: bool
  ix_v2_reconstruction_enabled :: bool

text \<open>The loop over the contracts; a host's counter wraps at 32 bits.\<close>

definition bump_host :: "json \<Rightarrow> (string \<times> 32 word) list \<Rightarrow> (string \<times> 32 word) list" where
  "bump_host c m =
     (case field_str ''hostKey'' c of
        None \<Rightarrow> m
      | Some hk \<Rightarrow> upsert hk (or_else (map_of m hk) 0 + 1) m)"

definition contracts_by_host :: "json http \<Rightarrow> (string \<times> 32 word) list" where
  "contracts_by_host reply =
     (case reply of
        Parsed v \<Rightarrow> (case json_list v of Some cs \<Rightarrow> fold bump_host cs [] | None \<Rightarrow> [])
      | _ \<Rightarrow> [])"

definition map_host :: "(string \<times> 32 word) list \<Rightarrow> 'f IndexdHost \<Rightarrow> 'f MapHost option" where
  "map_host by_host h =
     (case (ih_latitude h, ih_longitude h) of
        (Some lat, Some lon) \<Rightarrow> Some \<lparr>mh_public_key = ih_public_key h, mh_country_code = ih_country_code h, mh_lat = lat,
          mh_lon = lon, mh_usable = True,
          mh_contract_count = (case map_of by_host (ih_public_key h) of Some n \<Rightarrow> Some n | None \<Rightarrow> ih_contract_count h)\<rparr>
      | _ \<Rightarrow> None)"

definition fetch_map_hosts :: "('f, 'x) indexd_env_scheme \<Rightarrow> string \<Rightarrow> string + 'f MapHost list" where
  "fetch_map_hosts I admin =
     (case ix_get I (ix_admin_password I) (admin @ ''/api/hosts?usable=true'') of
        SendFailed e \<Rightarrow> Inl e
      | NotSuccess st \<Rightarrow> Inl (''indexd /api/hosts returned '' @ st)
      | ParseFailed e \<Rightarrow> Inl e
      | Parsed v \<Rightarrow>
          (case ix_hosts I v of
             None \<Rightarrow> Inl ''decode''
           | Some upstream \<Rightarrow>
               let by_host = contracts_by_host
                     (ix_get I (ix_admin_password I) (trim_end_slashes (ix_admin_url I) @ ''/api/contracts'')) in
               Inr (List.map_filter (map_host by_host) upstream)))"

definition get_map :: "('f, 'x) indexd_env_scheme \<Rightarrow> SessionUser \<Rightarrow> ('z, AppError, 'f MapHost list) hub_io" where
  "get_map I user =
     (let admin = trim_end_slashes (ix_admin_url I) in
      if admin = [] then ret []
      else ret (case fetch_map_hosts I admin of Inr hosts \<Rightarrow> hosts | Inl _ \<Rightarrow> []))"

section \<open>The set-up page\<close>

text \<open>A duration as whole seconds and nanoseconds.\<close>

type_synonym duration = "nat \<times> nat"

definition elapsed_ms :: "duration \<Rightarrow> rat" where
  "elapsed_ms d = (case d of (secs, nanos) \<Rightarrow> of_nat secs * 1000 + of_nat nanos / 1000000)"

record ProbeStatus =
  pb_status :: string
  pb_latency_ms :: rat

record IndexdStatus = ProbeStatus +
  pb_synced :: "bool option"
  pb_url :: string

record SetupStatusResponse =
  sp_postgres :: ProbeStatus
  sp_redis :: ProbeStatus
  sp_indexd :: IndexdStatus
  sp_github_configured :: bool
  sp_v2_reconstruction_enabled :: bool

definition probe :: "duration \<Rightarrow> ('z, AppError, ProbeStatus) io" where
  "probe d =
     bindE (attempt (io_step db_error (\<lambda>w. ((), w)))) (\<lambda>res.
     ret \<lparr>pb_status = (case res of Inr _ \<Rightarrow> ''ok'' | Inl _ \<Rightarrow> ''degraded''), pb_latency_ms = elapsed_ms d\<rparr>)"

definition probe_postgres :: "duration \<Rightarrow> ('z, AppError, ProbeStatus) io" where
  "probe_postgres d = probe d"

definition probe_redis :: "duration \<Rightarrow> ('z, AppError, ProbeStatus) io" where
  "probe_redis d = probe d"

definition probe_indexd :: "('f, 'x) indexd_env_scheme \<Rightarrow> duration \<Rightarrow> IndexdStatus" where
  "probe_indexd I d =
     (let url_base = trim_end_slashes (ix_admin_url I) in
      if url_base = [] then \<lparr>pb_status = ''external'', pb_latency_ms = 0, pb_synced = None, pb_url = []\<rparr>
      else
      let (status, synced) =
        (case ix_get I (ix_admin_password I) (url_base @ ''/api/state'') of
           Parsed v \<Rightarrow> (''ok'', field_bool ''synced'' v)
         | ParseFailed _ \<Rightarrow> (''ok'', None)
         | _ \<Rightarrow> (''degraded'', None))
      in \<lparr>pb_status = status, pb_latency_ms = elapsed_ms d, pb_synced = synced, pb_url = url_base\<rparr>)"

definition get_setup_status ::
  "('f, 'x) indexd_env_scheme \<Rightarrow> duration \<Rightarrow> duration \<Rightarrow> duration \<Rightarrow> SessionUser \<Rightarrow> ('z, AppError, SetupStatusResponse) hub_io" where
  "get_setup_status I d1 d2 d3 user =
     bindE (probe_postgres d1) (\<lambda>postgres.
     bindE (probe_redis d2) (\<lambda>redis.
     ret \<lparr>sp_postgres = postgres, sp_redis = redis, sp_indexd = probe_indexd I d3,
          sp_github_configured = ix_github_oauth_configured I,
          sp_v2_reconstruction_enabled = ix_v2_reconstruction_enabled I\<rparr>))"

section \<open>The public Sia snapshot\<close>

record ContractSummary =
  cs_id :: string
  cs_host_key :: string
  cs_formation :: "string option"
  cs_size :: u64
  cs_remaining_allowance :: string

record PlatformSia =
  sn_wallet_address :: "string option"
  sn_wallet_spendable_hastings :: "string option"
  sn_wallet_immature_hastings :: "string option"
  sn_contract_count :: int
  sn_distinct_host_count :: int
  sn_contracts :: "ContractSummary list"
  sn_siascan_base :: string
  sn_indexd_synced :: "bool option"

definition SIASCAN_BASE_MAINNET :: string where
  "SIASCAN_BASE_MAINNET = ''https://siascan.com''"

definition SIASCAN_BASE_ZEN :: string where
  "SIASCAN_BASE_ZEN = ''https://zen.siascan.com''"

definition parsed :: "'a http \<Rightarrow> 'a option" where
  "parsed r = (case r of Parsed v \<Rightarrow> Some v | _ \<Rightarrow> None)"

definition contract_summary :: "json \<Rightarrow> ContractSummary" where
  "contract_summary c =
     \<lparr>cs_id = or_else (field_str ''id'' c) [], cs_host_key = or_else (field_str ''hostKey'' c) [],
      cs_formation = field_str ''formation'' c,
      cs_size = or_else (case json_get ''size'' c of None \<Rightarrow> None | Some v \<Rightarrow> json_u64 v) 0,
      cs_remaining_allowance = or_else (field_str ''remainingAllowance'' c) ''0''\<rparr>"

definition platform_sia :: "('f, 'x) indexd_env_scheme \<Rightarrow> PlatformSia" where
  "platform_sia I =
     (let url_base = trim_end_slashes (ix_admin_url I);
          get = (\<lambda>path. parsed (ix_get I (ix_admin_password I) (url_base @ path)));
          wallet = get ''/api/wallet'';
          contracts = or_else (case get ''/api/contracts'' of None \<Rightarrow> None | Some v \<Rightarrow> json_list v) [];
          state = get ''/api/state'';
          network = or_else (case state of None \<Rightarrow> None | Some v \<Rightarrow> field_str ''network'' v) ''mainnet'';
          wallet_field = (\<lambda>k. case wallet of None \<Rightarrow> None | Some v \<Rightarrow> field_str k v);
          summaries = map contract_summary contracts
      in \<lparr>sn_wallet_address = wallet_field ''address'', sn_wallet_spendable_hastings = wallet_field ''spendable'',
          sn_wallet_immature_hastings = wallet_field ''immature'', sn_contract_count = int (length contracts),
          sn_distinct_host_count = int (length (remdups (map cs_host_key summaries))), sn_contracts = summaries,
          sn_siascan_base = (if network = ''zen'' then SIASCAN_BASE_ZEN else SIASCAN_BASE_MAINNET),
          sn_indexd_synced = (case state of None \<Rightarrow> None | Some v \<Rightarrow> field_bool ''synced'' v)\<rparr>)"

section \<open>Readiness\<close>

record health_reply =
  hr_status :: nat
  hr_headers :: "(string \<times> string) list"
  hr_body :: string

definition health :: "bool \<Rightarrow> ('z, AppError, health_reply) io" where
  "health ready =
     (let reply = (\<lambda>code body. \<lparr>hr_status = code, hr_headers = [(''cache-control'', ''no-store'')], hr_body = body\<rparr>) in
      if \<not> ready then ret (reply 503 ''not_ready'')
      else
      bindE (attempt (db_query (\<lambda>_. ()))) (\<lambda>res.
      ret (case res of Inr _ \<Rightarrow> reply 200 ''ok'' | Inl _ \<Rightarrow> reply 503 ''db_down'')))"

section \<open>The console routes\<close>

text \<open>The handlers with their arguments extracted: the \<^verbatim>\<open>Session\<close> argument each of them declares runs before its body.\<close>

definition list_xorbs_route :: "url_ext \<Rightarrow> string option \<Rightarrow> XorbQuery \<Rightarrow> ('z, AppError, XorbRow list) hub_io" where
  "list_xorbs_route X cookie q = bindE (session_extractor X cookie) (\<lambda>user. list_xorbs user q)"

definition get_xorb_detail_route :: "url_ext \<Rightarrow> string option \<Rightarrow> string \<Rightarrow> ('z, AppError, XorbDetail) hub_io" where
  "get_xorb_detail_route X cookie h = bindE (session_extractor X cookie) (\<lambda>user. get_xorb_detail user h)"

definition get_stats_route :: "url_ext \<Rightarrow> string option \<Rightarrow> ('z, AppError, StatsResponse) hub_io" where
  "get_stats_route X cookie = bindE (session_extractor X cookie) get_stats"

definition get_me_route :: "url_ext \<Rightarrow> string option \<Rightarrow> ('z, AppError, SessionUser) hub_io" where
  "get_me_route X cookie = bindE (session_extractor X cookie) get_me"

definition list_keys_route :: "url_ext \<Rightarrow> string option \<Rightarrow> ('z, AppError, KeyListItem list) hub_io" where
  "list_keys_route X cookie = bindE (session_extractor X cookie) list_keys"

definition get_map_route :: "('f, 'x) indexd_env_scheme \<Rightarrow> url_ext \<Rightarrow> string option \<Rightarrow> ('z, AppError, 'f MapHost list) hub_io" where
  "get_map_route I X cookie = bindE (session_extractor X cookie) (get_map I)"

definition get_setup_status_route ::
  "('f, 'x) indexd_env_scheme \<Rightarrow> duration \<Rightarrow> duration \<Rightarrow> duration \<Rightarrow> url_ext \<Rightarrow> string option \<Rightarrow> ('z, AppError, SetupStatusResponse) hub_io" where
  "get_setup_status_route I d1 d2 d3 X cookie = bindE (session_extractor X cookie) (get_setup_status I d1 d2 d3)"

lemmas console_routes = list_xorbs_route_def get_xorb_detail_route_def get_stats_route_def get_me_route_def list_keys_route_def
  get_map_route_def get_setup_status_route_def

section \<open>The map counts contracts\<close>

definition contracts_of :: "string \<Rightarrow> json list \<Rightarrow> json list" where
  "contracts_of hk cs = filter (\<lambda>c. field_str ''hostKey'' c = Some hk) cs"

lemma bump_host_count:
  "map_of (fold bump_host cs m) hk
    = (if contracts_of hk cs = [] then map_of m hk else Some (or_else (map_of m hk) 0 + of_nat (length (contracts_of hk cs))))"
proof (induction cs arbitrary: m)
  case (Cons c cs)
  show ?case
    by (simp add: Cons.IH) (auto simp: contracts_of_def bump_host_def map_of_upsert or_else_def split: option.splits)
qed (simp add: contracts_of_def)

definition located :: "'f IndexdHost \<Rightarrow> bool" where
  "located h \<longleftrightarrow> ih_latitude h \<noteq> None \<and> ih_longitude h \<noteq> None"

definition host_on_map :: "json list \<Rightarrow> 'f IndexdHost \<Rightarrow> 'f MapHost" where
  "host_on_map cs h = \<lparr>mh_public_key = ih_public_key h, mh_country_code = ih_country_code h, mh_lat = the (ih_latitude h),
     mh_lon = the (ih_longitude h), mh_usable = True,
     mh_contract_count = (let n = length (contracts_of (ih_public_key h) cs) in if n = 0 then ih_contract_count h else Some (of_nat n))\<rparr>"

lemma map_host_alt: "map_host (fold bump_host cs []) h = (if located h then Some (host_on_map cs h) else None)"
  by (auto simp: map_host_def located_def host_on_map_def bump_host_count or_else_def Let_def split: option.split)

lemma map_filter_if: "List.map_filter (\<lambda>x. if P x then Some (f x) else None) xs = map f (filter P xs)"
  by (simp add: List.map_filter_def comp_def cong: map_cong)

lemma map_hosts_alt: "List.map_filter (map_host (fold bump_host cs [])) hs = map (host_on_map cs) (filter located hs)"
  unfolding map_filter_if [symmetric] by (rule arg_cong [of _ _ "\<lambda>f. List.map_filter f hs"]) (simp add: fun_eq_iff map_host_alt)

text \<open>The map shows every host indexd gives coordinates for, in its order, once, and the number at a host is the number of
  contracts that name it, modulo 32 bits, or what indexd says when no contract does. Whatever indexd answers
  instead, the page is an empty map and not an error.\<close>

lemma map_counts_contracts:
  "fst (get_map I user w) = Inr
     (let admin = trim_end_slashes (ix_admin_url I); get = ix_get I (ix_admin_password I) in
      case (if admin = [] then None else parsed (get (admin @ ''/api/hosts?usable=true''))) of
        None \<Rightarrow> []
      | Some v \<Rightarrow>
          (case ix_hosts I v of
             None \<Rightarrow> []
           | Some upstream \<Rightarrow>
               map (host_on_map (or_else (case parsed (get (admin @ ''/api/contracts'')) of None \<Rightarrow> None | Some cs \<Rightarrow> json_list cs) []))
                 (filter located upstream)))"
proof -
  have c: "contracts_by_host r = fold bump_host (or_else (case parsed r of None \<Rightarrow> None | Some cs \<Rightarrow> json_list cs) []) []" for r
    by (simp add: contracts_by_host_def parsed_def or_else_def split: http.split option.split)
  show ?thesis
    by (simp add: get_map_def fetch_map_hosts_def ret_def Let_def c map_hosts_alt parsed_def split: http.split option.split)
qed

section \<open>The probes tell the truth\<close>

text \<open>Whether the next round trip fails.\<close>

definition down :: "'z world_scheme \<Rightarrow> bool" where
  "down w \<longleftrightarrow> (case faults w of [] \<Rightarrow> False | b # _ \<Rightarrow> b)"

lemma probe_run: "\<exists>r w'. probe d w = (Inr r, w') \<and> (pb_status r = ''ok'') = (\<not> down w)"
  by (auto simp: probe_def io_defs io_step_def down_def split: list.split)

text \<open>The readiness probe. It answers 200 exactly when the server has finished booting and the database answers, and its
  reply is never to be cached.\<close>

lemma health_is_exact:
  "\<exists>r. fst (health ready w) = Inr r \<and> (hr_status r = 200 \<longleftrightarrow> ready \<and> \<not> down w)
     \<and> (hr_status r = 503 \<longleftrightarrow> \<not> (ready \<and> \<not> down w)) \<and> (''cache-control'', ''no-store'') \<in> set (hr_headers r)"
  by (auto simp: health_def Let_def io_defs db_query_def io_step_def down_def split: list.split)

text \<open>The set-up page is always answered. Each of its two database probes says ok exactly when its round trip succeeds, and
  the indexer is reported external exactly when no admin URL is configured.\<close>

lemma setup_status_is_exact:
  "\<exists>r w1. fst (get_setup_status I d1 d2 d3 user w) = Inr r \<and> w1 = snd (probe_postgres d1 w)
     \<and> (pb_status (sp_postgres r) = ''ok'') = (\<not> down w) \<and> (pb_status (sp_redis r) = ''ok'') = (\<not> down w1)
     \<and> (pb_status (sp_indexd r) = ''external'') = (trim_end_slashes (ix_admin_url I) = [])
     \<and> (pb_status (sp_indexd r) = ''degraded'') = (trim_end_slashes (ix_admin_url I) \<noteq> [] \<and>
          (\<exists>e. ix_get I (ix_admin_password I) (trim_end_slashes (ix_admin_url I) @ ''/api/state'') \<in> {SendFailed e, NotSuccess e}))"
proof -
  obtain r1 w1 where r1: "probe d1 w = (Inr r1, w1)" "(pb_status r1 = ''ok'') = (\<not> down w)" using probe_run by blast
  obtain r2 w2 where r2: "probe d2 w1 = (Inr r2, w2)" "(pb_status r2 = ''ok'') = (\<not> down w1)" using probe_run by blast
  have "fst (get_setup_status I d1 d2 d3 user w) = Inr \<lparr>sp_postgres = r1, sp_redis = r2, sp_indexd = probe_indexd I d3,
          sp_github_configured = ix_github_oauth_configured I, sp_v2_reconstruction_enabled = ix_v2_reconstruction_enabled I\<rparr>"
    using r1(1) r2(1) by (simp add: get_setup_status_def probe_postgres_def probe_redis_def bindE_def ret_def)
  then show ?thesis
    using r1 r2 by (auto simp: probe_postgres_def probe_indexd_def Let_def split: http.splits)
qed

section \<open>The pages are closed and only read\<close>

lemma reads_probe [reads_intro]: "reads (probe d)"
  unfolding probe_def
  by (intro reads_bind reads_lift reads_pure) (simp add: reads_query [unfolded db_query_def, of "\<lambda>_. ()"])

lemma reads_pages [reads_intro]:
  "reads (list_xorbs user q)" "reads (get_xorb_detail user s)" "reads (get_stats user)" "reads (get_me user)"
  "reads (get_map I user)" "reads (get_setup_status I d1 d2 d3 user)" "reads (health ready)"
  unfolding list_xorbs_def get_xorb_detail_def get_stats_def get_me_def get_map_def get_setup_status_def health_def
    probe_postgres_def probe_redis_def
  by (auto intro!: reads_intro simp: Let_def split: prod.split)

text \<open>The session a cookie header names, when it is live.\<close>

definition live_session :: "url_ext \<Rightarrow> string option \<Rightarrow> 'z accounts_scheme \<Rightarrow> uuid option" where
  "live_session X cookie w =
     (case cookie of None \<Rightarrow> None | Some v \<Rightarrow>
     (case header_to_str v of None \<Rightarrow> None | Some raw \<Rightarrow>
     (case parse_session_cookie X raw of None \<Rightarrow> None | Some sid \<Rightarrow>
     (case map_of (sessions w) sid of None \<Rightarrow> None | Some r \<Rightarrow> if session_live (clock w) r then Some sid else None))))"

text \<open>Nothing changes but the row of the live session the cookie names: it was seen now and lasts from now.\<close>

definition touches_session :: "url_ext \<Rightarrow> string option \<Rightarrow> 'z accounts_scheme \<Rightarrow> 'z accounts_scheme \<Rightarrow> bool" where
  "touches_session X cookie w w' \<longleftrightarrow> (\<exists>fs. w' = w\<lparr>faults := fs\<rparr>
     \<or> (\<exists>sid. live_session X cookie w = Some sid \<and> w' = w\<lparr>faults := fs, sessions := update_row sid
          (\<lambda>r. r\<lparr>ss_last_seen_at := Some (clock w), ss_expires_at := clock w + SESSION_TTL_DAYS * DAY_MS\<rparr>) (sessions w)\<rparr>))"

lemma touches_session_faults: "touches_session X cookie w w' \<Longrightarrow> touches_session X cookie w (w'\<lparr>faults := fs\<rparr>)"
  unfolding touches_session_def by (elim exE disjE conjE) (auto intro!: exI [of _ fs])

lemma touches_session_refl: "touches_session X cookie w w"
  unfolding touches_session_def by (rule exI [of _ "faults w"]) simp

lemma touch_session_cases:
  fixes w :: "'z accounts_scheme"
  obtains fs where "snd (touch_session sid w) = w\<lparr>faults := fs\<rparr>"
  | fs r where "map_of (sessions w) sid = Some r" "session_live (clock w) r"
      "snd (touch_session sid w) = w\<lparr>faults := fs, sessions := update_row sid (touched_session (clock w)) (sessions w)\<rparr>"
proof -
  let ?f = "\<lambda>w :: 'z accounts_scheme. case map_of (sessions w) sid of None \<Rightarrow> (None, w)
       | Some r \<Rightarrow> if session_live (clock w) r
           then (map_option (session_user (ss_user_id r)) (map_of (users w) (ss_user_id r)),
                 w\<lparr>sessions := update_row sid (touched_session (clock w)) (sessions w)\<rparr>)
           else (None, w)"
  show ?thesis
    by (rule io_step_cases [of db_error ?f w])
      (use that in \<open>auto simp: touch_session_def db_exec_def split: option.splits if_splits\<close>)
qed

lemma session_extractor_alt:
  "session_extractor X cookie w =
     (case (case cookie of None \<Rightarrow> None | Some v \<Rightarrow>
         (case header_to_str v of None \<Rightarrow> None | Some raw \<Rightarrow> parse_session_cookie X raw)) of
        None \<Rightarrow> (Inl Unauthenticated, w)
      | Some sid \<Rightarrow> bindE (touch_session sid) (\<lambda>user. lift_res (ok_or Unauthenticated user)) w)"
  by (auto simp: session_extractor_def bindE_def [of "lift_res r" for r] lift_res_def ok_or_def split: option.split)

lemma snd_bind_lift: "snd (bindE m (\<lambda>a. lift_res (f a)) w) = snd (m w)"
  by (simp add: bindE_def lift_res_def split: prod.split sum.split)

lemma session_extractor_outcome: "touches_session X cookie w (snd (session_extractor X cookie w))"
proof (cases "case cookie of None \<Rightarrow> None | Some v \<Rightarrow>
         (case header_to_str v of None \<Rightarrow> None | Some raw \<Rightarrow> parse_session_cookie X raw)")
  case None
  then show ?thesis by (simp add: session_extractor_alt touches_session_refl)
next
  case (Some sid)
  then have run: "snd (session_extractor X cookie w) = snd (touch_session sid w)" by (simp add: session_extractor_alt snd_bind_lift)
  show ?thesis
  proof (cases rule: touch_session_cases [of sid w])
    case (1 fs)
    then show ?thesis unfolding touches_session_def run by blast
  next
    case (2 fs r)
    then have "live_session X cookie w = Some sid" using Some by (auto simp: live_session_def split: option.splits)
    with 2(3) show ?thesis unfolding touches_session_def run touched_session_def [abs_def] by blast
  qed
qed

lemma dead_session_refused:
  assumes "\<And>r. map_of (sessions w) sid = Some r \<Longrightarrow> \<not> session_live (clock w) r"
  shows "\<exists>fs. touch_session sid w \<in> {(Inr None, w\<lparr>faults := fs\<rparr>), (Inl db_error, w\<lparr>faults := fs\<rparr>)}"
  unfolding touch_session_def db_exec_def
  by (rule io_step_cases, erule ssubst) (use assms in \<open>auto elim!: ssubst split: option.split\<close>)

lemma no_session_refused:
  assumes "live_session X cookie w = None"
  shows "\<exists>e fs. session_extractor X cookie w = (Inl e, w\<lparr>faults := fs\<rparr>) \<and> e \<in> {Unauthenticated, db_error}"
proof (cases "case cookie of None \<Rightarrow> None | Some v \<Rightarrow>
         (case header_to_str v of None \<Rightarrow> None | Some raw \<Rightarrow> parse_session_cookie X raw)")
  case None
  then show ?thesis by (auto simp: session_extractor_alt intro: exI [of _ "faults w"])
next
  case (Some sid)
  then have "\<not> session_live (clock w) r" if "map_of (sessions w) sid = Some r" for r
    using assms that by (auto simp: live_session_def split: option.splits if_splits)
  then obtain fs where "touch_session sid w \<in> {(Inr None, w\<lparr>faults := fs\<rparr>), (Inl db_error, w\<lparr>faults := fs\<rparr>)}"
    using dead_session_refused by blast
  with Some show ?thesis by (auto simp: session_extractor_alt bindE_def lift_res_def ok_or_def)
qed

definition guarded :: "(url_ext \<Rightarrow> string option \<Rightarrow> ('z, AppError, 'a) hub_io) \<Rightarrow> bool" where
  "guarded route \<longleftrightarrow> (\<forall>X cookie w.
     (live_session X cookie w = None \<longrightarrow>
        (\<exists>e fs. route X cookie w = (Inl e, w\<lparr>faults := fs\<rparr>) \<and> e \<in> {Unauthenticated, db_error}))
     \<and> touches_session X cookie w (snd (route X cookie w)))"

lemma guarded_page:
  assumes "\<And>user. reads (page user)"
  shows "guarded (\<lambda>X cookie. bindE (session_extractor X cookie) page)"
proof -
  have "\<exists>e fs. bindE (session_extractor X cookie) page w = (Inl e, w\<lparr>faults := fs\<rparr>) \<and> e \<in> {Unauthenticated, db_error}"
    if "live_session X cookie w = None" for X cookie w
    using no_session_refused [OF that] by (auto simp: bind_run)
  moreover have "touches_session X cookie w (snd (bindE (session_extractor X cookie) page w))" for X cookie w
  proof (rule bind_snd)
    fix e w' assume "session_extractor X cookie w = (Inl e, w')"
    then show "touches_session X cookie w w'" using session_extractor_outcome [of X cookie w] by simp
  next
    fix user w' assume s: "session_extractor X cookie w = (Inr user, w')"
    obtain fs where "snd (page user w') = w'\<lparr>faults := fs\<rparr>" using assms [of user] unfolding reads_def by blast
    with s show "touches_session X cookie w (snd (page user w'))"
      using session_extractor_outcome [of X cookie w] by (simp add: touches_session_faults)
  qed
  ultimately show ?thesis by (simp add: guarded_def)
qed

text \<open>The console pages are closed to strangers and only read. Without a live session the answer is an error and nothing
  of the page is computed; with one, nothing changes but that one session row, which is renewed.\<close>

lemma console_pages_are_guarded:
  "guarded (\<lambda>X cookie. list_xorbs_route X cookie q)" "guarded (\<lambda>X cookie. get_xorb_detail_route X cookie h)"
  "guarded get_stats_route" "guarded get_me_route" "guarded list_keys_route" "guarded (get_map_route I)"
  "guarded (get_setup_status_route I d1 d2 d3)"
  unfolding console_routes [abs_def]
  by (intro guarded_page reads_pages; simp add: list_keys_def reads_query)+

text \<open>A page is a run of the hub, so every invariant of the hub holds after it.\<close>

lemma console_page_hub_run:
  assumes "\<And>user. reads (page user)"
  shows "(hub_step H E G Pw)\<^sup>*\<^sup>* w (snd (bindE (session_extractor (url_ext.truncate H) cookie) page w))"
proof -
  let ?x = "session_extractor (url_ext.truncate H) cookie"
  have "console_step (auth_ext.truncate H) G Pw (h_signing_key H) w (snd (?x w))"
    using cs_session [of "auth_ext.truncate H" G Pw "h_signing_key H" w cookie] by (simp add: auth_ext.defs url_ext.defs)
  then have s: "hub_step H E G Pw w (snd (?x w))" by (intro hs_system sy_account)
  show ?thesis
  proof (cases "?x w")
    case (Pair r w1)
    show ?thesis
    proof (cases r)
      case (Inl e)
      with Pair s show ?thesis by (simp add: bind_run r_into_rtranclp)
    next
      case (Inr user)
      obtain fs where "snd (page user w1) = w1\<lparr>faults := fs\<rparr>" using assms [of user] unfolding reads_def by blast
      moreover have "w1\<lparr>faults := fs, sia_script := sia_script w1\<rparr> = w1\<lparr>faults := fs\<rparr>" by simp
      ultimately have "hub_step H E G Pw w1 (snd (page user w1))"
        using hs_system [OF sy_world [where w = w1 and fs = fs and rs = "sia_script w1"]] by simp
      with Pair Inr s show ?thesis by (simp add: bind_run rtranclp.rtrancl_into_rtrancl r_into_rtranclp)
    qed
  qed
qed

end
