(* ===== verification/Boot.thy ===== *)
theory Boot
  imports Sia_Adapter Platform
begin

text \<open>
  Starting the server (\<^verbatim>\<open>openweights-cas/src/config.rs\<close>, \<^verbatim>\<open>main.rs\<close>, \<^verbatim>\<open>RustSdkAdapter::connect\<close>): the configuration read
  from the environment, the choice and the connection of the Sia adapter, and the sequence of boot stages. Each
  stage takes the state of the process to the next one or ends it; the trace of a run is the list of the states
  it went through. What Postgres, Redis, the SDK, the URL parser and the network answer are parameters. Of a
  configuration error only the fact is kept, not which variable is named first.
\<close>

section \<open>Configuration\<close>

record Config =
  bind_addr :: string
  database_url :: string
  redis_url :: string
  indexd_url :: string
  openweights_app_id :: string
  openweights_app_key :: string
  gateway_url_signing_key :: string
  gateway_url_signing_key_prev :: "string option"
  gateway_url_ttl_secs :: u64
  gateway_base_url :: string
  v2_reconstruction_enabled :: bool
  pg_max_connections :: u32
  github_oauth_client_id :: string
  github_oauth_client_secret :: string
  openweights_admin_password :: string
  openweights_admin_username :: string
  github_oauth_callback_url :: string
  console_base_url :: string
  indexd_admin_password :: string
  indexd_admin_url :: string
  xet_jwt_signing_key :: string
  cas_public_url :: string

type_synonym environment = "string \<Rightarrow> string option"

definition default_bind :: string where "default_bind = ''0.0.0.0:8080''"
definition default_url_ttl :: u64 where "default_url_ttl = 7200"
definition default_gateway_base_url :: string where "default_gateway_base_url = ''http://127.0.0.1:9090''"
definition default_pg_conn :: u32 where "default_pg_conn = 20"
definition default_github_callback_url :: string where
  "default_github_callback_url = ''http://localhost:8080/auth/github/callback''"
definition default_admin_username :: string where "default_admin_username = ''admin''"
definition default_console_base_url :: string where "default_console_base_url = ''http://localhost:5173''"
definition default_cas_public_url :: string where "default_cas_public_url = ''http://localhost:8080''"

text \<open>A variable that is unset takes its default; one that is set must parse.\<close>

definition parsed_or :: "(string \<Rightarrow> 'a option) \<Rightarrow> 'a \<Rightarrow> string option \<Rightarrow> 'a option" where
  "parsed_or f d v = (case v of None \<Rightarrow> Some d | Some s \<Rightarrow> f s)"

definition parse_bool :: "string \<Rightarrow> bool option" where
  "parse_bool s = (if s = ''true'' then Some True else if s = ''false'' then Some False else None)"

definition from_env :: "environment \<Rightarrow> Config option" where
  "from_env env =
     (case (env ''DATABASE_URL'', env ''REDIS_URL'', env ''INDEXD_URL'') of
        (Some db, Some rd, Some ix) \<Rightarrow>
     (case (env ''OPENWEIGHTS_APP_ID'', env ''OPENWEIGHTS_APP_KEY'', env ''GATEWAY_URL_SIGNING_KEY'') of
        (Some app_id, Some app_key, Some signing_key) \<Rightarrow>
     (case (parsed_or (\<lambda>s. map_option of_nat (parse_unsigned 64 s)) default_url_ttl (env ''GATEWAY_URL_TTL_SECS''),
            parsed_or parse_bool False (env ''V2_RECONSTRUCTION_ENABLED''),
            parsed_or (\<lambda>s. map_option of_nat (parse_unsigned 32 s)) default_pg_conn (env ''PG_MAX_CONNECTIONS'')) of
        (Some ttl, Some v2, Some conns) \<Rightarrow>
          Some \<lparr>bind_addr = or_else (env ''BIND_ADDR'') default_bind, database_url = db, redis_url = rd, indexd_url = ix,
            openweights_app_id = app_id, openweights_app_key = app_key, gateway_url_signing_key = signing_key,
            gateway_url_signing_key_prev = env ''GATEWAY_URL_SIGNING_KEY_PREV'', gateway_url_ttl_secs = ttl,
            gateway_base_url = or_else (env ''GATEWAY_BASE_URL'') default_gateway_base_url,
            v2_reconstruction_enabled = v2, pg_max_connections = conns,
            github_oauth_client_id = or_else (env ''GITHUB_OAUTH_CLIENT_ID'') [],
            github_oauth_client_secret = or_else (env ''GITHUB_OAUTH_CLIENT_SECRET'') [],
            openweights_admin_password = or_else (env ''OPENWEIGHTS_ADMIN_PASSWORD'') [],
            openweights_admin_username = or_else (env ''OPENWEIGHTS_ADMIN_USERNAME'') default_admin_username,
            github_oauth_callback_url = or_else (env ''GITHUB_OAUTH_CALLBACK_URL'') default_github_callback_url,
            console_base_url = or_else (env ''CONSOLE_BASE_URL'') default_console_base_url,
            indexd_admin_password = or_else (env ''INDEXD_ADMIN_PASSWORD'') [],
            indexd_admin_url = or_else (env ''INDEXD_ADMIN_URL'') [],
            xet_jwt_signing_key = or_else (env ''XET_JWT_SIGNING_KEY'') [],
            cas_public_url = or_else (env ''CAS_PUBLIC_URL'') default_cas_public_url\<rparr>
      | _ \<Rightarrow> None)
      | _ \<Rightarrow> None)
      | _ \<Rightarrow> None)"

text \<open>What the states of the handlers take from it.\<close>

definition github_oauth_configured :: "Config \<Rightarrow> bool" where
  "github_oauth_configured cfg \<longleftrightarrow> github_oauth_client_id cfg \<noteq> [] \<and> github_oauth_client_secret cfg \<noteq> []"

definition xet_jwt_signing_key_bytes :: "Config \<Rightarrow> byte list" where
  "xet_jwt_signing_key_bytes cfg = as_bytes (xet_jwt_signing_key cfg)"

section \<open>The Sia adapter\<close>

datatype boot_error = Failed string | BootPanic

record SiaAdapterConfig =
  sc_indexd_url :: string
  sc_app_key_bytes :: "byte list"
  sc_app_id :: "byte list"
  sc_redundancy :: RedundancyConfig

datatype adapter = MockAdapter | SdkAdapter SiaAdapterConfig

text \<open>\<open>be_connected\<close>: the handshake, with whether the key is registered.\<close>

record boot_env = url_ext +
  be_env :: environment
  be_sia_mock_feature :: bool
  be_build_pool :: "string \<Rightarrow> u32 \<Rightarrow> string + unit"
  be_run_migrations :: "string + unit"
  be_redis_config :: "string \<Rightarrow> string + unit"
  be_redis_init :: "string + unit"
  be_builder :: "string \<Rightarrow> byte list \<Rightarrow> string + unit"
  be_connected :: "byte list \<Rightarrow> string + bool"
  be_url_ok :: "string \<Rightarrow> bool"
  be_http_client :: "string + unit"
  be_listen :: "string \<Rightarrow> string + unit"

definition rust_connect :: "'x boot_env_scheme \<Rightarrow> SiaAdapterConfig \<Rightarrow> SiaAdapterError + adapter" where
  "rust_connect B cfg =
     (case be_builder B (sc_indexd_url cfg) (sc_app_id cfg) of
        Inl e \<Rightarrow> Inl (Unavailable e)
      | Inr _ \<Rightarrow>
          (case be_connected B (sc_app_key_bytes cfg) of
             Inl e \<Rightarrow> Inl (Unavailable e)
           | Inr registered \<Rightarrow>
               if registered then Inr (SdkAdapter cfg)
               else Inl (SiaOther ''sia_storage::Builder::connected returned None - app key not registered'')))"

definition parse_shard_env :: "environment \<Rightarrow> string \<Rightarrow> byte \<Rightarrow> boot_error + byte" where
  "parse_shard_env env key d =
     (case env key of
        None \<Rightarrow> Inr d
      | Some s \<Rightarrow>
          (case parse_unsigned 8 (trim s) of
             Some n \<Rightarrow> Inr (of_nat n)
           | None \<Rightarrow> Inl (Failed (key @ '' is not a valid u8 shard count (0-255)''))))"

text \<open>The identifier is sliced pair by pair, as \<open>hex_decode_pairs\<close> does.\<close>

definition decode_app_id :: "string \<Rightarrow> boot_error + byte list" where
  "decode_app_id s =
     (if length s \<noteq> 64 then Inl (Failed ''OPENWEIGHTS_APP_ID must be 64 hex chars'')
      else case hex_decode_pairs s of
             Inl _ \<Rightarrow> Inl BootPanic
           | Inr None \<Rightarrow> Inl (Failed ''OPENWEIGHTS_APP_ID must be hex'')
           | Inr (Some b) \<Rightarrow> Inr b)"

definition bind_res :: "'e + 'a \<Rightarrow> ('a \<Rightarrow> 'e + 'b) \<Rightarrow> 'e + 'b" where
  "bind_res r f = (case r of Inl e \<Rightarrow> Inl e | Inr a \<Rightarrow> f a)"

definition decode_app_key :: "'x boot_env_scheme \<Rightarrow> string \<Rightarrow> boot_error + byte list" where
  "decode_app_key B s =
     (case x_b64_std_decode B s of
        None \<Rightarrow> Inl (Failed ''OPENWEIGHTS_APP_KEY is not valid base64'')
      | Some b \<Rightarrow> if length b = 32 then Inr b else Inl (Failed ''OPENWEIGHTS_APP_KEY must decode to exactly 32 bytes''))"

definition build_sia_adapter :: "'x boot_env_scheme \<Rightarrow> Config \<Rightarrow> boot_error + adapter" where
  "build_sia_adapter B cfg =
     (if be_sia_mock_feature B \<and> be_env B ''OPENWEIGHTS_SIA_MOCK'' = Some ''true'' then Inr MockAdapter
      else
      bind_res (decode_app_key B (openweights_app_key cfg)) (\<lambda>key.
      bind_res (decode_app_id (openweights_app_id cfg)) (\<lambda>app_id.
      bind_res (parse_shard_env (be_env B) ''OPENWEIGHTS_DATA_SHARDS'' 10) (\<lambda>ds.
      bind_res (parse_shard_env (be_env B) ''OPENWEIGHTS_PARITY_SHARDS'' 20) (\<lambda>ps.
      if ds = 0 then Inl (Failed ''OPENWEIGHTS_DATA_SHARDS must be >= 1 (got 0)'')
      else
      (case rust_connect B \<lparr>sc_indexd_url = indexd_url cfg, sc_app_key_bytes = key, sc_app_id = app_id,
           sc_redundancy = \<lparr>data_shards = ds, parity_shards = ps\<rparr>\<rparr> of
         Inr a \<Rightarrow> Inr a
       | Inl _ \<Rightarrow> Inl (Failed ''sia_storage Builder handshake failed'')))))))"

section \<open>The boot sequence\<close>

record boot_state =
  bs_pool :: bool
  bs_migrated :: bool
  bs_redis :: bool
  bs_sia :: "adapter option"
  bs_signer :: "UrlSigner option"
  bs_http :: bool
  bs_reconciler :: bool
  bs_ready :: bool
  bs_listening :: bool

definition boot_start :: boot_state where
  "boot_start = \<lparr>bs_pool = False, bs_migrated = False, bs_redis = False, bs_sia = None, bs_signer = None, bs_http = False,
     bs_reconciler = False, bs_ready = False, bs_listening = False\<rparr>"

type_synonym stage = "boot_state \<Rightarrow> boot_error + boot_state"

definition external :: "string + unit \<Rightarrow> (boot_state \<Rightarrow> boot_state) \<Rightarrow> stage" where
  "external r f b = (case r of Inl e \<Rightarrow> Inl (Failed e) | Inr _ \<Rightarrow> Inr (f b))"

definition stage_pool :: "'x boot_env_scheme \<Rightarrow> Config \<Rightarrow> stage" where
  "stage_pool B cfg = external (be_build_pool B (database_url cfg) (pg_max_connections cfg)) (\<lambda>b. b\<lparr>bs_pool := True\<rparr>)"

definition stage_migrations :: "'x boot_env_scheme \<Rightarrow> stage" where
  "stage_migrations B = external (be_run_migrations B) (\<lambda>b. b\<lparr>bs_migrated := True\<rparr>)"

definition stage_redis :: "'x boot_env_scheme \<Rightarrow> Config \<Rightarrow> stage" where
  "stage_redis B cfg b =
     bind_res (external (be_redis_config B (redis_url cfg)) id b) (external (be_redis_init B) (\<lambda>b. b\<lparr>bs_redis := True\<rparr>))"

definition stage_sia :: "'x boot_env_scheme \<Rightarrow> Config \<Rightarrow> stage" where
  "stage_sia B cfg b = bind_res (build_sia_adapter B cfg) (\<lambda>a. Inr (b\<lparr>bs_sia := Some a\<rparr>))"

text \<open>An empty previous key is no previous key.\<close>

definition stage_signer :: "'x boot_env_scheme \<Rightarrow> Config \<Rightarrow> stage" where
  "stage_signer B cfg b =
     (if \<not> be_url_ok B (gateway_base_url cfg) then Inl (Failed ''GATEWAY_BASE_URL must be a valid URL'')
      else
      (case UrlSigner_new (url_ext.truncate B) (gateway_url_signing_key cfg)
         (case gateway_url_signing_key_prev cfg of Some s \<Rightarrow> if s = [] then None else Some s | None \<Rightarrow> None)
         (gateway_base_url cfg) (gateway_url_ttl_secs cfg) of
         Inl _ \<Rightarrow> Inl (Failed ''signed-url signer init (GATEWAY_URL_SIGNING_KEY)'')
       | Inr s \<Rightarrow> Inr (b\<lparr>bs_signer := Some s\<rparr>)))"

definition stage_http :: "'x boot_env_scheme \<Rightarrow> stage" where
  "stage_http B = external (be_http_client B) (\<lambda>b. b\<lparr>bs_http := True\<rparr>)"

definition stage_spawn :: stage where
  "stage_spawn b = Inr (b\<lparr>bs_reconciler := True\<rparr>)"

definition stage_ready :: stage where
  "stage_ready b = Inr (b\<lparr>bs_ready := True\<rparr>)"

definition stage_listen :: "'x boot_env_scheme \<Rightarrow> Config \<Rightarrow> stage" where
  "stage_listen B cfg = external (be_listen B (bind_addr cfg)) (\<lambda>b. b\<lparr>bs_listening := True\<rparr>)"

definition boot_stages :: "'x boot_env_scheme \<Rightarrow> Config \<Rightarrow> stage list" where
  "boot_stages B cfg = [stage_pool B cfg, stage_migrations B, stage_redis B cfg, stage_sia B cfg, stage_signer B cfg,
     stage_http B, stage_spawn, stage_ready, stage_listen B cfg]"

fun run_stages :: "stage list \<Rightarrow> boot_state \<Rightarrow> boot_error option \<times> boot_state list" where
  "run_stages [] b = (None, [b])"
| "run_stages (s # ss) b =
     (case s b of
        Inl e \<Rightarrow> (Some e, [b])
      | Inr b' \<Rightarrow> (case run_stages ss b' of (r, tr) \<Rightarrow> (r, b # tr)))"

definition run :: "'x boot_env_scheme \<Rightarrow> Config \<Rightarrow> boot_error option \<times> boot_state list" where
  "run B cfg = run_stages (boot_stages B cfg) boot_start"

text \<open>How the process ends: an exit code, or serving requests with the last state.\<close>

datatype outcome = Exit nat | Serving boot_state

definition main :: "'x boot_env_scheme \<Rightarrow> outcome" where
  "main B =
     (case from_env (be_env B) of
        None \<Rightarrow> Exit 2
      | Some cfg \<Rightarrow>
          (case run B cfg of
             (None, tr) \<Rightarrow> Serving (last tr)
           | (Some (Failed _), _) \<Rightarrow> Exit 1
           | (Some BootPanic, _) \<Rightarrow> Exit 101))"

section \<open>What the boot sequence guarantees\<close>

text \<open>A sequence of stages annotated with what holds after each.\<close>

fun chained :: "(boot_state \<Rightarrow> bool) \<Rightarrow> (stage \<times> (boot_state \<Rightarrow> bool)) list \<Rightarrow> bool" where
  "chained P [] \<longleftrightarrow> True"
| "chained P ((s, Q) # as) \<longleftrightarrow> (\<forall>b b'. P b \<longrightarrow> s b = Inr b' \<longrightarrow> Q b') \<and> chained Q as"

lemma chained_trace:
  assumes "chained P as" and "P b" and "\<forall>Q\<in>set (P # map snd as). \<forall>x. Q x \<longrightarrow> R x"
  shows "\<forall>x\<in>set (snd (run_stages (map fst as) b)). R x"
  using assms
proof (induction as arbitrary: P b)
  case (Cons a as)
  obtain s Q where a: "a = (s, Q)" by fastforce
  from Cons.prems a have R: "R b" by simp
  show ?case
  proof (cases "s b")
    case (Inl e)
    with a R show ?thesis by simp
  next
    case (Inr b')
    from Cons.prems a Inr have "chained Q as" "Q b'" by auto
    moreover have "\<forall>Q\<in>set (Q # map snd as). \<forall>x. Q x \<longrightarrow> R x" using Cons.prems(3) a by simp
    ultimately have "\<forall>x\<in>set (snd (run_stages (map fst as) b')). R x" by (rule Cons.IH)
    moreover have "snd (run_stages (map fst (a # as)) b) = b # snd (run_stages (map fst as) b')"
      by (simp add: a Inr split: prod.split)
    ultimately show ?thesis using R by simp
  qed
qed simp

lemma run_stages_nonempty: "snd (run_stages ss b) \<noteq> []"
  by (cases ss) (auto split: sum.split prod.split)

lemma chained_last:
  assumes "chained P as" and "P b" and "fst (run_stages (map fst as) b) = None"
  shows "last (P # map snd as) (last (snd (run_stages (map fst as) b)))"
  using assms
proof (induction as arbitrary: P b)
  case (Cons a as)
  obtain s Q where a: "a = (s, Q)" by fastforce
  with Cons.prems obtain b' where b': "s b = Inr b'" by (cases "s b") auto
  with Cons.prems a have "Q b'" "chained Q as" "fst (run_stages (map fst as) b') = None" by (auto split: prod.splits)
  from Cons.IH [OF this(2,1,3)] b' a run_stages_nonempty [of "map fst as" b'] show ?case
    by (cases "run_stages (map fst as) b'") (auto split: if_splits)
qed simp

lemma length_hex_decode_pairs: "hex_decode_pairs s = Inr (Some b) \<Longrightarrow> length b = length s div 2"
proof (induction s arbitrary: b rule: hex_decode_pairs.induct)
  case (1 x y r)
  then obtain v c where "hex_decode_pairs r = Inr (Some c)" "b = v # c" "u8_from_str_radix16 x y = Some v"
    "\<not> (continuation_byte x \<or> (r \<noteq> [] \<and> continuation_byte (hd r)))"
    by (cases "hex_decode_pairs r") (auto split: if_splits option.splits)
  with 1 show ?case by simp
qed auto

definition adapter_ok :: "'x boot_env_scheme \<Rightarrow> adapter \<Rightarrow> bool" where
  "adapter_ok B a =
     (case a of
        MockAdapter \<Rightarrow> be_sia_mock_feature B \<and> be_env B ''OPENWEIGHTS_SIA_MOCK'' = Some ''true''
      | SdkAdapter c \<Rightarrow> length (sc_app_key_bytes c) = 32 \<and> length (sc_app_id c) = 32 \<and> data_shards (sc_redundancy c) \<noteq> 0
          \<and> be_connected B (sc_app_key_bytes c) = Inr True)"

lemma rust_connect_Inr: "rust_connect B c = Inr a \<Longrightarrow> a = SdkAdapter c \<and> be_connected B (sc_app_key_bytes c) = Inr True"
  by (auto simp: rust_connect_def split: sum.splits if_splits)

lemma decode_app_id_Inr: "decode_app_id s = Inr b \<Longrightarrow> length b = 32"
  by (auto simp: decode_app_id_def split: if_splits sum.splits option.splits dest: length_hex_decode_pairs)

lemma decode_app_key_Inr: "decode_app_key B s = Inr b \<Longrightarrow> length b = 32"
  by (auto simp: decode_app_key_def split: option.splits if_splits)

lemma build_sia_adapter_ok: "build_sia_adapter B cfg = Inr a \<Longrightarrow> adapter_ok B a"
  by (auto simp: build_sia_adapter_def bind_res_def adapter_ok_def split: if_splits sum.splits
      dest!: rust_connect_Inr dest: decode_app_id_Inr decode_app_key_Inr)

definition signer_ok :: "'x boot_env_scheme \<Rightarrow> Config \<Rightarrow> UrlSigner \<Rightarrow> bool" where
  "signer_ok B cfg s \<longleftrightarrow> be_url_ok B (gateway_base_url cfg) \<and> gateway_base s = gateway_base_url cfg
     \<and> default_ttl_secs s = gateway_url_ttl_secs cfg
     \<and> (\<exists>raw. x_b64_std_decode B (gateway_url_signing_key cfg) = Some raw \<and> length raw = 32 \<and> x_hmac_new B raw = Some (key_current s))
     \<and> (key_prev s = None \<longleftrightarrow> gateway_url_signing_key_prev cfg \<in> {None, Some []})"

lemma stage_signer_ok: "stage_signer B cfg b = Inr b' \<Longrightarrow> \<exists>s. b' = b\<lparr>bs_signer := Some s\<rparr> \<and> signer_ok B cfg s"
  by (auto simp: stage_signer_def signer_ok_def UrlSigner_new_def load_hmac_key_def SIGNING_KEY_LEN_def url_ext.defs
      split: if_splits sum.splits option.splits)

definition booted :: "'x boot_env_scheme \<Rightarrow> Config \<Rightarrow> boot_state \<Rightarrow> bool" where
  "booted B cfg b \<longleftrightarrow> bs_pool b \<and> bs_migrated b \<and> bs_redis b \<and> (\<exists>a. bs_sia b = Some a \<and> adapter_ok B a)
     \<and> (\<exists>s. bs_signer b = Some s \<and> signer_ok B cfg s) \<and> bs_http b \<and> bs_reconciler b"

abbreviation (input) idle :: "boot_state \<Rightarrow> bool" where
  "idle b \<equiv> \<not> bs_ready b \<and> \<not> bs_listening b"

definition annotated_stages :: "'x boot_env_scheme \<Rightarrow> Config \<Rightarrow> (stage \<times> (boot_state \<Rightarrow> bool)) list" where
  "annotated_stages B cfg =
     (let sia = (\<lambda>b. \<exists>a. bs_sia b = Some a \<and> adapter_ok B a); sig = (\<lambda>b. \<exists>s. bs_signer b = Some s \<and> signer_ok B cfg s) in
      [(stage_pool B cfg, \<lambda>b. idle b \<and> bs_pool b),
       (stage_migrations B, \<lambda>b. idle b \<and> bs_pool b \<and> bs_migrated b),
       (stage_redis B cfg, \<lambda>b. idle b \<and> bs_pool b \<and> bs_migrated b \<and> bs_redis b),
       (stage_sia B cfg, \<lambda>b. idle b \<and> bs_pool b \<and> bs_migrated b \<and> bs_redis b \<and> sia b),
       (stage_signer B cfg, \<lambda>b. idle b \<and> bs_pool b \<and> bs_migrated b \<and> bs_redis b \<and> sia b \<and> sig b),
       (stage_http B, \<lambda>b. idle b \<and> bs_pool b \<and> bs_migrated b \<and> bs_redis b \<and> sia b \<and> sig b \<and> bs_http b),
       (stage_spawn, \<lambda>b. idle b \<and> booted B cfg b),
       (stage_ready, \<lambda>b. \<not> bs_listening b \<and> bs_ready b \<and> booted B cfg b),
       (stage_listen B cfg, \<lambda>b. bs_listening b \<and> bs_ready b \<and> booted B cfg b)])"

lemma annotated_stages_fst: "map fst (annotated_stages B cfg) = boot_stages B cfg"
  by (simp add: annotated_stages_def boot_stages_def Let_def)

lemma external_Inr: "external r f b = Inr b' \<longleftrightarrow> r = Inr () \<and> b' = f b"
  by (auto simp: external_def split: sum.split)

lemma stages_chained: "chained idle (annotated_stages B cfg)"
  unfolding annotated_stages_def Let_def chained.simps
  by (intro conjI allI impI)
    (auto simp: stage_pool_def stage_migrations_def stage_redis_def stage_sia_def stage_http_def stage_spawn_def stage_ready_def
      stage_listen_def external_Inr bind_res_def booted_def build_sia_adapter_ok split: sum.splits dest!: stage_signer_ok)

lemma run_trace: "\<forall>x\<in>set (snd (run B cfg)). (bs_ready x \<longrightarrow> booted B cfg x) \<and> (bs_listening x \<longrightarrow> bs_ready x)"
  unfolding run_def annotated_stages_fst [symmetric]
  by (rule chained_trace [OF stages_chained]) (auto simp: boot_start_def annotated_stages_def Let_def)

lemma run_last: "fst (run B cfg) = None \<Longrightarrow> booted B cfg (last (snd (run B cfg))) \<and> bs_listening (last (snd (run B cfg)))"
  using chained_last [OF stages_chained, of boot_start B cfg]
  by (simp add: run_def annotated_stages_fst) (simp add: boot_start_def annotated_stages_def Let_def)

lemma main_serving:
  "main B = Serving y \<Longrightarrow> \<exists>c. from_env (be_env B) = Some c \<and> fst (run B c) = None \<and> y = last (snd (run B c))"
  by (auto simp: main_def split: option.splits prod.splits boot_error.splits)

text \<open>C18: who answers is fit to answer. At whatever point of the boot sequence the readiness probe is served, a reply of 200
  means that the database is migrated, Redis is connected, the Sia adapter is either the in-memory one, asked
  for by a build and a variable meant for that, or one whose 32-byte key the indexer knows and that has at least
  one data shard, the URL signer has a 32-byte key and the reconciler runs. A server that accepts requests has
  all that and a configuration with every required variable.\<close>

theorem ready_means_booted:
  "(x \<in> set (snd (run B cfg)) \<longrightarrow> fst (health (bs_ready x) w) = Inr r \<longrightarrow> hr_status r = 200 \<longrightarrow> booted B cfg x)
    \<and> (main B = Serving y \<longrightarrow> (\<exists>c. from_env (be_env B) = Some c \<and> booted B c y \<and> bs_listening y))"
proof -
  have "bs_ready x" if "fst (health (bs_ready x) w) = Inr r" "hr_status r = 200"
    using that by (auto simp: health_def Let_def ret_def split: if_splits)
  then show ?thesis
    using run_trace [of B cfg] run_last [of B] main_serving [of B y] by blast
qed

text \<open>A mistake in the configuration ends the process and never starts a server that lacks something: with exit code 2 exactly
  when a required variable is unset or a number or flag does not parse, and otherwise, if a stage fails, with 1
  or, on a panic, with 101.\<close>

lemma boot_exit_codes:
  "(main B = Exit 2 \<longleftrightarrow> None \<in> (\<lambda>k. be_env B k) ` {''DATABASE_URL'', ''REDIS_URL'', ''INDEXD_URL'', ''OPENWEIGHTS_APP_ID'',
       ''OPENWEIGHTS_APP_KEY'', ''GATEWAY_URL_SIGNING_KEY''}
     \<or> (\<exists>s. be_env B ''GATEWAY_URL_TTL_SECS'' = Some s \<and> parse_unsigned 64 s = None)
     \<or> (\<exists>s. be_env B ''V2_RECONSTRUCTION_ENABLED'' = Some s \<and> s \<notin> {''true'', ''false''})
     \<or> (\<exists>s. be_env B ''PG_MAX_CONNECTIONS'' = Some s \<and> parse_unsigned 32 s = None))
    \<and> (\<forall>n. main B = Exit n \<longrightarrow> n \<in> {1, 2, 101})"
proof -
  have e: "main B = Exit 2 \<longleftrightarrow> from_env (be_env B) = None"
    by (auto simp: main_def split: option.splits prod.splits boot_error.splits)
  have n: "from_env (be_env B) = None \<longleftrightarrow> None \<in> (\<lambda>k. be_env B k) ` {''DATABASE_URL'', ''REDIS_URL'', ''INDEXD_URL'', ''OPENWEIGHTS_APP_ID'',
       ''OPENWEIGHTS_APP_KEY'', ''GATEWAY_URL_SIGNING_KEY''}
     \<or> (\<exists>s. be_env B ''GATEWAY_URL_TTL_SECS'' = Some s \<and> parse_unsigned 64 s = None)
     \<or> (\<exists>s. be_env B ''V2_RECONSTRUCTION_ENABLED'' = Some s \<and> s \<notin> {''true'', ''false''})
     \<or> (\<exists>s. be_env B ''PG_MAX_CONNECTIONS'' = Some s \<and> parse_unsigned 32 s = None)"
    by (auto simp: from_env_def parsed_or_def parse_bool_def split: option.splits if_splits)
  have "n \<in> {1, 2, 101}" if "main B = Exit n" for n
    using that by (auto simp: main_def split: option.splits prod.splits boot_error.splits)
  then show ?thesis unfolding e n by blast
qed

section \<open>Witnesses\<close>

definition toy_vars :: environment where
  "toy_vars k = (if k = ''OPENWEIGHTS_SIA_MOCK'' then Some ''true''
     else if k \<in> {''DATABASE_URL'', ''REDIS_URL'', ''INDEXD_URL'', ''OPENWEIGHTS_APP_ID'', ''OPENWEIGHTS_APP_KEY'', ''GATEWAY_URL_SIGNING_KEY''}
       then Some ''v'' else None)"

definition toy_boot :: "environment \<Rightarrow> boot_env" where
  "toy_boot env = url_ext.extend (toy_ext\<lparr>x_b64_std_decode := (\<lambda>_. Some (replicate 32 0)), x_hmac_new := Some\<rparr>)
     \<lparr>be_env = env, be_sia_mock_feature = True, be_build_pool = (\<lambda>_ _. Inr ()), be_run_migrations = Inr (),
      be_redis_config = (\<lambda>_. Inr ()), be_redis_init = Inr (), be_builder = (\<lambda>_ _. Inr ()), be_connected = (\<lambda>_. Inr True),
      be_url_ok = (\<lambda>_. True), be_http_client = Inr (), be_listen = (\<lambda>_. Inr ())\<rparr>"

lemma toy_boot_runs: "\<exists>tr. run (toy_boot toy_vars) cfg = (None, tr)" if "gateway_url_signing_key_prev cfg = None"
  using that
  by (auto simp: run_def boot_stages_def stage_pool_def stage_migrations_def stage_redis_def stage_sia_def stage_signer_def stage_http_def
      stage_spawn_def stage_ready_def stage_listen_def external_def bind_res_def build_sia_adapter_def toy_boot_def toy_vars_def
      url_ext.defs UrlSigner_new_def load_hmac_key_def SIGNING_KEY_LEN_def)

lemma toy_config: "\<exists>c. from_env toy_vars = Some c \<and> gateway_url_signing_key_prev c = None"
  by (simp add: from_env_def toy_vars_def parsed_or_def)

theorem ready_means_booted_witness:
  "\<exists>y c. main (toy_boot toy_vars) = Serving y \<and> booted (toy_boot toy_vars) c y \<and> bs_listening y"
proof -
  obtain c where c: "from_env toy_vars = Some c" "gateway_url_signing_key_prev c = None" using toy_config by blast
  obtain tr where "run (toy_boot toy_vars) c = (None, tr)" using toy_boot_runs [OF c(2)] by blast
  then have m: "main (toy_boot toy_vars) = Serving (last tr)"
    using c(1) by (simp add: main_def) (simp add: toy_boot_def url_ext.defs)
  with ready_means_booted [of _ "toy_boot toy_vars" c _ _ "last tr"] show ?thesis by blast
qed

lemma boot_exit_codes_witness: "main (toy_boot (\<lambda>_. None)) = Exit 2"
  using boot_exit_codes [of "toy_boot (\<lambda>_. None)"] by (simp add: toy_boot_def url_ext.defs)

end
