(* ===== verification/Spec2Isabelle.thy ===== *)
theory Spec2Isabelle
  imports Boot
begin

text \<open>
  \<^bold>\<open>A verification of the OpenWeights content-addressed store\<close>

  OpenWeights stores machine learning models as content-addressed \<^emph>\<open>xorbs\<close> (bundles of compressed
  chunks) and \<^emph>\<open>shards\<close> (which say how files are put together from chunks of xorbs), keeps the
  metadata in Postgres and the data on the Sia network, and speaks the protocol of the Hugging Face
  xet client. The program under \<^verbatim>\<open>src/cas/crates\<close> is an axum server with a background reconciler.
  Paths below are relative to \<^verbatim>\<open>src/cas/crates\<close>; \<^verbatim>\<open>core\<close>, \<^verbatim>\<open>db\<close> and \<^verbatim>\<open>storage\<close> stand for the crates
  \<^verbatim>\<open>openweights-cas-core\<close>, \<^verbatim>\<open>openweights-cas-db\<close> and \<^verbatim>\<open>openweights-cas-storage\<close>.

  \<^bold>\<open>The parts and how they interact.\<close> A request passes the extractor of \<^verbatim>\<open>core/src/auth.rs\<close> (API key or
  token, key cache, scope), then the rate limiter (\<^verbatim>\<open>rate_limit.rs\<close>, a Redis script), then its
  handler. An uploaded xorb is hashed, recorded as pinning, its body cached, and sent to Sia; an
  uploaded shard is parsed, its xorbs are checked, and its files and terms are committed in one
  transaction. The reconciler retries what Sia did not take. A download asks for the
  reconstruction of a file: the terms whose xorbs are pinned, with signed URLs for coalesced byte
  ranges that a separate gateway serves. The console side has sessions, passwords, GitHub sign-in
  and API keys. On top of the store sits a hub that speaks the API of huggingface.co: repositories,
  commits whose files are either xet files of the store or small objects kept in Postgres, a
  catalogue, and downloads. The console shows the stored objects, the user's figures and the state of
  the deployment. The process starts stage by stage and reports itself ready when it is.

  \<^bold>\<open>The theories.\<close>
  \<^item> \<open>CAS_Prelude\<close>: types, text and number formats of the Rust standard library (\<^verbatim>\<open>trim\<close>, \<^verbatim>\<open>split\<close>,
    integer parsing and printing, saturating arithmetic), the locales \<open>text_codec\<close> (writer and reader
    of a text format) and \<open>step_system\<close> (a transition system with an invariant).
  \<^item> \<open>Ordered_Map\<close>: association lists sorted by key as \<^verbatim>\<open>BTreeMap\<close>; the locales \<open>entry_map\<close> and
    \<open>vec_map\<close> are what the callers of the entry API use.
  \<^item> \<open>Coalesce\<close>: \<^verbatim>\<open>core/src/coalesce.rs\<close>. The emitted ranges cover exactly the bytes of the terms, are
    sorted and separated, and there are as few as possible; an empty span wraps.
  \<^item> \<open>Hex_Codec\<close>: the hexadecimal writers and readers of \<^verbatim>\<open>shard_parse.rs\<close>, \<^verbatim>\<open>handlers/hfapi.rs\<close>,
    \<^verbatim>\<open>handlers/admin/xorbs.rs\<close> and \<^verbatim>\<open>handlers/reconstruction.rs\<close>; they agree.
  \<^item> \<open>Signed_Url\<close>: \<^verbatim>\<open>core/src/signed_url.rs\<close>; the locale \<open>url_minter\<close>. Minted URLs verify, a signature
    grants one thing only, old keys are accepted during a rotation.
  \<^item> \<open>Errors\<close>: \<^verbatim>\<open>core/src/errors.rs\<close> and \<^verbatim>\<open>scopes.rs\<close>.
  \<^item> \<open>CAS_World\<close>: the state (tables, Redis, clock, Sia) and the combinators handlers are written with.
  \<^item> \<open>Rate_Limit\<close>: \<^verbatim>\<open>core/src/rate_limit.rs\<close> and \<^verbatim>\<open>core/scripts/rate_limit.lua\<close>. A bound on the grants of
    any sequence of checks, soundness of retry-after, isolation of buckets.
  \<^item> \<open>Queries\<close>: \<^verbatim>\<open>db/src/queries\<close>, \<^verbatim>\<open>db/src/types.rs\<close>, \<^verbatim>\<open>core/src/metering.rs\<close>; the invariant \<open>cas_inv\<close> of the
    tables and that every statement keeps it; what a reconstruction query returns.
  \<^item> \<open>Reconciler\<close>: \<^verbatim>\<open>storage/src/reconciler.rs\<close>. The sweep refines the life cycle \<open>pin_step\<close> of a row,
    recovers what can be recovered, and what it gets wrong. Locales \<open>pin_table\<close>, \<open>xorb_sweep\<close> and
    \<open>shard_sweep\<close>, each interpreted on the model's tables.
  \<^item> \<open>Shard_Parse\<close>: \<^verbatim>\<open>core/src/shard_parse.rs\<close> and the boundary walk of \<^verbatim>\<open>handlers/xorbs.rs\<close>. Parsing ends, a
    parsed shard tiles its files, recovered boundaries are right.
  \<^item> \<open>Uploads\<close>: \<^verbatim>\<open>core/src/handlers/xorbs.rs\<close> and \<^verbatim>\<open>handlers/shards.rs\<close>, both handlers whole.
  \<^item> \<open>Reconstruction\<close>: \<^verbatim>\<open>handlers/reconstruction.rs\<close>, \<^verbatim>\<open>reconstruction_v2.rs\<close> and \<^verbatim>\<open>dedup.rs\<close>. Every term
    can be fetched through the URLs of the reply, the URLs grant nothing else, V2 agrees with V1.
  \<^item> \<open>Accounts\<close>: the account tables and \<^verbatim>\<open>core/src/session.rs\<close>.
  \<^item> \<open>Bearer_Auth\<close>: \<^verbatim>\<open>core/src/xet_jwt.rs\<close> and \<^verbatim>\<open>core/src/auth.rs\<close>. Minted tokens are accepted, what an accepted
    token proves, the guessable synthetic key.
  \<^item> \<open>Console\<close>: \<^verbatim>\<open>handlers/admin/keys.rs\<close>, \<^verbatim>\<open>handlers/auth/password.rs\<close>, \<^verbatim>\<open>logout.rs\<close>, \<^verbatim>\<open>github.rs\<close>.
  \<^item> \<open>Account_System\<close>: the locale \<open>account_inv\<close> (a predicate the account handlers keep), the step relation
    \<open>console_step\<close> and three histories: revoked keys, signed-out sessions, consumed nonces.
  \<^item> \<open>Store_System\<close>: the locales \<open>store_inv\<close> and \<open>system_inv\<close>, the routes, and \<open>system_step\<close>, the step relation of
    the store. Invariants of all reachable states, permanence of published files, and what a
    foreign shard can still do.
  \<^item> \<open>Hub\<close>: \<^verbatim>\<open>handlers/hfapi.rs\<close>, the tables of the hub, access checks, repositories, tokens, LFS objects; \<open>reads\<close>, the
    handlers that change nothing.
  \<^item> \<open>Hub_Commit\<close>: the commit handler. Its transaction either leaves the tables alone or performs the abstract
    commit \<open>committed\<close>.
  \<^item> \<open>Hub_Read\<close>: model information, catalogue, statistics, path resolution, reconstruction from Sia. Private
    repositories are hidden, except from a forged token; a served file is the concatenation of its terms.
  \<^item> \<open>Hub_System\<close>: the locales \<open>lfs_inv\<close> and \<open>hub_inv\<close> (predicates the hub keeps, on top of \<open>account_inv\<close> and \<open>store_inv\<close>)
    and \<open>hub_step\<close>, the step relation of the whole server. The tables stay well formed, history is
    append-only, small objects have the digest they are stored under, what is committed can be
    downloaded, and what the commit and revision endpoints get wrong.
  \<^item> \<open>Admin\<close>: \<^verbatim>\<open>handlers/admin/xorbs.rs\<close>, \<^verbatim>\<open>stats.rs\<close>, \<^verbatim>\<open>me.rs\<close>. The listing shows the newest objects, what is listed can
    be opened, the figures account for every download once, and the activity feed shows too much.
  \<^item> \<open>Platform\<close>: \<^verbatim>\<open>handlers/admin/map.rs\<close>, \<^verbatim>\<open>setup.rs\<close>, \<^verbatim>\<open>handlers/health.rs\<close> and the console routes. The pages are closed
    to strangers and only read, so each is a run of \<open>hub_step\<close>; the map counts contracts; the probes are exact.
  \<^item> \<open>Sia_Adapter\<close>: \<^verbatim>\<open>storage/src/mock.rs\<close> and \<^verbatim>\<open>sia.rs\<close>; the locale \<open>object_store\<close>, interpreted on the in-memory adapter. What
    was stored is read back; errors of the SDK never bring a row closer to being given up.
  \<^item> \<open>Boot\<close>: \<^verbatim>\<open>openweights-cas/src/main.rs\<close>, \<^verbatim>\<open>config.rs\<close>, \<^verbatim>\<open>state.rs\<close>. A reply of 200 of the readiness probe, at any stage,
    means the server has all it needs; the exit codes.

  \<^bold>\<open>How the code is represented.\<close> A handler is a function from the world to an error or a result, and a
  world; \<open>bindE\<close> is the question mark operator. A table is a list of keyed rows. Each SQL statement
  is one atomic round trip: its conflict clause and the constraints it can violate are written out,
  and the list \<open>faults\<close> of the world decides, call by call, whether the round trip fails, so that a
  theorem without a hypothesis on \<open>faults\<close> holds for every pattern of failures. Transactions roll
  the tables back. Sia is the list of its answers (\<open>sia_script\<close>) and the record of the calls.
  Interleaving is that of whole handlers and sweeps; where a race inside a handler matters (a sweep
  acting on a row it read before an upload finished) the row is an argument. Random bytes, generated
  ids and what the extractors of axum decode are arguments.

  \<^verbatim>\<open>u64\<close>, \<^verbatim>\<open>u32\<close> and \<^verbatim>\<open>u8\<close> are words and wrap as a release build does (the debug assertions are off);
  \<^verbatim>\<open>i64\<close> columns are integers. Strings are lists of bytes as characters; \<^verbatim>\<open>trim\<close> removes ASCII white space. A
  \<^verbatim>\<open>HashMap\<close> that is only looked up is a function or an association list; one that is iterated into a
  JSON object is listed by key. The fire-and-forget update of \<^verbatim>\<open>last_used_at\<close> happens before the handler
  continues.

  \<^bold>\<open>Parameters.\<close> SHA-256, HMAC, base64, URL and UUID parsing, serde's JSON codec of the token claims
  (\<open>url_ext\<close>, \<open>auth_ext\<close>), the binary readers and hashes of xet-core (\<open>xet_ext\<close>), GitHub's answers
  (\<open>github_env\<close>), and for the hub serde's readers of commit entries, the chunk reader of xet-core, the
  answers of Sia to a read and the formatting of dates (\<open>hub_env\<close>), the replies of indexd (\<open>indexd_env\<close>), the
  SDK (\<open>sdk\<close>) and what Postgres, Redis and the network answer at start (\<open>boot_env\<close>). What the proofs rely on is in \<open>ext_laws\<close>, \<open>jwt_laws\<close> and \<open>advances\<close>; witnesses
  instantiate each with concrete functions.

  \<^bold>\<open>Loops.\<close> The reading loops of the shard parser are partial functions into \<open>option\<close>, where \<open>None\<close> is a loop
  that does not end; that they end is a theorem. All other loops are structural recursion or have a
  termination proof. No fuel is used.

  \<^bold>\<open>Not modelled.\<close> \<^verbatim>\<open>validate_yaml\<close> returns a constant. The text encoding of the Prometheus counters and the log
  subscriber are calls of their crates; the counters are fields of the world. The table of routes and the CORS
  layer are axum configuration; the routes are the compositions of extractor and handler. The registration
  tool is a dialogue with the SDK. The vendored SDK is third-party code and a parameter here. The Go gateway
  and proxy and the web console are other programs; the rows the gateway adds to the usage log are steps of
  \<open>hub_step\<close>. Sums of the statistics queries are taken over the integers, averages as exact fractions.
\<close>

end
